(* ===== verification/Prelude.thy ===== *)
theory Prelude
  imports Main "HOL-Library.Word" "HOL-Library.Monad_Syntax"
begin

text \<open>
  Shared vocabulary of the development: the machine types of \<^verbatim>\<open>src/include/Type.h\<close>, the
  conventions for kernel calls, and the generic facts on options, lists and words that the
  component theories use.

  A kernel function that runs in state \<open>s\<close> is modelled by a function into \<open>('a \<times> 's) option\<close>.
  \<open>None\<close> means that the call never comes back because the kernel has stopped: a \<^verbatim>\<open>panic\<close>,
  a failed \<^verbatim>\<open>assert\<close>, or an access through a null or out-of-range pointer, all of which end in
  \<^verbatim>\<open>while (true);\<close> of \<^verbatim>\<open>_panic_\<close>. Error codes the C code returns are ordinary values.
\<close>

unbundle bit_operations_syntax

type_synonym u8 = "8 word"
type_synonym u16 = "16 word"
type_synonym u32 = "32 word"
type_synonym u64 = "64 word"

named_theorems kdefs "definitions of kernel operations, unfolded to run them"
named_theorems bind_simps "evaluation of the option monad"
named_theorems frame "fields an operation leaves alone"

section \<open>Kernel calls as options\<close>

text \<open>A run that ends is a run in which every step ended.\<close>

lemma bind_Some_iff [bind_simps]:
  "Option.bind m f = Some r \<longleftrightarrow> (\<exists>x. m = Some x \<and> f x = Some r)"
  by (cases m) auto

lemma bind_None_iff [bind_simps]:
  "Option.bind m f = None \<longleftrightarrow> m = None \<or> (\<exists>x. m = Some x \<and> f x = None)"
  by (cases m) auto

lemma bind_SomeE:
  assumes "Option.bind m f = Some r"
  obtains x where "m = Some x" "f x = Some r"
  using assms by (auto simp: bind_simps)

text \<open>The value of an assertion of the C code: it holds or the kernel stops.\<close>

definition kassert :: "bool \<Rightarrow> unit option" where
  "kassert b = (if b then Some () else None)"

lemma kassert_simps [simp, bind_simps]:
  "kassert True = Some ()"
  "kassert False = None"
  "kassert b = Some u \<longleftrightarrow> b"
  "kassert b = None \<longleftrightarrow> \<not> b"
  by (auto simp: kassert_def)

text \<open>An array cell read by index; outside of the array there is nothing to read.\<close>

definition nth_opt :: "'a list \<Rightarrow> nat \<Rightarrow> 'a option" where
  "nth_opt xs i = (if i < length xs then Some (xs ! i) else None)"

lemma nth_opt_simps [simp]:
  "nth_opt [] i = None"
  "nth_opt (x # xs) 0 = Some x"
  "nth_opt (x # xs) (Suc i) = nth_opt xs i"
  by (auto simp: nth_opt_def)

lemma nth_opt_Some [simp]: "nth_opt xs i = Some x \<longleftrightarrow> i < length xs \<and> xs ! i = x"
  by (auto simp: nth_opt_def)

section \<open>Conversions between C integers\<close>

text \<open>
  C \<^verbatim>\<open>int\<close> values are HOL integers; a register or a \<^verbatim>\<open>u64\<close> read as an \<^verbatim>\<open>int\<close> keeps its low
  32 bits with their sign, and an \<^verbatim>\<open>int\<close> stored in a 64-bit register is sign-extended.
\<close>

definition to_int :: "u64 \<Rightarrow> int" where
  "to_int x = sint (ucast x :: u32)"

definition of_int64 :: "int \<Rightarrow> u64" where
  "of_int64 i = word_of_int i"

text \<open>Division of signed integers truncates towards zero.\<close>

definition cdiv :: "int \<Rightarrow> int \<Rightarrow> int" where
  "cdiv a b = sgn a * sgn b * (\<bar>a\<bar> div \<bar>b\<bar>)"

definition cmod :: "int \<Rightarrow> int \<Rightarrow> int" where
  "cmod a b = a - b * cdiv a b"

lemma cdiv_nonneg [simp]: "0 \<le> a \<Longrightarrow> 0 < b \<Longrightarrow> cdiv a b = a div b"
  by (cases "a = 0") (simp_all add: cdiv_def)

lemma to_int_bounds: "- (2 ^ 31) \<le> to_int x \<and> to_int x < 2 ^ 31"
proof -
  have "- (2 ^ (LENGTH(32) - 1)) \<le> sint (ucast x :: u32)"
    by (rule sint_ge)
  moreover have "sint (ucast x :: u32) < 2 ^ (LENGTH(32) - 1)"
    by (rule sint_lt)
  ultimately show ?thesis by (simp add: to_int_def)
qed

section \<open>Bits of words\<close>

lemma unat_lt64: "unat (x :: u64) < 2 ^ 64"
  using unsigned_less [of x, where ?'a = nat] by simp

lemma unat_lt32: "unat (x :: u32) < 2 ^ 32"
  using unsigned_less [of x, where ?'a = nat] by simp

lemma unat_add64: "unat a + unat b < 2 ^ 64 \<Longrightarrow> unat (a + b) = unat a + unat (b :: u64)"
  using unat_add_lem [of a b] by simp

lemma unat_succ64: "a \<noteq> - 1 \<Longrightarrow> unat ((a :: u64) + 1) = Suc (unat a)"
  using unatSuc [of a] by (simp add: eq_neg_iff_add_eq_0 add.commute)

lemma bit_word_bound: "bit (x :: 'a::len word) n \<Longrightarrow> n < LENGTH('a)"
  by (rule bit_imp_le_length)

lemma word_nonzero_bit: "(x :: 'a::len word) \<noteq> 0 \<longleftrightarrow> (\<exists>n. bit x n)"
  by (auto simp: bit_eq_iff dest: bit_word_bound)

lemma mask_zero_iff:
  "(x :: 'a::len word) AND mask k = 0 \<longleftrightarrow> (\<forall>n < k. \<not> bit x n)"
proof
  assume h: "x AND mask k = 0"
  show "\<forall>n < k. \<not> bit x n"
  proof (intro allI impI notI)
    fix n assume "n < k" and b: "bit x n"
    then have "bit (x AND mask k) n"
      using bit_word_bound [OF b] by (simp add: bit_simps)
    with h show False by simp
  qed
next
  assume "\<forall>n < k. \<not> bit x n"
  then show "x AND mask k = 0"
    by (auto simp: bit_eq_iff bit_simps)
qed

lemma nat_or_disjoint: "(b :: nat) < 2 ^ k \<Longrightarrow> push_bit k i OR b = 2 ^ k * i + b"
proof -
  assume b: "b < 2 ^ k"
  have "push_bit k i AND b = 0"
  proof (rule bit_eqI)
    fix n
    show "bit (push_bit k i AND b) n \<longleftrightarrow> bit (0 :: nat) n"
    proof (cases "n < k")
      case True
      then show ?thesis by (simp add: bit_simps)
    next
      case False
      have "b < 2 ^ n"
        using b False by (meson not_less less_le_trans one_le_numeral power_increasing)
      then have "\<not> bit b n" by (simp add: bit_iff_odd)
      then show ?thesis by (simp add: bit_simps)
    qed
  qed
  then have "push_bit k i OR b = push_bit k i + b"
    by (simp add: disjunctive_add_eq_or)
  then show ?thesis by (simp add: push_bit_eq_mult mult.commute)
qed

section \<open>Lists\<close>

lemma nth_update_split:
  "i < length xs \<Longrightarrow> xs[j := v] ! i = (if i = j then v else xs ! i)"
  by (simp add: nth_list_update)

lemma distinct_remove1_set: "distinct xs \<Longrightarrow> set (remove1 x xs) = set xs - {x}"
  by (rule set_remove1_eq)

section \<open>Counting loops\<close>

text \<open>\<^verbatim>\<open>for (i = a; i < n; i++) body\<close>, where the body may stop the kernel.\<close>

function kfor :: "nat \<Rightarrow> nat \<Rightarrow> (nat \<Rightarrow> 's \<Rightarrow> 's option) \<Rightarrow> 's \<Rightarrow> 's option" where
  "kfor i n f s = (if i < n then Option.bind (f i s) (kfor (Suc i) n f) else Some s)"
  by pat_completeness auto
termination
  by (relation "measure (\<lambda>(i, n, _, _). n - i)") auto

declare kfor.simps [simp del]

lemma kfor_done [simp]: "n \<le> i \<Longrightarrow> kfor i n f s = Some s"
  by (simp add: kfor.simps)

lemma kfor_step: "i < n \<Longrightarrow> kfor i n f s = Option.bind (f i s) (kfor (Suc i) n f)"
  by (subst kfor.simps) simp

text \<open>Partial and total correctness of a loop from an invariant.\<close>

lemma kfor_inv:
  assumes "kfor i n f s = Some t" and "P i s" and "i \<le> n"
    and "\<And>j s s'. i \<le> j \<Longrightarrow> j < n \<Longrightarrow> P j s \<Longrightarrow> f j s = Some s' \<Longrightarrow> P (Suc j) s'"
  shows "P n t"
  using assms
proof (induction i n f s rule: kfor.induct)
  case (1 i n f s)
  show ?case
  proof (cases "i < n")
    case True
    with 1(2) obtain s' where s': "f i s = Some s'" "kfor (Suc i) n f s' = Some t"
      by (auto simp: kfor_step bind_Some_iff)
    show ?thesis
      by (rule 1(1) [OF True s']) (use 1(3-5) True s' in auto)
  next
    case False
    with 1 show ?thesis by (simp add: kfor.simps)
  qed
qed

lemma kfor_total:
  assumes "P i s" and "i \<le> n"
    and "\<And>j s. i \<le> j \<Longrightarrow> j < n \<Longrightarrow> P j s \<Longrightarrow> \<exists>s'. f j s = Some s' \<and> P (Suc j) s'"
  shows "\<exists>t. kfor i n f s = Some t \<and> P n t"
  using assms
proof (induction i n f s rule: kfor.induct)
  case (1 i n f s)
  show ?case
  proof (cases "i < n")
    case True
    with 1(2,4) obtain s' where s': "f i s = Some s'" "P (Suc i) s'" by blast
    have "\<exists>t. kfor (Suc i) n f s' = Some t \<and> P n t"
      by (rule 1(1) [OF True s'(1)]) (use 1(4) s' True in auto)
    with s' True show ?thesis by (simp add: kfor_step)
  next
    case False
    with 1 show ?thesis by (simp add: kfor.simps)
  qed
qed

end
