(* ===== verification/CMem.thy ===== *)
theory CMem
  imports Prelude
begin

text \<open>
  Physical memory as the kernel sees it, a byte per 64-bit address, with the little-endian
  64-, 32- and 16-bit accesses the code makes through casts; and the routines that run over it:
  \<^verbatim>\<open>src/kernel/utility/String.c\<close>, and \<^verbatim>\<open>bcopy\<close> and \<^verbatim>\<open>bzero\<close> of
  \<^verbatim>\<open>src/kernel/memory/MemoryInit.c\<close>. Each loop is followed by a closed form of the memory it
  leaves behind, which is what the components use.
\<close>

type_synonym bytes = "u64 \<Rightarrow> u8"

section \<open>Little-endian accesses\<close>

primrec load_le :: "nat \<Rightarrow> bytes \<Rightarrow> u64 \<Rightarrow> u64" where
  "load_le 0 m a = 0"
| "load_le (Suc n) m a = ucast (m a) OR push_bit 8 (load_le n m (a + 1))"

primrec store_le :: "nat \<Rightarrow> bytes \<Rightarrow> u64 \<Rightarrow> u64 \<Rightarrow> bytes" where
  "store_le 0 m a v = m"
| "store_le (Suc n) m a v = (store_le n m (a + 1) (drop_bit 8 v))(a := ucast v)"

definition load64 :: "bytes \<Rightarrow> u64 \<Rightarrow> u64" where
  "load64 m a = load_le 8 m a"

definition store64 :: "bytes \<Rightarrow> u64 \<Rightarrow> u64 \<Rightarrow> bytes" where
  "store64 m a v = store_le 8 m a v"

definition load32 :: "bytes \<Rightarrow> u64 \<Rightarrow> u32" where
  "load32 m a = ucast (load_le 4 m a)"

definition store32 :: "bytes \<Rightarrow> u64 \<Rightarrow> u32 \<Rightarrow> bytes" where
  "store32 m a v = store_le 4 m a (ucast v)"

definition load16 :: "bytes \<Rightarrow> u64 \<Rightarrow> u16" where
  "load16 m a = ucast (load_le 2 m a)"

text \<open>\<open>in_range a d n\<close>: the address \<open>a\<close> is one of the \<open>n\<close> bytes from \<open>d\<close> on.\<close>

definition in_range :: "u64 \<Rightarrow> u64 \<Rightarrow> nat \<Rightarrow> bool" where
  "in_range a d n \<longleftrightarrow> unat (a - d) < n"

lemma in_range_0 [simp]: "\<not> in_range a d 0"
  by (simp add: in_range_def)

lemma unat_diff_step:
  fixes a d :: u64
  shows "a \<noteq> d \<Longrightarrow> unat (a - d) = Suc (unat (a - (d + 1)))"
proof -
  assume "a \<noteq> d"
  then have "a - d \<noteq> 0" by simp
  moreover have "a - (d + 1) = (a - d) - 1" by simp
  ultimately show ?thesis
    by (metis One_nat_def Suc_diff_1 unat_minus_one unat_gt_0)
qed

lemma in_range_Suc: "n < 2 ^ 64 \<Longrightarrow> in_range a d (Suc n) \<longleftrightarrow> a = d \<or> in_range a (d + 1) n"
proof (cases "a = d")
  case False
  then show ?thesis by (simp add: in_range_def unat_diff_step)
qed (simp add: in_range_def)

lemma in_range_Suc_notin: "n < 2 ^ 64 \<Longrightarrow> \<not> in_range d (d + 1) n"
proof -
  assume "n < 2 ^ 64"
  moreover have "d - (d + 1) = - 1" by simp
  ultimately show ?thesis by (simp add: in_range_def unsigned_minus_1_eq_mask mask_eq_exp_minus_1)
qed

lemma in_rangeE: "in_range a d n \<Longrightarrow> \<exists>i < n. a = d + of_nat i"
  by (rule exI [of _ "unat (a - d)"]) (simp add: in_range_def)

lemma in_range_of_nat: "i < n \<Longrightarrow> n \<le> 2 ^ 64 \<Longrightarrow> in_range (d + of_nat i) d n"
  by (simp add: in_range_def unat_of_nat)

lemma load_le_cong:
  "(\<And>i. i < n \<Longrightarrow> m (a + of_nat i) = m' (a + of_nat i)) \<Longrightarrow> load_le n m a = load_le n m' a"
proof (induction n arbitrary: a)
  case (Suc n)
  have "load_le n m (a + 1) = load_le n m' (a + 1)"
    using Suc.prems [of "Suc _"] by (intro Suc.IH) (simp add: ac_simps)
  with Suc.prems [of 0] show ?case by simp
qed simp

lemma bit_load_le:
  "n \<le> 8 \<Longrightarrow> bit (load_le n m a) k \<longleftrightarrow> k < 8 * n \<and> bit (m (a + of_nat (k div 8))) (k mod 8)"
proof (induction n arbitrary: a k)
  case (Suc n)
  show ?case
  proof (cases "k < 8")
    case True
    then show ?thesis by (simp add: bit_simps)
  next
    case False
    then have k: "k div 8 = Suc ((k - 8) div 8)" "k mod 8 = (k - 8) mod 8"
      by (simp_all add: le_div_geq le_mod_geq)
    have "bit (load_le (Suc n) m a) k \<longleftrightarrow> k < 64 \<and> bit (load_le n m (a + 1)) (k - 8)"
      using False by (auto simp: bit_simps dest: bit_word_bound)
    also have "\<dots> \<longleftrightarrow> k < 8 * Suc n \<and> bit (m (a + of_nat (k div 8))) (k mod 8)"
      using False Suc.prems Suc.IH [of "a + 1" "k - 8"] by (auto simp: k ac_simps)
    finally show ?thesis .
  qed
qed simp

lemma store_le_other: "n \<le> 8 \<Longrightarrow> \<not> in_range b a n \<Longrightarrow> store_le n m a v b = m b"
proof (induction n arbitrary: a v)
  case (Suc n)
  then have "b \<noteq> a \<and> \<not> in_range b (a + 1) n" using in_range_Suc [of n b a] by simp
  with Suc show ?case by simp
qed simp

lemma store_le_at:
  "n \<le> 8 \<Longrightarrow> i < n \<Longrightarrow> store_le n m a v (a + of_nat i) = ucast (drop_bit (8 * i) v)"
proof (induction n arbitrary: a v i)
  case (Suc n)
  show ?case
  proof (cases i)
    case 0
    then show ?thesis by simp
  next
    case (Suc j)
    have ne: "a + of_nat i \<noteq> a"
    proof
      assume "a + of_nat i = a"
      then have "unat (of_nat i :: u64) = 0" by simp
      moreover have "unat (of_nat i :: u64) = i" using Suc.prems by (simp add: unat_of_nat)
      ultimately show False using Suc by simp
    qed
    have "store_le n m (a + 1) (drop_bit 8 v) (a + 1 + of_nat j) = ucast (drop_bit (8 * j) (drop_bit 8 v))"
      using Suc.prems Suc by (intro Suc.IH) auto
    with ne Suc show ?thesis by (simp add: ac_simps)
  qed
qed simp

lemma load_store_le_same:
  assumes "n \<le> 8" shows "load_le n (store_le n m a v) a = take_bit (8 * n) v"
proof (rule bit_word_eqI)
  fix k :: nat
  assume "k < LENGTH(64)"
  have "k = 8 * (k div 8) + k mod 8" by simp
  then show "bit (load_le n (store_le n m a v) a) k = bit (take_bit (8 * n) v) k"
    using assms store_le_at [of n "k div 8" m a v]
    by (auto simp: bit_load_le bit_simps less_mult_imp_div_less mult.commute)
qed

text \<open>Two accesses of \<open>n\<close> and \<open>k\<close> bytes that do not meet.\<close>

definition apart :: "u64 \<Rightarrow> nat \<Rightarrow> u64 \<Rightarrow> nat \<Rightarrow> bool" where
  "apart a n b k \<longleftrightarrow> n \<le> unat (b - a) \<and> k \<le> unat (a - b)"

lemma apart_not_in_range:
  assumes "apart a n b k" and "i < k" and "k \<le> 2 ^ 64"
  shows "\<not> in_range (b + of_nat i) a n"
proof -
  have i: "unat (of_nat i :: u64) = i" using assms by (simp add: unat_of_nat)
  have "i < unat (a - b)" using assms by (simp add: apart_def)
  then have lt: "of_nat i < a - b" using i by (simp add: word_less_nat_alt)
  have "b \<noteq> a" using \<open>i < unat (a - b)\<close> by auto
  then have "unat (b - a) = 2 ^ 64 - unat (a - b)"
    using unat_lt64 [of a] unat_lt64 [of b]
    by (auto simp: unat_sub_if' not_le word_unat_eq_iff dest: order_antisym)
  moreover have "unat (b + of_nat i - a) = unat (b - a) + i"
  proof -
    have "b + of_nat i - a = (b - a) + of_nat i" by simp
    moreover have "unat (b - a) + unat (of_nat i :: u64) < 2 ^ LENGTH(64)"
      using calculation \<open>i < unat (a - b)\<close> \<open>unat (b - a) = 2 ^ 64 - unat (a - b)\<close> i
        unat_lt64 [of "a - b"] by simp
    ultimately show ?thesis using i unat_add64 [of "b - a" "of_nat i"] by (simp add: add_diff_eq diff_add_eq)
  qed
  ultimately show ?thesis using assms by (simp add: in_range_def apart_def)
qed

lemma load_store_le_apart:
  assumes "n \<le> 8" "k \<le> 8" "apart a n b k"
  shows "load_le k (store_le n m a v) b = load_le k m b"
  using assms apart_not_in_range [of a n b k]
  by (intro load_le_cong) (simp add: store_le_other)

lemma load64_store64 [simp]: "load64 (store64 m a v) a = v"
  by (simp add: load64_def store64_def load_store_le_same take_bit_word_eq_self)

lemma load32_store32 [simp]: "load32 (store32 m a v) a = v"
  by (simp add: load32_def store32_def load_store_le_same)
     (simp add: bit_eq_iff bit_simps)

lemma load64_store64_apart: "apart a 8 b 8 \<Longrightarrow> load64 (store64 m a v) b = load64 m b"
  by (simp add: load64_def store64_def load_store_le_apart)

lemma store64_other: "\<not> in_range b a 8 \<Longrightarrow> store64 m a v b = m b"
  by (simp add: store64_def store_le_other)

text \<open>Distinct 8-aligned cells do not meet.\<close>

lemma aligned8_apart:
  fixes a b :: u64
  assumes "8 dvd unat a" "8 dvd unat b" "a \<noteq> b"
  shows "apart a 8 b 8"
proof -
  have *: "8 \<le> unat (x - y)" if "8 dvd unat x" "8 dvd unat y" "x \<noteq> y" for x y :: u64
  proof -
    have "8 dvd unat (x - y)"
      using that by (auto simp: unat_sub_if' dvd_diff_nat)
    moreover have "unat (x - y) \<noteq> 0" using that by (simp add: unat_eq_zero)
    ultimately show ?thesis by (auto elim!: dvdE)
  qed
  show ?thesis using *[OF assms(1,2,3)] *[OF assms(2,1)] assms(3) by (auto simp: apart_def)
qed

section \<open>Fills and copies\<close>

primrec memset_loop :: "bytes \<Rightarrow> u64 \<Rightarrow> u8 \<Rightarrow> nat \<Rightarrow> bytes" where
  "memset_loop m d c 0 = m"
| "memset_loop m d c (Suc n) = memset_loop (m(d := c)) (d + 1) c n"

definition memset :: "bytes \<Rightarrow> u64 \<Rightarrow> int \<Rightarrow> u32 \<Rightarrow> bytes" where
  "memset m dst c n = memset_loop m dst (word_of_int c) (unat n)"

primrec memmove_loop :: "bytes \<Rightarrow> u64 \<Rightarrow> u64 \<Rightarrow> nat \<Rightarrow> bytes" where
  "memmove_loop m d s 0 = m"
| "memmove_loop m d s (Suc n) = memmove_loop (m(d := m s)) (d + 1) (s + 1) n"

definition memmove :: "bytes \<Rightarrow> u64 \<Rightarrow> u64 \<Rightarrow> u32 \<Rightarrow> bytes" where
  "memmove m dst src n = memmove_loop m dst src (unat n)"

definition memcpy :: "bytes \<Rightarrow> u64 \<Rightarrow> u64 \<Rightarrow> u32 \<Rightarrow> bytes" where
  "memcpy m dst src n = memmove m dst src n"

lemma unat_step_less: "(a :: u64) < b \<Longrightarrow> unat (a + 1) = Suc (unat a)"
proof -
  assume "a < b"
  then have "a \<noteq> - 1" by (metis word_not_simps(3))
  then show ?thesis by (rule unat_succ64)
qed

text \<open>\<^verbatim>\<open>bcopy\<close> and \<^verbatim>\<open>bzero\<close> run to an end pointer.\<close>

function bcopy_loop :: "bytes \<Rightarrow> u64 \<Rightarrow> u64 \<Rightarrow> u64 \<Rightarrow> bytes" where
  "bcopy_loop m src dst finish =
     (if src < finish then bcopy_loop (m(dst := m src)) (src + 1) (dst + 1) finish else m)"
  by pat_completeness auto
termination
  by (relation "measure (\<lambda>(m, src, dst, finish). unat finish - unat src)")
     (auto simp: unat_step_less word_less_nat_alt)

definition bcopy :: "bytes \<Rightarrow> u64 \<Rightarrow> u64 \<Rightarrow> u32 \<Rightarrow> bytes" where
  "bcopy m src dst len = bcopy_loop m src dst (src + ucast len)"

function bzero_bytes :: "bytes \<Rightarrow> u64 \<Rightarrow> u64 \<Rightarrow> bytes" where
  "bzero_bytes m start finish =
     (if start < finish then bzero_bytes (m(start := 0)) (start + 1) finish else m)"
  by pat_completeness auto
termination
  by (relation "measure (\<lambda>(m, start, finish). unat finish - unat start)")
     (auto simp: unat_step_less word_less_nat_alt)

lemma and7: "unat ((a :: u64) AND 7) = unat a mod 8"
proof -
  have "a AND 7 = take_bit 3 a" by (simp add: take_bit_eq_mask mask_eq_exp_minus_1)
  moreover have "unat (take_bit 3 a) = take_bit 3 (unat a)" by (simp add: unsigned_take_bit_eq)
  ultimately show ?thesis by (simp only: take_bit_eq_mod) simp
qed

lemma and7_0: "(a :: u64) AND 7 = 0 \<longleftrightarrow> 8 dvd unat a"
  by (metis and7 dvd_eq_mod_eq_0 unat_eq_zero)

lemma unat_mod8_step: "unat ((a :: u64) + 1) mod 8 = Suc (unat a) mod 8"
proof (cases "a = - 1")
  case True
  then show ?thesis by (simp add: unsigned_minus_1_eq_mask mask_eq_exp_minus_1)
next
  case False
  then have "unat (a + 1) = Suc (unat a)" by (rule unat_succ64)
  then show ?thesis by (rule arg_cong)
qed

text \<open>The loop up to an 8-aligned address, and the one over whole words.\<close>

function bzero_align :: "bytes \<Rightarrow> u64 \<Rightarrow> bytes \<times> u64" where
  "bzero_align m start = (if start AND 7 \<noteq> 0 then bzero_align (m(start := 0)) (start + 1) else (m, start))"
  by pat_completeness auto
termination
proof (relation "measure (\<lambda>(m, start). (8 - unat start mod 8) mod 8)")
  fix m :: bytes and start :: u64
  assume "start AND 7 \<noteq> 0"
  then have "unat start mod 8 \<noteq> 0" by (simp add: and7_0 dvd_eq_mod_eq_0)
  moreover have "Suc n mod 8 = (if n mod 8 = 7 then 0 else Suc (n mod 8))" for n :: nat
    by (simp add: mod_Suc)
  ultimately have "(8 - unat (start + 1) mod 8) mod 8 < (8 - unat start mod 8) mod 8"
    by (auto simp: unat_mod8_step)
  then show "((m(start := 0), start + 1), m, start)
      \<in> measure (\<lambda>(m, start). (8 - unat start mod 8) mod 8)" by simp
qed simp

lemma unat_step8: "unat a + 7 < unat b \<Longrightarrow> unat ((a :: u64) + 8) = unat a + 8" for b :: u64
  using unat_add64 [of a 8] unat_lt64 [of b] by simp

function bzero_words :: "bytes \<Rightarrow> u64 \<Rightarrow> u64 \<Rightarrow> bytes \<times> u64" where
  "bzero_words m start finish =
     (if unat start + 7 < unat finish then bzero_words (store64 m start 0) (start + 8) finish
      else (m, start))"
  by pat_completeness auto
termination
  by (relation "measure (\<lambda>(m, start, finish). unat finish - unat start)") (auto simp: unat_step8)

definition bzero :: "bytes \<Rightarrow> u64 \<Rightarrow> u32 \<Rightarrow> bytes" where
  "bzero m start len =
     (let finish = start + ucast len
      in if len \<le> 7 then bzero_bytes m start finish
         else let (m, start) = bzero_align m start;
                  (m, start) = bzero_words m start finish
              in bzero_bytes m start finish)"

declare bcopy_loop.simps [simp del] bzero_bytes.simps [simp del]
  bzero_align.simps [simp del] bzero_words.simps [simp del]

section \<open>The memory the loops leave behind\<close>

definition fill :: "bytes \<Rightarrow> u64 \<Rightarrow> nat \<Rightarrow> u8 \<Rightarrow> bytes" where
  "fill m d n c = (\<lambda>a. if in_range a d n then c else m a)"

definition copied :: "bytes \<Rightarrow> u64 \<Rightarrow> u64 \<Rightarrow> nat \<Rightarrow> bytes" where
  "copied m d s n = (\<lambda>a. if in_range a d n then m (s + (a - d)) else m a)"

lemma fill_0 [simp]: "fill m d 0 c = m" and copied_0 [simp]: "copied m d s 0 = m"
  by (simp_all add: fill_def copied_def)

lemma memset_loop_eq: "n \<le> 2 ^ 64 \<Longrightarrow> memset_loop m d c n = fill m d n c"
proof (induction n arbitrary: m d)
  case (Suc n)
  then show ?case
    by (auto simp: fill_def fun_eq_iff in_range_Suc)
qed simp

lemma memset_eq: "memset m d c n = fill m d (unat n) (word_of_int c)"
  using unat_lt32 [of n] by (simp add: memset_def memset_loop_eq)

text \<open>
  The forward copy is right unless the destination starts inside the source, behind its first byte.
\<close>

lemma memmove_loop_eq:
  assumes "n \<le> 2 ^ 64" and "d = s \<or> n \<le> unat (d - s)"
  shows "memmove_loop m d s n = copied m d s n"
  using assms
proof (induction n arbitrary: m d s)
  case (Suc n)
  have IH: "memmove_loop (m(d := m s)) (d + 1) (s + 1) n = copied (m(d := m s)) (d + 1) (s + 1) n"
    using Suc.prems by (intro Suc.IH) auto
  have "copied (m(d := m s)) (d + 1) (s + 1) n a = copied m d s (Suc n) a" for a
  proof (cases "in_range a (d + 1) n")
    case True
    then have ad: "a \<noteq> d" using in_range_Suc_notin [of n d] Suc.prems by auto
    have r: "s + 1 + (a - (d + 1)) = s + (a - d)" by simp
    have "s + (a - d) \<noteq> d \<or> d = s"
    proof (rule ccontr)
      assume "\<not> ?thesis"
      then have "a - d = d - s" "d \<noteq> s" by (simp_all add: algebra_simps)
      then have "Suc n \<le> unat (a - d)" using Suc.prems by simp
      with True ad show False by (simp add: in_range_def unat_diff_step)
    qed
    with True ad r Suc.prems show ?thesis by (auto simp: copied_def in_range_Suc)
  next
    case False
    with Suc.prems show ?thesis by (auto simp: copied_def in_range_Suc)
  qed
  with IH show ?case by (auto simp: fun_eq_iff)
qed simp

lemma memmove_eq:
  "d = s \<or> unat n \<le> unat (d - s) \<Longrightarrow> memmove m d s n = copied m d s (unat n)"
  using unat_lt32 [of n] by (simp add: memmove_def memmove_loop_eq)

text \<open>
  When it does start there, \<open>k\<close> bytes behind the start of the source, the bytes already copied are read
  again, and the first \<open>k\<close> of the source repeat.
\<close>

lemma memmove_loop_Suc:
  "memmove_loop m d s (Suc n) = (let m' = memmove_loop m d s n in m'(d + of_nat n := m' (s + of_nat n)))"
proof (induction n arbitrary: m d s)
  case (Suc n)
  let ?m = "m(d := m s)"
  have A: "memmove_loop m d s (Suc (Suc n)) = memmove_loop ?m (d + 1) (s + 1) (Suc n)"
    and B: "memmove_loop m d s (Suc n) = memmove_loop ?m (d + 1) (s + 1) n" by simp_all
  show ?case unfolding A Suc.IH [of ?m "d + 1" "s + 1"] B Let_def by (simp add: add.assoc)
qed simp

lemma memmove_loop_overlap:
  assumes "0 < k" and "n + k \<le> 2 ^ 64"
  shows "memmove_loop m (s + of_nat k) s n
    = (\<lambda>a. if in_range a (s + of_nat k) n then m (s + of_nat (unat (a - (s + of_nat k)) mod k)) else m a)"
  using assms(2)
proof (induction n)
  case (Suc n)
  let ?d = "s + of_nat k"
  let ?c = "\<lambda>n a. if in_range a ?d n then m (s + of_nat (unat (a - ?d) mod k)) else m a"
  have IH: "memmove_loop m ?d s n = ?c n" using Suc by simp
  have src: "?c n (s + of_nat n) = m (s + of_nat (n mod k))"
  proof (cases "n < k")
    case True
    have "s + of_nat n - ?d = of_nat n - of_nat k" by simp
    moreover have "unat (of_nat n - of_nat k :: u64) = n + 2 ^ 64 - k"
      using True Suc.prems by (simp add: unat_sub_if_size unat_of_nat word_size)
    ultimately have "\<not> in_range (s + of_nat n) ?d n" using Suc.prems True by (simp add: in_range_def)
    then show ?thesis using True by simp
  next
    case False
    then have e: "s + of_nat n = ?d + of_nat (n - k)" by (simp add: of_nat_diff)
    have "in_range (?d + of_nat (n - k)) ?d n" using False assms(1) Suc.prems by (intro in_range_of_nat) auto
    moreover have "unat (?d + of_nat (n - k) - ?d) = n - k" using Suc.prems by (simp add: unat_of_nat)
    moreover have "(n - k) mod k = n mod k" using False by (simp add: le_mod_geq)
    ultimately show ?thesis unfolding e by simp
  qed
  have "in_range a ?d (Suc n) \<longleftrightarrow> in_range a ?d n \<or> a = ?d + of_nat n" for a
  proof -
    have "unat (a - ?d) = n \<longleftrightarrow> a - ?d = of_nat n" using Suc.prems by (auto simp: unat_of_nat)
    then show ?thesis by (auto simp: in_range_def less_Suc_eq algebra_simps)
  qed
  moreover have "unat (?d + of_nat n - ?d) = n" using Suc.prems by (simp add: unat_of_nat)
  ultimately show ?case unfolding memmove_loop_Suc IH Let_def src by (auto simp: fun_eq_iff)
qed simp

lemma memmove_overlap_eq:
  assumes "0 < unat (d - s)"
  shows "memmove m d s n = (\<lambda>a. if in_range a d (unat n) then m (s + of_nat (unat (a - d) mod unat (d - s))) else m a)"
proof (cases "unat n \<le> unat (d - s)")
  case True
  then have "of_nat (unat (a - d) mod unat (d - s)) = a - d" if "in_range a d (unat n)" for a
    using that by (simp add: in_range_def)
  then show ?thesis using memmove_eq [of d s n m] True by (auto simp: copied_def fun_eq_iff)
next
  case False
  then have "unat n + unat (d - s) \<le> 2 ^ 64" using unat_lt32 [of n] by simp
  moreover have "s + of_nat (unat (d - s)) = d" by simp
  ultimately show ?thesis using memmove_loop_overlap [OF assms, of "unat n" m s] by (simp only: memmove_def)
qed

lemma bcopy_loop_memmove:
  "bcopy_loop m src dst finish = memmove_loop m dst src (unat finish - unat src)"
proof (induction m src dst finish rule: bcopy_loop.induct)
  case (1 m src dst finish)
  show ?case
  proof (cases "src < finish")
    case True
    then have "unat finish - unat src = Suc (unat finish - unat (src + 1))"
      using unat_step_less [OF True] by (simp add: word_less_nat_alt)
    with 1 True show ?thesis by (subst bcopy_loop.simps) (simp add: fun_upd_def)
  next
    case False
    then show ?thesis by (subst bcopy_loop.simps) (simp add: word_less_nat_alt)
  qed
qed

lemma unat_ucast32: "unat (ucast (x :: u32) :: u64) = unat x"
  using unat_lt32 [of x] by (simp add: unsigned_ucast_eq take_bit_nat_eq_self)

lemma bcopy_eq:
  assumes "unat src + unat len < 2 ^ 64" and "dst = src \<or> unat len \<le> unat (dst - src)"
  shows "bcopy m src dst len = copied m dst src (unat len)"
proof -
  have "unat (src + ucast len) = unat src + unat len"
    using assms(1) by (simp add: unat_add64 unat_ucast32)
  with assms show ?thesis
    using unat_lt32 [of len] by (simp add: bcopy_def bcopy_loop_memmove memmove_loop_eq)
qed

lemma bzero_bytes_eq: "bzero_bytes m start finish = fill m start (unat finish - unat start) 0"
proof -
  have "bzero_bytes m start finish = memset_loop m start 0 (unat finish - unat start)"
  proof (induction m start finish rule: bzero_bytes.induct)
    case (1 m start finish)
    show ?case
    proof (cases "start < finish")
      case True
      then have "unat finish - unat start = Suc (unat finish - unat (start + 1))"
        using unat_step_less [OF True] by (simp add: word_less_nat_alt)
      with 1 True show ?thesis by (subst bzero_bytes.simps) (simp add: fun_upd_def)
    next
      case False
      then show ?thesis by (subst bzero_bytes.simps) (simp add: word_less_nat_alt)
    qed
  qed
  then show ?thesis using unat_lt64 [of finish] by (simp add: memset_loop_eq)
qed

lemma fill_fill:
  assumes "unat d + n + k \<le> 2 ^ 64" and "unat e = unat d + n"
  shows "fill (fill m d n c) e k c = fill m d (n + k) c"
proof -
  have "in_range a e k \<or> in_range a d n \<longleftrightarrow> in_range a d (n + k)" for a
    using assms unat_lt64 [of a] by (auto simp: in_range_def unat_sub_if' split: if_splits)
  then show ?thesis by (auto simp: fill_def fun_eq_iff)
qed

lemma store64_zero: "store64 m a 0 = fill m a 8 0"
proof
  fix b
  show "store64 m a 0 b = fill m a 8 0 b"
  proof (cases "in_range b a 8")
    case True
    then obtain i where "i < 8" "b = a + of_nat i" using in_rangeE by blast
    with True show ?thesis by (simp add: store64_def store_le_at fill_def)
  next
    case False
    then show ?thesis by (simp add: store64_other fill_def)
  qed
qed

lemma bzero_words_eq:
  "bzero_words m start finish = (m', start') \<Longrightarrow>
     unat start \<le> unat start' \<and> m' = fill m start (unat start' - unat start) 0
       \<and> (unat start \<le> unat finish \<longrightarrow> unat start' \<le> unat finish)"
proof (induction m start finish rule: bzero_words.induct)
  case (1 m start finish)
  show ?case
  proof (cases "unat start + 7 < unat finish")
    case True
    have 8: "unat (start + 8) = unat start + 8" using unat_step8 [OF True] .
    from 1 True have *: "unat (start + 8) \<le> unat start'"
      "m' = fill (store64 m start 0) (start + 8) (unat start' - unat (start + 8)) 0"
      "unat (start + 8) \<le> unat finish \<longrightarrow> unat start' \<le> unat finish"
      by (simp_all add: bzero_words.simps [of m start])
    have "m' = fill m start (8 + (unat start' - unat (start + 8))) 0"
      unfolding *(2) store64_zero using *(1) 8 unat_lt64 [of start'] by (intro fill_fill) auto
    with *(1,3) 8 True show ?thesis by simp
  next
    case False
    with 1 show ?thesis by (simp add: bzero_words.simps [of m start])
  qed
qed

abbreviation pad8 :: "u64 \<Rightarrow> nat" where
  "pad8 a \<equiv> (8 - unat a mod 8) mod 8"

lemma pad8_step: "unat (a :: u64) mod 8 \<noteq> 0 \<Longrightarrow> pad8 a = Suc (pad8 (a + 1))"
proof -
  assume "unat a mod 8 \<noteq> 0"
  moreover have "unat (a + 1) mod 8 = (if unat a mod 8 = 7 then 0 else Suc (unat a mod 8))"
    by (simp add: unat_mod8_step mod_Suc)
  moreover have "unat a mod 8 < 8" by simp
  ultimately show ?thesis by (auto simp: Suc_diff_Suc)
qed

lemma bzero_align_eq:
  "unat start + pad8 start < 2 ^ 64 \<Longrightarrow>
   bzero_align m start = (fill m start (pad8 start) 0, start + of_nat (pad8 start))"
proof (induction m start rule: bzero_align.induct)
  case (1 m start)
  show ?case
  proof (cases "start AND 7 = 0")
    case True
    then have "unat start mod 8 = 0" by (simp add: and7_0 dvd_eq_mod_eq_0)
    then have "pad8 start = 0" by simp
    with True show ?thesis by (simp only: bzero_align.simps [of m start]) simp
  next
    case False
    then have p: "pad8 start = Suc (pad8 (start + 1))"
      by (intro pad8_step) (simp add: and7_0 dvd_eq_mod_eq_0)
    have u: "unat (start + 1) = Suc (unat start)"
      using 1(2) p unat_add64 [of start 1] by simp
    have "bzero_align (m(start := 0)) (start + 1)
        = (fill (m(start := 0)) (start + 1) (pad8 (start + 1)) 0, start + 1 + of_nat (pad8 (start + 1)))"
      using 1(2) p u by (intro 1(1)) (simp_all add: False)
    moreover have "fill (m(start := 0)) (start + 1) (pad8 (start + 1)) 0 = fill m start (pad8 start) 0"
      unfolding p using in_range_Suc [of "pad8 (start + 1)" _ start]
      by (auto simp: fill_def fun_eq_iff)
    ultimately show ?thesis
      using False by (simp only: bzero_align.simps [of m start] p) (simp add: ac_simps)
  qed
qed

lemma bzero_eq:
  assumes "unat start + unat len < 2 ^ 64"
  shows "bzero m start len = fill m start (unat len) 0"
proof -
  let ?f = "start + ucast len"
  have f: "unat ?f = unat start + unat len"
    using assms by (simp add: unat_add64 unat_ucast32)
  show ?thesis
  proof (cases "len \<le> 7")
    case True
    then show ?thesis by (simp add: bzero_def bzero_bytes_eq f)
  next
    case False
    then have l: "8 \<le> unat len" by (simp add: word_le_nat_alt)
    let ?s = "start + of_nat (pad8 start)"
    have p: "pad8 start < 8" by simp
    have s: "unat ?s = unat start + pad8 start"
      using assms l p by (subst unat_add64) (simp_all add: unat_of_nat)
    have al: "bzero_align m start = (fill m start (pad8 start) 0, ?s)"
      using assms l p by (intro bzero_align_eq) linarith
    obtain m' s' where w: "bzero_words (fill m start (pad8 start) 0) ?s ?f = (m', s')"
      by fastforce
    note w' = bzero_words_eq [OF w]
    have s'f: "unat s' \<le> unat ?f" using w' s f l p by linarith
    have e: "pad8 start + (unat s' - unat ?s) = unat s' - unat start" using w' s by linarith
    have "fill (fill m start (pad8 start) 0) ?s (unat s' - unat ?s) 0
        = fill m start (pad8 start + (unat s' - unat ?s)) 0"
      using w' s unat_lt64 [of s'] by (intro fill_fill) linarith+
    then have m': "m' = fill m start (unat s' - unat start) 0"
      using w' by (simp only: e)
    have "bzero m start len = fill m' s' (unat ?f - unat s') 0"
      using False by (simp add: bzero_def al w bzero_bytes_eq Let_def)
    also have "\<dots> = fill m start ((unat s' - unat start) + (unat ?f - unat s')) 0"
      unfolding m' using w' s s'f unat_lt64 [of ?f] by (intro fill_fill) linarith+
    also have "(unat s' - unat start) + (unat ?f - unat s') = unat len"
      using w' s s'f f by linarith
    finally show ?thesis .
  qed
qed

section \<open>Properties\<close>

text \<open>
  C36: \<^verbatim>\<open>memmove\<close> and \<^verbatim>\<open>bcopy\<close> copy the source bytes as they were before the call, and change nothing
  else, whenever the destination does not start inside the source; the forward loop needs that.
\<close>

theorem memmove_correct:
  assumes "d = s \<or> unat n \<le> unat (d - s)"
  shows "memmove m d s n = (\<lambda>a. if in_range a d (unat n) then m (s + (a - d)) else m a)
    \<and> (unat s + unat n < 2 ^ 64 \<longrightarrow> bcopy m s d n = memmove m d s n)"
  using memmove_eq [OF assms] bcopy_eq [OF _ assms] by (simp_all add: copied_def)

theorem memmove_correct_witness:
  "memmove (\<lambda>a. ucast a) 8 16 3 = (\<lambda>a. if in_range a 8 3 then ucast (16 + (a - 8)) else ucast a)"
  using memmove_correct [of 8 16 3 "\<lambda>a. ucast a"] by simp

text \<open>
  C37: with a destination that starts inside the source, \<open>k = d - s\<close> bytes behind its first byte,
  \<^verbatim>\<open>memmove\<close> overwrites source bytes before it copies them: the destination receives the first \<open>k\<close> bytes
  of the source over and over, and nothing else changes. So the call is the copy its name promises
  only when the source has period \<open>k\<close> to begin with.
\<close>

theorem memmove_overlap:
  assumes "0 < unat (d - s)" and "unat (d - s) < unat n"
  shows "memmove m d s n = (\<lambda>a. if in_range a d (unat n) then m (s + of_nat (unat (a - d) mod unat (d - s))) else m a)
    \<and> ((\<forall>i < unat n. memmove m d s n (d + of_nat i) = m (s + of_nat i))
       \<longleftrightarrow> (\<forall>i. i + unat (d - s) < unat n \<longrightarrow> m (s + of_nat (i + unat (d - s))) = m (s + of_nat i)))"
proof -
  let ?k = "unat (d - s)"
  note eq = memmove_overlap_eq [OF assms(1), of m n]
  have at: "memmove m d s n (d + of_nat i) = m (s + of_nat (i mod ?k))" if "i < unat n" for i
    using that unat_lt32 [of n] in_range_of_nat [of i "unat n" d] by (simp add: eq unat_of_nat)
  have "m (s + of_nat (i mod ?k)) = m (s + of_nat i)"
    if "\<forall>i. i + ?k < unat n \<longrightarrow> m (s + of_nat (i + ?k)) = m (s + of_nat i)" "i < unat n" for i
    using that(2)
  proof (induction i rule: less_induct)
    case (less i)
    show ?case
    proof (cases "i < ?k")
      case False
      then have "m (s + of_nat ((i - ?k) mod ?k)) = m (s + of_nat (i - ?k))" using less assms(1) by simp
      moreover have "m (s + of_nat (i - ?k)) = m (s + of_nat i)" using that(1) [rule_format, of "i - ?k"] less.prems False by simp
      ultimately show ?thesis using False by (simp add: le_mod_geq)
    qed simp
  qed
  moreover have "m (s + of_nat (i + ?k)) = m (s + of_nat i)"
    if c: "\<forall>i < unat n. memmove m d s n (d + of_nat i) = m (s + of_nat i)" and i: "i + ?k < unat n" for i
    using c [rule_format, of i] c [rule_format, of "i + ?k"] at [of i] at [of "i + ?k"] i by simp
  ultimately show ?thesis using eq at by (metis (no_types, lifting))
qed

theorem memmove_overlap_witness:
  "memmove (\<lambda>a. ucast a) 2 0 5 6 = (0 :: u8) \<and> \<not> (\<forall>i < 5. memmove (\<lambda>a. ucast a :: u8) 2 0 5 (2 + of_nat i) = ucast (of_nat i :: u64))"
proof -
  have h: "0 < unat (2 - 0 :: u64)" "unat (2 - 0 :: u64) < unat (5 :: u32)" by simp_all
  have "\<not> (\<forall>i. i + 2 < (5 :: nat) \<longrightarrow> (ucast (of_nat (i + 2) :: u64) :: u8) = ucast (of_nat i :: u64))"
    by (rule notI, drule spec [of _ 0]) simp
  then show ?thesis
    using conjunct1 [OF memmove_overlap [OF h, of "\<lambda>a. ucast a :: u8"]] conjunct2 [OF memmove_overlap [OF h, of "\<lambda>a. ucast a :: u8"]]
    by (simp add: in_range_def)
qed

text \<open>
  \<^verbatim>\<open>bzero\<close> clears exactly the \<open>len\<close> bytes from \<open>start\<close>, although it writes whole words in
  the middle and single bytes up to the alignment and at the end.
\<close>

theorem bzero_correct:
  assumes "unat start + unat len < 2 ^ 64"
  shows "bzero m start len = (\<lambda>a. if in_range a start (unat len) then 0 else m a)"
  using bzero_eq [OF assms] by (simp add: fill_def)

theorem bzero_correct_witness:
  "bzero (\<lambda>_. 0xFF) 0x1003 21 = (\<lambda>a. if in_range a 0x1003 21 then 0 else 0xFF)"
  using bzero_correct [of "0x1003" 21 "\<lambda>_. 0xFF"] by simp

end
