(* ===== verification/CString.thy ===== *)
theory CString
  imports CMem
begin

text \<open>
  The string routines of \<^verbatim>\<open>src/kernel/utility/String.c\<close> over byte memory, and what they compute
  on NUL-terminated strings. \<open>cstr_at m p xs\<close> says that the string \<open>xs\<close> is stored at \<open>p\<close>.
\<close>

section \<open>The routines\<close>

primrec memcmp_loop :: "bytes \<Rightarrow> u64 \<Rightarrow> u64 \<Rightarrow> nat \<Rightarrow> int" where
  "memcmp_loop m s1 s2 0 = 0"
| "memcmp_loop m s1 s2 (Suc n) =
     (if m s1 \<noteq> m s2 then uint (m s1) - uint (m s2) else memcmp_loop m (s1 + 1) (s2 + 1) n)"

definition memcmp :: "bytes \<Rightarrow> u64 \<Rightarrow> u64 \<Rightarrow> u32 \<Rightarrow> int" where
  "memcmp m v1 v2 n = memcmp_loop m v1 v2 (unat n)"

primrec strncmp_loop :: "bytes \<Rightarrow> u64 \<Rightarrow> u64 \<Rightarrow> nat \<Rightarrow> int" where
  "strncmp_loop m p q 0 = 0"
| "strncmp_loop m p q (Suc n) =
     (if m p \<noteq> 0 \<and> m p = m q then strncmp_loop m (p + 1) (q + 1) n else uint (m p) - uint (m q))"

definition strncmp :: "bytes \<Rightarrow> u64 \<Rightarrow> u64 \<Rightarrow> u32 \<Rightarrow> int" where
  "strncmp m p q n = strncmp_loop m p q (unat n)"

text \<open>When the copied byte is NUL, the second loop clears the bytes that are left.\<close>

primrec strncpy_loop :: "bytes \<Rightarrow> u64 \<Rightarrow> u64 \<Rightarrow> nat \<Rightarrow> bytes" where
  "strncpy_loop m s t 0 = m"
| "strncpy_loop m s t (Suc n) =
     (let m' = m(s := m t)
      in if m t \<noteq> 0 then strncpy_loop m' (s + 1) (t + 1) n else memset_loop m' (s + 1) 0 n)"

definition strncpy :: "bytes \<Rightarrow> u64 \<Rightarrow> u64 \<Rightarrow> int \<Rightarrow> bytes" where
  "strncpy m s t n = strncpy_loop m s t (nat n)"

primrec safestrcpy_loop :: "bytes \<Rightarrow> u64 \<Rightarrow> u64 \<Rightarrow> nat \<Rightarrow> bytes" where
  "safestrcpy_loop m s t 0 = m(s := 0)"
| "safestrcpy_loop m s t (Suc k) =
     (let m' = m(s := m t)
      in if m t \<noteq> 0 then safestrcpy_loop m' (s + 1) (t + 1) k else m'(s + 1 := 0))"

definition safestrcpy :: "bytes \<Rightarrow> u64 \<Rightarrow> u64 \<Rightarrow> int \<Rightarrow> bytes" where
  "safestrcpy m s t n = (if n \<le> 0 then m else safestrcpy_loop m s t (nat (n - 1)))"

partial_function (option) strlen_from :: "bytes \<Rightarrow> u64 \<Rightarrow> nat \<Rightarrow> nat option" where
  "strlen_from m s n = (if m (s + of_nat n) \<noteq> 0 then strlen_from m s (n + 1) else Some n)"

definition strlen :: "bytes \<Rightarrow> u64 \<Rightarrow> nat option" where
  "strlen m s = strlen_from m s 0"

text \<open>The outer \<open>None\<close> is a search that never meets a NUL; the inner one is the NULL result.\<close>

partial_function (option) strchr :: "bytes \<Rightarrow> u64 \<Rightarrow> u8 \<Rightarrow> u64 option option" where
  "strchr m s c = (if m s = 0 then Some None else if m s = c then Some (Some s) else strchr m (s + 1) c)"

text \<open>
  \<^verbatim>\<open>snstr\<close> narrows 16-bit characters; the count is already decremented when the first loop
  meets the NUL, so the second loop clears one byte less than is left.
\<close>

primrec snstr :: "bytes \<Rightarrow> u64 \<Rightarrow> u64 \<Rightarrow> nat \<Rightarrow> bytes" where
  "snstr m dst src 0 = m"
| "snstr m dst src (Suc len) =
     (if load16 m src \<noteq> 0
      then snstr (m(dst := ucast (load16 m src AND 0xFF))) (dst + 1) (src + 2) len
      else memset_loop m dst 0 len)"

section \<open>NUL-terminated strings\<close>

fun cstr_at :: "bytes \<Rightarrow> u64 \<Rightarrow> u8 list \<Rightarrow> bool" where
  "cstr_at m p [] \<longleftrightarrow> m p = 0"
| "cstr_at m p (x # xs) \<longleftrightarrow> m p = x \<and> x \<noteq> 0 \<and> cstr_at m (p + 1) xs"

lemma cstr_at_unique: "cstr_at m p xs \<Longrightarrow> cstr_at m p ys \<Longrightarrow> xs = ys"
proof (induction xs arbitrary: p ys)
  case Nil
  then show ?case by (cases ys) auto
next
  case (Cons x xs)
  then show ?case by (cases ys) auto
qed

lemma cstr_at_cong:
  "(\<And>a. in_range a p (Suc (length xs)) \<Longrightarrow> m a = m' a) \<Longrightarrow> length xs < 2 ^ 64 \<Longrightarrow>
     cstr_at m p xs = cstr_at m' p xs"
proof (induction xs arbitrary: p)
  case Nil
  then show ?case by (simp add: in_range_def)
next
  case (Cons x xs)
  have "cstr_at m (p + 1) xs = cstr_at m' (p + 1) xs"
    using Cons.prems by (intro Cons.IH) (simp_all add: in_range_Suc)
  with Cons.prems show ?case by (simp add: in_range_def)
qed

lemma strlen_from_cstr: "cstr_at m (p + of_nat n) xs \<Longrightarrow> strlen_from m p n = Some (n + length xs)"
proof (induction xs arbitrary: n)
  case Nil
  then show ?case by (subst strlen_from.simps) simp
next
  case (Cons x xs)
  then have "strlen_from m p (n + 1) = Some (n + 1 + length xs)"
    by (intro Cons.IH) (simp add: ac_simps)
  with Cons.prems show ?case by (subst strlen_from.simps) simp
qed

lemma strlen_cstr: "cstr_at m p xs \<Longrightarrow> strlen m p = Some (length xs)"
  using strlen_from_cstr [of m p 0 xs] by (simp add: strlen_def)

lemma strchr_cstr:
  "cstr_at m p xs \<Longrightarrow> strchr m p c = Some (if c \<in> set xs
     then Some (p + of_nat (length (takeWhile (\<lambda>x. x \<noteq> c) xs))) else None)"
proof (induction xs arbitrary: p)
  case Nil
  then show ?case by (subst strchr.simps) simp
next
  case (Cons x xs)
  have "strchr m p c = (if x = c then Some (Some p) else strchr m (p + 1) c)"
    using Cons.prems by (subst strchr.simps) simp
  with Cons show ?case by (simp add: ac_simps)
qed

text \<open>The comparison is zero exactly when the strings agree in their first \<open>n\<close> characters.\<close>

lemma uint_diff_0: "uint (a :: u8) - uint b = 0 \<longleftrightarrow> a = b"
  by (metis eq_iff_diff_eq_0 word_uint_eq_iff)

lemma strncmp_loop_cstr:
  "cstr_at m p xs \<Longrightarrow> cstr_at m q ys \<Longrightarrow> strncmp_loop m p q n = 0 \<longleftrightarrow> take n xs = take n ys"
proof (induction n arbitrary: p q xs ys)
  case (Suc n)
  show ?case
  proof (cases xs)
    case Nil
    then show ?thesis using Suc.prems uint_diff_0 [of 0 "m q"] by (cases ys) auto
  next
    case (Cons x xs')
    show ?thesis
    proof (cases ys)
      case Nil
      then show ?thesis using Suc.prems Cons uint_diff_0 [of "m p" 0] by auto
    next
      case (Cons y ys')
      have "x = y \<Longrightarrow> strncmp_loop m (p + 1) (q + 1) n = 0 \<longleftrightarrow> take n xs' = take n ys'"
        using Suc.prems Cons \<open>xs = x # xs'\<close> by (intro Suc.IH) auto
      with Suc.prems Cons \<open>xs = x # xs'\<close> show ?thesis
        using uint_diff_0 [of x y] by auto
    qed
  qed
qed simp

text \<open>Copies into a buffer that does not meet the source.\<close>

definition clear_of :: "u64 \<Rightarrow> nat \<Rightarrow> u64 \<Rightarrow> nat \<Rightarrow> bool" where
  "clear_of s n t k \<longleftrightarrow> (\<forall>a. in_range a s n \<longrightarrow> \<not> in_range a t k)"

lemma safestrcpy_loop_other:
  "Suc k < 2 ^ 64 \<Longrightarrow> \<not> in_range a s (Suc k) \<Longrightarrow> safestrcpy_loop m s t k a = m a"
proof (induction k arbitrary: m s t)
  case 0
  then show ?case by (auto simp: in_range_def)
next
  case (Suc k)
  then have "a \<noteq> s" "\<not> in_range a (s + 1) (Suc k)" by (auto simp: in_range_Suc [of "Suc k"])
  moreover have "a \<noteq> s + 1" using calculation(2) by (auto simp: in_range_def)
  ultimately show ?case using Suc by (simp add: Let_def)
qed

lemma safestrcpy_loop_cstr:
  assumes "cstr_at m t xs" and "clear_of s (Suc k) t (Suc (length xs))"
    and "Suc k < 2 ^ 64" and "Suc (length xs) < 2 ^ 64"
  shows "cstr_at (safestrcpy_loop m s t k) s (take k xs)"
  using assms
proof (induction k arbitrary: m s t xs)
  case (Suc k)
  show ?case
  proof (cases xs)
    case Nil
    with Suc.prems show ?thesis by simp
  next
    case (Cons x xs')
    let ?m = "m(s := m t)"
    have st: "\<not> in_range s t (Suc (length xs))"
      using Suc.prems(2) by (auto simp: clear_of_def in_range_def)
    have "cstr_at m (t + 1) xs'" using Suc.prems(1) Cons by simp
    then have c: "cstr_at ?m (t + 1) xs'"
      using st Cons Suc.prems(4) by (subst cstr_at_cong [of _ _ _ m]) (auto simp: in_range_Suc)
    have "clear_of (s + 1) (Suc k) (t + 1) (Suc (length xs'))"
      using Suc.prems Cons by (auto simp: clear_of_def in_range_Suc)
    then have "cstr_at (safestrcpy_loop ?m (s + 1) (t + 1) k) (s + 1) (take k xs')"
      by (rule Suc.IH [OF c]) (use Suc.prems Cons in auto)
    moreover have "safestrcpy_loop ?m (s + 1) (t + 1) k s = m t"
      using Suc.prems in_range_Suc_notin [of "Suc k" s] by (subst safestrcpy_loop_other) auto
    ultimately show ?thesis using Cons Suc.prems(1) by (simp add: Let_def)
  qed
qed (auto simp: clear_of_def)

section \<open>Properties\<close>

text \<open>
  C38: \<^verbatim>\<open>safestrcpy\<close> into a buffer of \<open>n > 0\<close> bytes that does not meet the source leaves a
  NUL-terminated string there, the source cut to \<open>n - 1\<close> characters, and writes only to the buffer.
\<close>

theorem safestrcpy_correct:
  assumes "0 < n" "n < 2 ^ 63" and "cstr_at m t xs" and "clear_of s (nat n) t (Suc (length xs))" and "length xs < 2 ^ 63"
  shows "cstr_at (safestrcpy m s t n) s (take (nat n - 1) xs)
    \<and> strlen (safestrcpy m s t n) s = Some (min (length xs) (nat n - 1))
    \<and> (\<forall>a. in_range a s (nat n) \<or> safestrcpy m s t n a = m a)"
proof -
  obtain k where k: "nat n = Suc k" using assms(1) by (cases "nat n") auto
  have "cstr_at (safestrcpy m s t n) s (take k xs)"
    unfolding safestrcpy_def using assms k safestrcpy_loop_cstr [of m t xs s k] by (auto simp: nat_diff_distrib')
  moreover from this have "strlen (safestrcpy m s t n) s = Some (min (length xs) k)"
    by (simp add: strlen_cstr min.commute)
  moreover have "safestrcpy m s t n a = m a" if "\<not> in_range a s (nat n)" for a
    unfolding safestrcpy_def using that assms k by (auto simp: nat_diff_distrib' safestrcpy_loop_other)
  ultimately show ?thesis using k by auto
qed

theorem safestrcpy_correct_witness:
  "cstr_at (safestrcpy (\<lambda>a. if a = 0 then 97 else if a = 1 then 98 else 0) 0x100 0 2) 0x100 [97]"
proof -
  have "clear_of 0x100 2 0 (Suc (Suc (Suc 0)))"
    unfolding clear_of_def by (intro allI impI, drule in_rangeE) (auto simp: less_2_cases_iff in_range_def)
  then show ?thesis
    using safestrcpy_correct [of 2 "\<lambda>a. if a = 0 then 97 else if a = 1 then 98 else 0" 0 "[97, 98]" "0x100"]
    by simp
qed

end
