(* ===== verification/CList.thy ===== *)
theory CList
  imports Prelude
begin

text \<open>
  The doubly linked lists of \<^verbatim>\<open>src/include/Queue.h\<close>, at the level of their pointers.

  A list head is one pointer cell; an element has a \<^verbatim>\<open>le_next\<close> cell and a \<^verbatim>\<open>le_prev\<close> that holds
  the address of the cell that points at the element (a head cell or the \<^verbatim>\<open>le_next\<close> cell of
  the element before). All heads that link their elements through the same field share one
  \<open>lists\<close> record: \<open>'h\<close> names the heads, \<open>'a\<close> the elements.

  \<open>lists_abs s L\<close> says that the pointers in \<open>s\<close> represent the sequences \<open>L\<close>, one per head,
  with no element on two lists; every macro is shown to compute the obvious operation on sequences.
\<close>

datatype ('h, 'a) cell = AtHead 'h | AtNext 'a

record ('h, 'a) lists =
  lh_first :: "'h \<Rightarrow> 'a option"
  le_next :: "'a \<Rightarrow> 'a option"
  le_prev :: "'a \<Rightarrow> ('h, 'a) cell option"

text \<open>Reading and writing a pointer cell through its address.\<close>

fun cell_get :: "('h, 'a) lists \<Rightarrow> ('h, 'a) cell \<Rightarrow> 'a option" where
  "cell_get s (AtHead h) = lh_first s h"
| "cell_get s (AtNext x) = le_next s x"

fun cell_set :: "('h, 'a) cell \<Rightarrow> 'a option \<Rightarrow> ('h, 'a) lists \<Rightarrow> ('h, 'a) lists" where
  "cell_set (AtHead h) v s = s\<lparr>lh_first := (lh_first s)(h := v)\<rparr>"
| "cell_set (AtNext x) v s = s\<lparr>le_next := (le_next s)(x := v)\<rparr>"

section \<open>The macros\<close>

definition LIST_EMPTY :: "'h \<Rightarrow> ('h, 'a) lists \<Rightarrow> bool" where
  "LIST_EMPTY h s \<longleftrightarrow> lh_first s h = None"

definition LIST_FIRST :: "'h \<Rightarrow> ('h, 'a) lists \<Rightarrow> 'a option" where
  "LIST_FIRST h s = lh_first s h"

definition LIST_NEXT :: "'a \<Rightarrow> ('h, 'a) lists \<Rightarrow> 'a option" where
  "LIST_NEXT x s = le_next s x"

definition LIST_INIT :: "'h \<Rightarrow> ('h, 'a) lists \<Rightarrow> ('h, 'a) lists" where
  "LIST_INIT h s = s\<lparr>lh_first := (lh_first s)(h := None)\<rparr>"

text \<open>The elements \<^verbatim>\<open>LIST_FOREACH\<close> visits from \<open>p\<close> on; it does not end on a cyclic list.\<close>

partial_function (option) LIST_FOREACH :: "'a option \<Rightarrow> ('h, 'a) lists \<Rightarrow> 'a list option" where
  "LIST_FOREACH p s = (case p of None \<Rightarrow> Some []
     | Some x \<Rightarrow> Option.bind (LIST_FOREACH (LIST_NEXT x s) s) (\<lambda>xs. Some (x # xs)))"

definition LIST_INSERT_AFTER :: "'a \<Rightarrow> 'a \<Rightarrow> ('h, 'a) lists \<Rightarrow> ('h, 'a) lists" where
  "LIST_INSERT_AFTER l x s =
     (let s = s\<lparr>le_next := (le_next s)(x := le_next s l)\<rparr>;
          s = (case le_next s l of None \<Rightarrow> s
               | Some y \<Rightarrow> s\<lparr>le_prev := (le_prev s)(y := Some (AtNext x))\<rparr>);
          s = s\<lparr>le_next := (le_next s)(l := Some x)\<rparr>
      in s\<lparr>le_prev := (le_prev s)(x := Some (AtNext l))\<rparr>)"

definition LIST_INSERT_BEFORE :: "'a \<Rightarrow> 'a \<Rightarrow> ('h, 'a) lists \<Rightarrow> ('h, 'a) lists option" where
  "LIST_INSERT_BEFORE l x s =
     (let s = s\<lparr>le_prev := (le_prev s)(x := le_prev s l)\<rparr>;
          s = s\<lparr>le_next := (le_next s)(x := Some l)\<rparr>
      in do { p \<leftarrow> le_prev s l;
              let s = cell_set p (Some x) s;
              Some (s\<lparr>le_prev := (le_prev s)(l := Some (AtNext x))\<rparr>) })"

definition LIST_INSERT_HEAD :: "'h \<Rightarrow> 'a \<Rightarrow> ('h, 'a) lists \<Rightarrow> ('h, 'a) lists" where
  "LIST_INSERT_HEAD h x s =
     (let s = s\<lparr>le_next := (le_next s)(x := LIST_FIRST h s)\<rparr>;
          s = (case LIST_FIRST h s of None \<Rightarrow> s
               | Some y \<Rightarrow> s\<lparr>le_prev := (le_prev s)(y := Some (AtNext x))\<rparr>);
          s = s\<lparr>lh_first := (lh_first s)(h := Some x)\<rparr>
      in s\<lparr>le_prev := (le_prev s)(x := Some (AtHead h))\<rparr>)"

text \<open>
  \<^verbatim>\<open>LIST_INSERT_TAIL\<close> uses the new element's own \<^verbatim>\<open>le_next\<close> as the cursor that walks to the
  last element.
\<close>

partial_function (option) tail_walk :: "'a \<Rightarrow> ('h, 'a) lists \<Rightarrow> ('h, 'a) lists option" where
  "tail_walk x s = (case le_next s x of None \<Rightarrow> None
     | Some y \<Rightarrow> (case le_next s y of None \<Rightarrow> Some s
          | Some z \<Rightarrow> tail_walk x (s\<lparr>le_next := (le_next s)(x := Some z)\<rparr>)))"

definition LIST_INSERT_TAIL :: "'h \<Rightarrow> 'a \<Rightarrow> ('h, 'a) lists \<Rightarrow> ('h, 'a) lists option" where
  "LIST_INSERT_TAIL h x s =
     (if LIST_FIRST h s \<noteq> None then
        do { s \<leftarrow> tail_walk x (s\<lparr>le_next := (le_next s)(x := LIST_FIRST h s)\<rparr>);
             l \<leftarrow> le_next s x;
             let s = s\<lparr>le_next := (le_next s)(l := Some x)\<rparr>;
             let s = s\<lparr>le_prev := (le_prev s)(x := Some (AtNext l))\<rparr>;
             Some (s\<lparr>le_next := (le_next s)(x := None)\<rparr>) }
      else Some (LIST_INSERT_HEAD h x s))"

definition LIST_REMOVE :: "'a \<Rightarrow> ('h, 'a) lists \<Rightarrow> ('h, 'a) lists option" where
  "LIST_REMOVE x s =
     (let s = (case le_next s x of None \<Rightarrow> s
               | Some y \<Rightarrow> s\<lparr>le_prev := (le_prev s)(y := le_prev s x)\<rparr>)
      in do { p \<leftarrow> le_prev s x; Some (cell_set p (le_next s x) s) })"

section \<open>Pointers as sequences\<close>

fun chain :: "('h, 'a) lists \<Rightarrow> ('h, 'a) cell \<Rightarrow> 'a list \<Rightarrow> bool" where
  "chain s c [] \<longleftrightarrow> cell_get s c = None"
| "chain s c (x # xs) \<longleftrightarrow> cell_get s c = Some x \<and> le_prev s x = Some c \<and> chain s (AtNext x) xs"

definition lists_abs :: "('h, 'a) lists \<Rightarrow> ('h \<Rightarrow> 'a list) \<Rightarrow> bool" where
  "lists_abs s L \<longleftrightarrow> (\<forall>h. chain s (AtHead h) (L h) \<and> distinct (L h))
     \<and> (\<forall>h h'. h \<noteq> h' \<longrightarrow> set (L h) \<inter> set (L h') = {})"

definition on_lists :: "('h \<Rightarrow> 'a list) \<Rightarrow> 'a set" where
  "on_lists L = (\<Union>h. set (L h))"

lemma lists_absD:
  assumes "lists_abs s L"
  shows "chain s (AtHead h) (L h)" "distinct (L h)"
    "h \<noteq> h' \<Longrightarrow> set (L h) \<inter> set (L h') = {}"
  using assms by (auto simp: lists_abs_def)

text \<open>A chain only depends on the cells it runs through.\<close>

lemma chain_cong:
  assumes "cell_get s c = cell_get t c"
    and "\<And>x. x \<in> set xs \<Longrightarrow> le_next s x = le_next t x \<and> le_prev s x = le_prev t x"
  shows "chain s c xs = chain t c xs"
  using assms
proof (induction xs arbitrary: c)
  case Nil
  then show ?case by simp
next
  case (Cons x xs)
  then show ?case by (auto simp: Cons.IH [of "AtNext x"])
qed

lemma chain_unique: "chain s c xs \<Longrightarrow> chain s c ys \<Longrightarrow> xs = ys"
proof (induction xs arbitrary: c ys)
  case Nil
  then show ?case by (cases ys) auto
next
  case (Cons x xs)
  then show ?case by (cases ys) auto
qed

lemma lists_abs_unique: "lists_abs s L \<Longrightarrow> lists_abs s L' \<Longrightarrow> L = L'"
  by (rule ext) (metis chain_unique lists_absD(1))

lemma chain_suffix:
  "chain s c (xs @ ys) \<Longrightarrow> chain s (if xs = [] then c else AtNext (last xs)) ys"
proof (induction xs arbitrary: c)
  case Nil
  then show ?case by simp
next
  case (Cons x xs)
  then show ?case using Cons.IH [of "AtNext x"] by (auto split: if_splits)
qed

text \<open>The cell that points at an element of a list, and the rest of the list behind it.\<close>

lemma chain_split:
  assumes "chain s c (xs @ x # ys)"
  shows "le_prev s x = Some (if xs = [] then c else AtNext (last xs))"
    and "chain s (AtNext x) ys" and "cell_get s (if xs = [] then c else AtNext (last xs)) = Some x"
    and "le_next s x = (case ys of [] \<Rightarrow> None | y # _ \<Rightarrow> Some y)"
proof -
  define d where "d = (if xs = [] then c else AtNext (last xs))"
  note d = d_def chain_suffix [OF assms, folded d_def]
  show "le_prev s x = Some (if xs = [] then c else AtNext (last xs))"
    and "chain s (AtNext x) ys" and "cell_get s (if xs = [] then c else AtNext (last xs)) = Some x"
    using d by auto
  show "le_next s x = (case ys of [] \<Rightarrow> None | y # _ \<Rightarrow> Some y)"
    using d by (cases ys) auto
qed

lemma lists_abs_first: "lists_abs s L \<Longrightarrow> LIST_FIRST h s = (case L h of [] \<Rightarrow> None | x # _ \<Rightarrow> Some x)"
  using lists_absD(1) [of s L h] by (cases "L h") (auto simp: LIST_FIRST_def)

lemma lists_abs_empty: "lists_abs s L \<Longrightarrow> LIST_EMPTY h s \<longleftrightarrow> L h = []"
  using lists_abs_first [of s L h] by (auto simp: LIST_EMPTY_def LIST_FIRST_def split: list.splits)

lemma chain_foreach: "chain s c xs \<Longrightarrow> LIST_FOREACH (cell_get s c) s = Some xs"
proof (induction xs arbitrary: c)
  case Nil
  then show ?case by (simp add: LIST_FOREACH.simps)
next
  case (Cons x xs)
  then have "LIST_FOREACH (LIST_NEXT x s) s = Some xs"
    using Cons.IH [of "AtNext x"] by (simp add: LIST_NEXT_def)
  with Cons.prems show ?case by (subst LIST_FOREACH.simps) simp
qed

lemma lists_abs_foreach: "lists_abs s L \<Longrightarrow> LIST_FOREACH (LIST_FIRST h s) s = Some (L h)"
  using chain_foreach [OF lists_absD(1)] by (simp add: LIST_FIRST_def)

section \<open>The macros compute the operations on sequences\<close>

text \<open>
  The common argument: an operation on head \<open>h\<close> only writes cells of \<open>h\<close>, of its elements and
  of the element moved, so the other lists are untouched.
\<close>

lemma lists_abs_upd:
  assumes abs: "lists_abs s L"
    and new: "chain t (AtHead h) ys" "distinct ys"
    and others: "\<And>h'. h' \<noteq> h \<Longrightarrow> lh_first t h' = lh_first s h'"
    and elems: "\<And>h' x. h' \<noteq> h \<Longrightarrow> x \<in> set (L h') \<Longrightarrow> le_next t x = le_next s x \<and> le_prev t x = le_prev s x"
    and disj: "\<And>h'. h' \<noteq> h \<Longrightarrow> set ys \<inter> set (L h') = {}"
  shows "lists_abs t (L(h := ys))"
proof -
  have "chain t (AtHead h') (L h')" if "h' \<noteq> h" for h'
    using chain_cong [of t "AtHead h'" s "L h'"] that others elems lists_absD(1) [OF abs] by simp
  then show ?thesis
    using new disj lists_absD [OF abs] unfolding lists_abs_def by (auto simp: Int_commute)
qed

lemma lists_abs_init:
  assumes "lists_abs s L" shows "lists_abs (LIST_INIT h s) (L(h := []))"
  by (rule lists_abs_upd [OF assms]) (auto simp: LIST_INIT_def)

text \<open>With no element linked anywhere, emptying every head gives the empty lists.\<close>

lemma lists_abs_all_empty: "(\<And>h. lh_first s h = None) \<Longrightarrow> lists_abs s (\<lambda>_. [])"
  by (simp add: lists_abs_def)

lemma lists_abs_insert_head:
  assumes abs: "lists_abs s L" and x: "x \<notin> on_lists L"
  shows "lists_abs (LIST_INSERT_HEAD h x s) (L(h := x # L h))"
proof -
  let ?t = "LIST_INSERT_HEAD h x s"
  have xh: "x \<notin> set (L h')" for h' using x by (auto simp: on_lists_def)
  note ch = lists_absD(1) [OF abs, of h] and di = lists_absD(2) [OF abs, of h]
  have "chain ?t (AtNext x) (L h)"
  proof (cases "L h")
    case Nil
    with ch show ?thesis by (auto simp: LIST_INSERT_HEAD_def LIST_FIRST_def)
  next
    case (Cons y ys)
    have y: "y \<noteq> x" "y \<notin> set ys" "x \<notin> set ys" using xh [of h] di Cons by auto
    have "chain ?t (AtNext y) ys = chain s (AtNext y) ys"
      using ch Cons y by (intro chain_cong) (auto simp: LIST_INSERT_HEAD_def LIST_FIRST_def Let_def)
    then show ?thesis
      using ch Cons y by (auto simp: LIST_INSERT_HEAD_def LIST_FIRST_def Let_def)
  qed
  then have c: "chain ?t (AtHead h) (x # L h)"
    by (auto simp: LIST_INSERT_HEAD_def Let_def LIST_FIRST_def split: option.splits)
  show ?thesis
  proof (rule lists_abs_upd [OF abs c])
    show "distinct (x # L h)" using xh di by simp
    fix h' assume h': "h' \<noteq> h"
    show "lh_first ?t h' = lh_first s h'"
      using h' by (auto simp: LIST_INSERT_HEAD_def Let_def LIST_FIRST_def split: option.splits)
    show "set (x # L h) \<inter> set (L h') = {}"
      using xh lists_absD(3) [OF abs h'] by auto
    fix z assume z: "z \<in> set (L h')"
    have "z \<noteq> x" "LIST_FIRST h s \<noteq> Some z"
      using z xh [of h'] lists_absD(3) [OF abs h'] lists_abs_first [OF abs, of h]
      by (auto split: list.splits)
    then show "le_next ?t z = le_next s z \<and> le_prev ?t z = le_prev s z"
      by (auto simp: LIST_INSERT_HEAD_def Let_def LIST_FIRST_def split: option.splits)
  qed
qed

text \<open>Unlinking an element in the middle of a list.\<close>

lemma chain_drop_mid:
  assumes "chain s c (xs @ x # ys)" and t: "chain t d ys"
    and d: "d = (if xs = [] then c else AtNext (last xs))"
    and "xs \<noteq> [] \<Longrightarrow> cell_get t c = cell_get s c"
    and "\<And>x. x \<in> set (butlast xs) \<Longrightarrow> le_next t x = le_next s x"
    and "\<And>x. x \<in> set xs \<Longrightarrow> le_prev t x = le_prev s x"
  shows "chain t c (xs @ ys)"
  using assms
proof (induction xs arbitrary: c)
  case Nil
  then show ?case by simp
next
  case (Cons z zs)
  show ?case
  proof (cases "zs = []")
    case True
    with Cons.prems show ?thesis by auto
  next
    case False
    have "chain t (AtNext z) (zs @ ys)"
      using Cons.prems False by (intro Cons.IH) auto
    with Cons.prems show ?thesis by auto
  qed
qed

lemma lists_abs_remove:
  assumes abs: "lists_abs s L" and x: "x \<in> set (L h)"
  shows "\<exists>t. LIST_REMOVE x s = Some t \<and> lists_abs t (L(h := remove1 x (L h)))"
proof -
  from x obtain xs ys where L: "L h = xs @ x # ys" and nx: "x \<notin> set xs"
    by (meson split_list_first)
  note ch = lists_absD(1) [OF abs, of h, unfolded L] and di = lists_absD(2) [OF abs, of h, unfolded L]
  note sp = chain_split [OF ch]
  let ?d = "if xs = [] then AtHead h else AtNext (last xs)"
  define t where "t = cell_set ?d (le_next s x)
     (case le_next s x of None \<Rightarrow> s | Some y \<Rightarrow> s\<lparr>le_prev := (le_prev s)(y := Some ?d)\<rparr>)"
  have x_ys: "x \<notin> set ys" and xs_ys: "set xs \<inter> set ys = {}" using di by auto
  have nxt: "le_next s x \<noteq> Some x"
    using sp(4) x_ys by (cases ys) auto
  have rem: "LIST_REMOVE x s = Some t"
    using sp(1) nxt by (auto simp: LIST_REMOVE_def t_def split: option.splits if_splits)
  have lastin: "xs \<noteq> [] \<Longrightarrow> last xs \<in> set xs" by simp
  have "chain t ?d ys"
  proof (cases ys)
    case Nil
    with sp(4) show ?thesis by (simp add: t_def)
  next
    case (Cons y ys')
    have y: "le_next s x = Some y" "y \<notin> set ys'" "y \<notin> set xs"
      using sp(4) Cons di by auto
    have "chain t (AtNext y) ys' = chain s (AtNext y) ys'"
      using y xs_ys lastin Cons by (intro chain_cong) (auto simp: t_def disjoint_iff)
    moreover have "chain s (AtNext y) ys'" using sp(2) Cons by simp
    ultimately show ?thesis using Cons y by (auto simp: t_def)
  qed
  then have c: "chain t (AtHead h) (xs @ ys)"
  proof (rule chain_drop_mid [OF ch _ refl])
    show "cell_get t (AtHead h) = cell_get s (AtHead h)" if "xs \<noteq> []"
      using that by (auto simp: t_def split: option.splits)
    show "le_next t z = le_next s z" if "z \<in> set (butlast xs)" for z
      using that di by (cases xs rule: rev_cases) (auto simp: t_def split: option.splits)
    show "le_prev t z = le_prev s z" if "z \<in> set xs" for z
      using that sp(4) xs_ys by (auto simp: t_def split: option.splits list.splits)
  qed
  have r: "remove1 x (L h) = xs @ ys" using L nx by (simp add: remove1_append)
  have "lists_abs t (L(h := xs @ ys))"
  proof (rule lists_abs_upd [OF abs c])
    show "distinct (xs @ ys)" using di by auto
    fix h' assume h': "h' \<noteq> h"
    note dj = lists_absD(3) [OF abs h']
    show "lh_first t h' = lh_first s h'"
      using h' by (auto simp: t_def split: option.splits)
    show "set (xs @ ys) \<inter> set (L h') = {}" using dj L by auto
    fix z assume z: "z \<in> set (L h')"
    have "z \<notin> set xs" "z \<notin> set ys" using z dj L by auto
    then have "?d \<noteq> AtNext z" "le_next s x \<noteq> Some z"
      using lastin sp(4) by (auto split: list.splits)
    then show "le_next t z = le_next s z \<and> le_prev t z = le_prev s z"
      by (cases ?d; cases "le_next s x") (simp_all add: t_def)
  qed
  with rem r show ?thesis by auto
qed

text \<open>The walk of \<^verbatim>\<open>LIST_INSERT_TAIL\<close> reaches the last element.\<close>

lemma tail_walk_last:
  assumes "chain s (AtNext y) ys" and "x \<noteq> y" "x \<notin> set ys" and "le_next s x = Some y"
  shows "tail_walk x s = Some (s\<lparr>le_next := (le_next s)(x := Some (last (y # ys)))\<rparr>)"
  using assms
proof (induction ys arbitrary: y s)
  case Nil
  then show ?case by (subst tail_walk.simps) (simp add: fun_upd_idem)
next
  case (Cons z ys)
  let ?s = "s\<lparr>le_next := (le_next s)(x := Some z)\<rparr>"
  have "chain ?s (AtNext z) ys = chain s (AtNext z) ys"
    using Cons.prems by (intro chain_cong) auto
  then have "tail_walk x ?s = Some (?s\<lparr>le_next := (le_next ?s)(x := Some (last (z # ys)))\<rparr>)"
    using Cons.prems by (intro Cons.IH) auto
  with Cons.prems show ?case by (subst tail_walk.simps) simp
qed

lemma chain_snoc:
  assumes "chain s c xs" and "xs \<noteq> []" and "x \<notin> set xs" and "distinct xs"
    and "c \<noteq> AtNext x" and "\<And>z. c = AtNext z \<Longrightarrow> z \<notin> set xs"
  shows "chain (s\<lparr>le_next := (le_next s)(last xs := Some x, x := None),
                 le_prev := (le_prev s)(x := Some (AtNext (last xs)))\<rparr>) c (xs @ [x])"
  using assms
proof (induction xs arbitrary: c)
  case Nil
  then show ?case by simp
next
  case (Cons z zs)
  show ?case
  proof (cases "zs = []")
    case True
    with Cons.prems show ?thesis by (cases c) auto
  next
    case False
    then have l: "last (z # zs) = last zs" "last zs \<in> set zs" by auto
    let ?t = "s\<lparr>le_next := (le_next s)(last zs := Some x, x := None),
                 le_prev := (le_prev s)(x := Some (AtNext (last zs)))\<rparr>"
    have "chain ?t (AtNext z) (zs @ [x])"
      using Cons.prems False by (intro Cons.IH) auto
    moreover have "cell_get ?t c = cell_get s c"
      using Cons.prems l False by (cases c) auto
    moreover have "cell_get s c = Some z" "le_prev ?t z = Some c"
      using Cons.prems by auto
    ultimately show ?thesis unfolding l(1) append_Cons chain.simps by metis
  qed
qed

lemma lists_abs_insert_tail:
  assumes abs: "lists_abs s L" and x: "x \<notin> on_lists L"
  shows "\<exists>t. LIST_INSERT_TAIL h x s = Some t \<and> lists_abs t (L(h := L h @ [x]))"
proof (cases "L h")
  case Nil
  then have "LIST_FIRST h s = None" using lists_abs_first [OF abs, of h] by simp
  then show ?thesis
    using lists_abs_insert_head [OF abs x, of h] Nil by (simp add: LIST_INSERT_TAIL_def)
next
  case (Cons y ys)
  have xh: "x \<notin> set (L h')" for h' using x by (auto simp: on_lists_def)
  note ch = lists_absD(1) [OF abs, of h] and di = lists_absD(2) [OF abs, of h]
  have xy: "x \<noteq> y" "x \<notin> set ys" using xh [of h] Cons by auto
  have f: "LIST_FIRST h s = Some y" using lists_abs_first [OF abs, of h] Cons by simp
  let ?s = "s\<lparr>le_next := (le_next s)(x := Some y)\<rparr>"
  let ?l = "last (L h)"
  have l: "?l \<in> set (L h)" "?l \<noteq> x" using Cons xh [of h] by (simp, metis last_in_set list.distinct(1))
  have "chain ?s (AtNext y) ys = chain s (AtNext y) ys"
    using xy by (intro chain_cong) auto
  then have w: "tail_walk x ?s = Some (s\<lparr>le_next := (le_next s)(x := Some ?l)\<rparr>)"
    using tail_walk_last [of ?s y ys x] ch Cons xy by simp
  define t where "t = s\<lparr>le_next := (le_next s)(?l := Some x, x := None),
                       le_prev := (le_prev s)(x := Some (AtNext ?l))\<rparr>"
  have t: "LIST_INSERT_TAIL h x s = Some t"
    using f w l by (simp add: LIST_INSERT_TAIL_def t_def fun_upd_twist [of x])
  have c: "chain t (AtHead h) (L h @ [x])"
    using ch di xh [of h] Cons unfolding t_def by (intro chain_snoc) auto
  have "lists_abs t (L(h := L h @ [x]))"
  proof (rule lists_abs_upd [OF abs c])
    show "distinct (L h @ [x])" using di xh by simp
    fix h' assume h': "h' \<noteq> h"
    note dj = lists_absD(3) [OF abs h']
    show "lh_first t h' = lh_first s h'" by (simp add: t_def)
    show "set (L h @ [x]) \<inter> set (L h') = {}" using dj xh by auto
    show "le_next t z = le_next s z \<and> le_prev t z = le_prev s z" if "z \<in> set (L h')" for z
      using that dj xh [of h'] l by (auto simp: t_def)
  qed
  with t show ?thesis by blast
qed

text \<open>An element taken from one list is on none, so it can be put on any other.\<close>

lemma lists_abs_removed:
  assumes abs: "lists_abs s L" and x: "x \<in> set (L h)"
  shows "x \<notin> on_lists (L(h := remove1 x (L h)))"
proof
  assume "x \<in> on_lists (L(h := remove1 x (L h)))"
  then obtain h' where h': "x \<in> set ((L(h := remove1 x (L h))) h')" by (auto simp: on_lists_def)
  show False
  proof (cases "h' = h")
    case True
    then show False using h' lists_absD(2) [OF abs, of h] by simp
  next
    case False
    then show False using h' x lists_absD(3) [OF abs, of h' h] by auto
  qed
qed

lemma lists_abs_move:
  assumes "lists_abs s L" and "x \<in> set (L h)"
  shows "\<exists>t. LIST_REMOVE x s = Some t
    \<and> lists_abs (LIST_INSERT_HEAD h' x t) ((L(h := remove1 x (L h)))(h' := x # (L(h := remove1 x (L h))) h'))"
  using lists_abs_remove [OF assms] lists_abs_insert_head [OF _ lists_abs_removed [OF assms]] by blast

lemma lists_abs_move_first:
  assumes "lists_abs s L" and "L h = x # xs"
  shows "LIST_FIRST h s = Some x"
    and "\<exists>t. LIST_REMOVE x s = Some t \<and> lists_abs t (L(h := xs)) \<and> x \<notin> on_lists (L(h := xs))"
  using lists_abs_first [OF assms(1), of h] lists_abs_remove [OF assms(1), of x h] lists_abs_removed [OF assms(1), of x h] assms(2)
  by auto

section \<open>Properties\<close>

text \<open>
  C31: the \<^verbatim>\<open>Queue.h\<close> macros, on heads and links that represent the sequences \<open>L\<close>, work as the
  operations on sequences: inserting at the head or at the tail an element that is on no list,
  removing an element wherever it stands, and traversing; each ends, none follows a null pointer,
  and no other list changes.
\<close>

theorem list_macros_refine:
  assumes "lists_abs s L"
  shows "(x \<notin> on_lists L \<longrightarrow> lists_abs (LIST_INSERT_HEAD h x s) (L(h := x # L h)))
    \<and> (x \<notin> on_lists L \<longrightarrow> (\<exists>t. LIST_INSERT_TAIL h x s = Some t \<and> lists_abs t (L(h := L h @ [x]))))
    \<and> (x \<in> set (L h) \<longrightarrow> (\<exists>t. LIST_REMOVE x s = Some t \<and> lists_abs t (L(h := remove1 x (L h)))))
    \<and> LIST_FOREACH (LIST_FIRST h s) s = Some (L h) \<and> (LIST_EMPTY h s \<longleftrightarrow> L h = [])"
  using lists_abs_insert_head [OF assms] lists_abs_insert_tail [OF assms] lists_abs_remove [OF assms]
    lists_abs_foreach [OF assms] lists_abs_empty [OF assms] by blast

theorem list_macros_refine_witness:
  "\<exists>t. LIST_INSERT_TAIL (1 :: nat) (7 :: nat)
      \<lparr>lh_first = (\<lambda>h. if h = 1 then Some 5 else None), le_next = (\<lambda>_. None),
       le_prev = (\<lambda>x. if x = 5 then Some (AtHead 1) else None)\<rparr> = Some t
     \<and> lists_abs t ((\<lambda>h. if h = 1 then [5] else [])(1 := [5, 7]))"
proof -
  let ?s = "\<lparr>lh_first = (\<lambda>h :: nat. if h = 1 then Some (5 :: nat) else None), le_next = (\<lambda>_. None),
       le_prev = (\<lambda>x. if x = 5 then Some (AtHead 1) else None)\<rparr>"
  have "lists_abs ?s (\<lambda>h. if h = 1 then [5] else [])" by (auto simp: lists_abs_def)
  from list_macros_refine [OF this, of 7 1] show ?thesis by (simp add: on_lists_def)
qed

end
