(* ===== verification/Kernel_Types.thy ===== *)
theory Kernel_Types
  imports CList CMem
begin

text \<open>
  The structures of the process side of the kernel and its global variables:
  \<^verbatim>\<open>src/include/{Thread,Process,Signal,Exec,Futex,MemoryConfig}.h\<close>. A pointer into one of the
  static arrays is its index, a NULL pointer is \<open>None\<close>. The kernel runs without its
  spin locks (\<^verbatim>\<open>acquireLock\<close> and \<^verbatim>\<open>releaseLock\<close> return at once) on one hart, whose trap frame
  and current thread are part of the state.
\<close>

section \<open>Constants\<close>

abbreviation (input) PAGE_SIZE :: u64 where "PAGE_SIZE \<equiv> 0x1000"
abbreviation (input) PHYSICAL_ADDRESS_BASE :: u64 where "PHYSICAL_ADDRESS_BASE \<equiv> 0x80000000"
abbreviation (input) PHYSICAL_MEMORY_TOP :: u64 where "PHYSICAL_MEMORY_TOP \<equiv> 0x90000000"
abbreviation (input) PHYSICAL_PAGE_NUM :: nat where "PHYSICAL_PAGE_NUM \<equiv> 65536"
abbreviation (input) PROCESS_TOTAL_NUMBER :: nat where "PROCESS_TOTAL_NUMBER \<equiv> 1024"
abbreviation (input) NOFILE :: nat where "NOFILE \<equiv> 1024"

definition KERNEL_PROCESS_SP_TOP :: u64 where "KERNEL_PROCESS_SP_TOP = push_bit 36 1"
definition PROCESS_SIGNAL_BASE :: u64 where "PROCESS_SIGNAL_BASE = KERNEL_PROCESS_SP_TOP + push_bit 30 1"
definition SOCKET_BUFFER_BASE :: u64 where "SOCKET_BUFFER_BASE = PROCESS_SIGNAL_BASE + push_bit 30 1"
definition SIGNAL_HANDLER_SP_BASE :: u64 where "SIGNAL_HANDLER_SP_BASE = SOCKET_BUFFER_BASE + push_bit 30 1"
definition FILE_SYSTEM_CLUSTER_BITMAP_BASE :: u64 where
  "FILE_SYSTEM_CLUSTER_BITMAP_BASE = KERNEL_PROCESS_SP_TOP - push_bit 30 1"
definition TRAMPOLINE_BASE :: u64 where "TRAMPOLINE_BASE = push_bit 38 1 - push_bit 1 PAGE_SIZE"
definition SIGNAL_TRAMPOLINE_BASE :: u64 where "SIGNAL_TRAMPOLINE_BASE = TRAMPOLINE_BASE - PAGE_SIZE"
definition USER_STACK_TOP :: u64 where "USER_STACK_TOP = SIGNAL_TRAMPOLINE_BASE"
definition USER_STACK_BOTTOM :: u64 where "USER_STACK_BOTTOM = USER_STACK_TOP - push_bit 30 1"
definition USER_BRK_HEAP_TOP :: u64 where "USER_BRK_HEAP_TOP = USER_STACK_BOTTOM"
definition USER_BRK_HEAP_BOTTOM :: u64 where "USER_BRK_HEAP_BOTTOM = USER_BRK_HEAP_TOP - push_bit 32 1"
definition USER_MMAP_HEAP_TOP :: u64 where "USER_MMAP_HEAP_TOP = USER_BRK_HEAP_BOTTOM"
definition USER_MMAP_HEAP_BOTTOM :: u64 where "USER_MMAP_HEAP_BOTTOM = USER_MMAP_HEAP_TOP - push_bit 32 1"

lemmas layout_defs = KERNEL_PROCESS_SP_TOP_def PROCESS_SIGNAL_BASE_def SOCKET_BUFFER_BASE_def
  SIGNAL_HANDLER_SP_BASE_def FILE_SYSTEM_CLUSTER_BITMAP_BASE_def TRAMPOLINE_BASE_def
  SIGNAL_TRAMPOLINE_BASE_def USER_STACK_TOP_def USER_STACK_BOTTOM_def USER_BRK_HEAP_TOP_def
  USER_BRK_HEAP_BOTTOM_def USER_MMAP_HEAP_TOP_def USER_MMAP_HEAP_BOTTOM_def

section \<open>Trap frame\<close>

text \<open>
  A trap frame is a structure of 68 words; a register is the position of its word. The names below
  are those the kernel code uses.
\<close>

type_synonym Trapframe = "nat \<Rightarrow> u64"

abbreviation (input) tf_kernelSatp :: nat where "tf_kernelSatp \<equiv> 0"
abbreviation (input) tf_kernelSp :: nat where "tf_kernelSp \<equiv> 1"
abbreviation (input) tf_trapHandler :: nat where "tf_trapHandler \<equiv> 2"
abbreviation (input) tf_epc :: nat where "tf_epc \<equiv> 3"
abbreviation (input) tf_kernelHartId :: nat where "tf_kernelHartId \<equiv> 4"
abbreviation (input) tf_ra :: nat where "tf_ra \<equiv> 5"
abbreviation (input) tf_sp :: nat where "tf_sp \<equiv> 6"
abbreviation (input) tf_tp :: nat where "tf_tp \<equiv> 8"
abbreviation (input) tf_a0 :: nat where "tf_a0 \<equiv> 14"
abbreviation (input) tf_a1 :: nat where "tf_a1 \<equiv> 15"
abbreviation (input) tf_a2 :: nat where "tf_a2 \<equiv> 16"
abbreviation (input) tf_a3 :: nat where "tf_a3 \<equiv> 17"
abbreviation (input) tf_a4 :: nat where "tf_a4 \<equiv> 18"
abbreviation (input) tf_a5 :: nat where "tf_a5 \<equiv> 19"
abbreviation (input) tf_a6 :: nat where "tf_a6 \<equiv> 20"
abbreviation (input) tf_a7 :: nat where "tf_a7 \<equiv> 21"

section \<open>Threads and processes\<close>

text \<open>The objects a thread sleeps on; \<open>NoChan\<close> is the zero of the field \<^verbatim>\<open>chan\<close>.\<close>

datatype channel = NoChan | ChanProcess nat | ChanPipeRead nat | ChanPipeWrite nat | ChanSocket nat | ChanBuf nat nat

datatype ProcessState = UNUSED | SLEEPING | RUNNABLE | RUNNING | ZOMBIE

text \<open>Only the first word of a \<^verbatim>\<open>SignalSet\<close> is ever read or written by the signal code.\<close>

record SignalContext =
  contextRecover :: Trapframe
  sc_start :: bool
  sc_signal :: u8

record Thread =
  trapframe :: Trapframe
  awakeTime :: u64
  th_id :: u32
  th_state :: ProcessState
  chan :: channel
  reason :: u32
  th_retValue :: u32
  blocked :: u64
  pending :: u64
  processing :: u64
  setChildTid :: u64
  clearChildTid :: u64
  th_process :: nat
  robustHeadPointer :: u64
  killed :: bool

record Process =
  cpu_user :: u64
  cpu_kernel :: u64
  deadChildrenUser :: u64
  deadChildrenKernel :: u64
  p_pgdir :: u64
  processId :: u32
  parentId :: u32
  priority :: u32
  p_state :: ProcessState
  ofile :: "nat \<Rightarrow> nat option"
  p_retValue :: u32
  brkHeapBottom :: u64
  mmapHeapBottom :: u64
  execFile :: "nat option"
  cwd :: "nat option"
  threadCount :: int
  fd_soft :: u64
  fd_hard :: u64
  segmentMapHead :: "nat option"

record ProcessSegmentMap =
  sourceFile :: "nat option"
  psm_va :: u64
  fileOffset :: u64
  psm_len :: u32
  psm_flag :: u32
  psm_next :: "nat option"

record FutexQueue =
  fq_addr :: u64
  fq_thread :: nat
  fq_valid :: bool

datatype free_used = Free | Used

text \<open>The heads that link signal contexts: the free list, and \<^verbatim>\<open>waitingSignal\<close> of each thread.\<close>

datatype sig_head = SigFree | Waiting nat

text \<open>
  The globals of \<^verbatim>\<open>Thread.c\<close>, \<^verbatim>\<open>Process.c\<close>, \<^verbatim>\<open>Yield.c\<close>, \<^verbatim>\<open>Signal.c\<close>, \<^verbatim>\<open>Futex.c\<close> and the
  segment maps of \<^verbatim>\<open>Exec.c\<close>, with the clock \<^verbatim>\<open>r_time()\<close> reads.
\<close>

record kproc =
  threads :: "nat \<Rightarrow> Thread"
  thread_links :: "(free_used, nat) lists"
  sched_links :: "(nat, nat) lists"
  currentThread :: "nat option"
  nextThreadId :: u32
  processes :: "nat \<Rightarrow> Process"
  process_links :: "(free_used, nat) lists"
  nextProcessId :: u32
  hartTrapframe :: Trapframe
  processTimeCount :: int
  processBelongList :: nat
  signalContexts :: "nat \<Rightarrow> SignalContext"
  signal_links :: "(sig_head, nat) lists"
  futexQueue :: "FutexQueue list"
  segmentMaps :: "nat \<Rightarrow> ProcessSegmentMap"
  segmentMapBitmap :: "u64 list"
  r_time :: u64

abbreviation upd_thread :: "nat \<Rightarrow> (Thread \<Rightarrow> Thread) \<Rightarrow> 'z kproc_scheme \<Rightarrow> 'z kproc_scheme" where
  "upd_thread th f s \<equiv> s\<lparr>threads := (threads s)(th := f (threads s th))\<rparr>"

abbreviation upd_process :: "nat \<Rightarrow> (Process \<Rightarrow> Process) \<Rightarrow> 'z kproc_scheme \<Rightarrow> 'z kproc_scheme" where
  "upd_process p f s \<equiv> s\<lparr>processes := (processes s)(p := f (processes s p))\<rparr>"

definition myThread :: "'z kproc_scheme \<Rightarrow> nat option" where
  "myThread s = currentThread s"

definition myProcess :: "'z kproc_scheme \<Rightarrow> nat option" where
  "myProcess s = (case myThread s of None \<Rightarrow> None | Some th \<Rightarrow> Some (th_process (threads s th)))"

section \<open>Initial contents\<close>

text \<open>The zeroed structures of the static arrays.\<close>

definition zero_thread :: Thread where
  "zero_thread = \<lparr>trapframe = (\<lambda>_. 0), awakeTime = 0, th_id = 0, th_state = UNUSED, chan = NoChan, reason = 0,
     th_retValue = 0, blocked = 0, pending = 0, processing = 0, setChildTid = 0, clearChildTid = 0,
     th_process = 0, robustHeadPointer = 0, killed = False\<rparr>"

definition zero_process :: Process where
  "zero_process = \<lparr>cpu_user = 0, cpu_kernel = 0, deadChildrenUser = 0, deadChildrenKernel = 0, p_pgdir = 0,
     processId = 0, parentId = 0, priority = 0, p_state = UNUSED, ofile = (\<lambda>_. None), p_retValue = 0,
     brkHeapBottom = 0, mmapHeapBottom = 0, execFile = None, cwd = None, threadCount = 0,
     fd_soft = 0, fd_hard = 0, segmentMapHead = None\<rparr>"

definition zero_psm :: ProcessSegmentMap where
  "zero_psm = \<lparr>sourceFile = None, psm_va = 0, fileOffset = 0, psm_len = 0, psm_flag = 0, psm_next = None\<rparr>"

definition zero_sc :: SignalContext where
  "zero_sc = \<lparr>contextRecover = (\<lambda>_. 0), sc_start = False, sc_signal = 0\<rparr>"

definition zero_fq :: FutexQueue where
  "zero_fq = \<lparr>fq_addr = 0, fq_thread = 0, fq_valid = False\<rparr>"

definition zero_lists :: "('h, 'a) lists" where
  "zero_lists = \<lparr>lh_first = (\<lambda>_. None), le_next = (\<lambda>_. None), le_prev = (\<lambda>_. None)\<rparr>"

abbreviation (input) FUTEX_COUNT :: nat where "FUTEX_COUNT \<equiv> 64"

definition zero_kproc :: kproc where
  "zero_kproc = \<lparr>threads = (\<lambda>_. zero_thread), thread_links = zero_lists, sched_links = zero_lists,
     currentThread = None, nextThreadId = 0, processes = (\<lambda>_. zero_process), process_links = zero_lists,
     nextProcessId = 0, hartTrapframe = (\<lambda>_. 0), processTimeCount = 0, processBelongList = 0,
     signalContexts = (\<lambda>_. zero_sc), signal_links = zero_lists, futexQueue = replicate FUTEX_COUNT zero_fq,
     segmentMaps = (\<lambda>_. zero_psm), segmentMapBitmap = replicate 16 0, r_time = 0\<rparr>"

lemma lists_abs_zero [simp]: "lists_abs zero_lists (\<lambda>_. [])"
  by (simp add: lists_abs_def zero_lists_def)

end
