(* ===== verification/Bitmap.thy ===== *)
theory Bitmap
  imports Prelude
begin

text \<open>
  The bitmaps the kernel uses to hand out slots of a fixed table. \<^verbatim>\<open>LOW_BIT64\<close> of
  \<^verbatim>\<open>src/include/Type.h\<close> finds the lowest set bit of a word by halving; the loop
  over the words of a bitmap that marks the first free bit, and the masking that frees a bit, are
  written out in \<^verbatim>\<open>pipeAlloc\<close>, \<^verbatim>\<open>inodeAlloc\<close>, \<^verbatim>\<open>segmentMapAlloc\<close> and \<^verbatim>\<open>alloc_clus\<close>.
  The set of used slots is the abstract state; the locale \<open>slot_pool\<close> is the contract the users of
  such a table rely on.
\<close>

section \<open>LOW_BIT64\<close>

text \<open>One of the six tests of the function, with the width it halves to.\<close>

definition low_step :: "nat \<Rightarrow> u64 \<times> int \<Rightarrow> u64 \<times> int" where
  "low_step k = (\<lambda>(x, res).
     if x AND (push_bit k 1 - 1) = 0 then (drop_bit k x, res + int k) else (x, res))"

definition LOW_BIT64 :: "u64 \<Rightarrow> int" where
  "LOW_BIT64 x =
     (let (x, res) = low_step 1 (low_step 2 (low_step 4 (low_step 8 (low_step 16 (low_step 32 (x, 0))))))
      in if x \<noteq> 0 then res else - 1)"

section \<open>A bitmap of 64-bit words\<close>

fun bitmap_alloc :: "u64 list \<Rightarrow> nat \<Rightarrow> (nat \<times> u64 list) option" where
  "bitmap_alloc [] i = None"
| "bitmap_alloc (w # ws) i =
     (if NOT w \<noteq> 0 then
        let b = nat (LOW_BIT64 (NOT w))
        in Some (push_bit 6 i OR b, (w OR push_bit b 1) # ws)
      else case bitmap_alloc ws (Suc i) of
             None \<Rightarrow> None
           | Some (n, ws') \<Rightarrow> Some (n, w # ws'))"

definition bitmap_free :: "nat \<Rightarrow> u64 list \<Rightarrow> u64 list option" where
  "bitmap_free off ws =
     (if drop_bit 6 off < length ws
      then Some (ws[drop_bit 6 off := ws ! drop_bit 6 off AND NOT (push_bit (off AND 63) 1)])
      else None)"

definition bitmap_test :: "u64 list \<Rightarrow> nat \<Rightarrow> bool" where
  "bitmap_test ws off = bit (ws ! drop_bit 6 off) (off AND 63)"

text \<open>The slots a bitmap marks as taken.\<close>

definition bm_used :: "u64 list \<Rightarrow> nat set" where
  "bm_used ws = {n. n div 64 < length ws \<and> bit (ws ! (n div 64)) (n mod 64)}"

section \<open>The lowest set bit\<close>

definition lowest :: "u64 \<Rightarrow> nat" where
  "lowest x = (LEAST n. bit x n)"

lemma lowest_bit: "x \<noteq> 0 \<Longrightarrow> bit x (lowest x)"
  unfolding lowest_def by (metis LeastI_ex word_nonzero_bit)

lemma lowest_le: "bit x n \<Longrightarrow> lowest x \<le> n"
  unfolding lowest_def by (rule Least_le)

lemma lowest_eqI: "bit x n \<Longrightarrow> (\<And>m. m < n \<Longrightarrow> \<not> bit x m) \<Longrightarrow> lowest x = n"
  unfolding lowest_def by (rule Least_equality) (auto simp: not_less [symmetric])

lemma lowest_less_64: "x \<noteq> 0 \<Longrightarrow> lowest x < 64"
  using bit_word_bound [OF lowest_bit] by simp

text \<open>A test of the function keeps the sum of the position found and the rest to search.\<close>

lemma low_step_lowest:
  assumes x: "x \<noteq> 0" and st: "low_step k (x, r) = (x', r')"
  shows "x' \<noteq> 0" and "r' + int (lowest x') = r + int (lowest x)"
    and "lowest x < 2 * k \<Longrightarrow> lowest x' < k"
proof -
  have m: "push_bit k 1 - 1 = (mask k :: u64)"
    by (simp add: mask_eq_exp_minus_1 push_bit_eq_mult)
  have z: "x AND (push_bit k 1 - 1) = 0 \<longleftrightarrow> k \<le> lowest x"
    unfolding m mask_zero_iff
    by (meson lowest_bit [OF x] lowest_le le_less_trans not_le)
  have sh: "lowest (drop_bit k x) = lowest x - k" if "k \<le> lowest x"
  proof (rule lowest_eqI)
    show "bit (drop_bit k x) (lowest x - k)"
      using that lowest_bit [OF x] by (simp add: bit_drop_bit_eq)
    show "\<not> bit (drop_bit k x) m" if "m < lowest x - k" for m
      using that lowest_le [of x "k + m"] by (auto simp: bit_drop_bit_eq)
  qed
  have nz: "drop_bit k x \<noteq> 0" if "k \<le> lowest x"
    using that lowest_bit [OF x] word_nonzero_bit [of "drop_bit k x"]
    by (auto simp: bit_drop_bit_eq intro!: exI [of _ "lowest x - k"])
  show "x' \<noteq> 0" and "r' + int (lowest x') = r + int (lowest x)"
    and "lowest x < 2 * k \<Longrightarrow> lowest x' < k"
    using st z sh nz x by (auto simp: low_step_def split: if_splits)
qed

lemma LOW_BIT64_lowest: "x \<noteq> 0 \<Longrightarrow> LOW_BIT64 x = int (lowest x)"
proof -
  assume x: "x \<noteq> 0"
  obtain x1 r1 where 1: "low_step 32 (x, 0) = (x1, r1)" by (cases "low_step 32 (x, 0)")
  obtain x2 r2 where 2: "low_step 16 (x1, r1) = (x2, r2)" by (cases "low_step 16 (x1, r1)")
  obtain x3 r3 where 3: "low_step 8 (x2, r2) = (x3, r3)" by (cases "low_step 8 (x2, r2)")
  obtain x4 r4 where 4: "low_step 4 (x3, r3) = (x4, r4)" by (cases "low_step 4 (x3, r3)")
  obtain x5 r5 where 5: "low_step 2 (x4, r4) = (x5, r5)" by (cases "low_step 2 (x4, r4)")
  obtain x6 r6 where 6: "low_step 1 (x5, r5) = (x6, r6)" by (cases "low_step 1 (x5, r5)")
  note s1 = low_step_lowest [OF x 1]
  note s2 = low_step_lowest [OF s1(1) 2]
  note s3 = low_step_lowest [OF s2(1) 3]
  note s4 = low_step_lowest [OF s3(1) 4]
  note s5 = low_step_lowest [OF s4(1) 5]
  note s6 = low_step_lowest [OF s5(1) 6]
  have "lowest x6 < 1"
    using lowest_less_64 [OF x] s1(3) s2(3) s3(3) s4(3) s5(3) s6(3) by simp
  then have "r6 = int (lowest x)"
    using s1(2) s2(2) s3(2) s4(2) s5(2) s6(2) by linarith
  then show ?thesis
    unfolding LOW_BIT64_def 1 2 3 4 5 6 using s6(1) by simp
qed

section \<open>Allocation and release of slots\<close>

lemma slot_split: "push_bit 6 i OR b = 64 * i + b" if "b < 64" for i b :: nat
  using nat_or_disjoint [of b 6 i] that by simp

lemma drop_bit_6: "drop_bit 6 (n :: nat) = n div 64"
  by (simp add: drop_bit_eq_div)

lemma and_63: "(n :: nat) AND 63 = n mod 64"
  using take_bit_eq_mod [of 6 n] by (simp add: take_bit_eq_mask mask_eq_exp_minus_1)

lemmas slot_simps = slot_split drop_bit_6 and_63

lemma bm_used_Nil [simp]: "bm_used [] = {}"
  by (simp add: bm_used_def)

lemma bm_used_Cons:
  "bm_used (w # ws) = {n. n < 64 \<and> bit w n} \<union> (+) 64 ` bm_used ws" (is "?L = ?R")
proof (rule set_eqI)
  fix n
  show "n \<in> ?L \<longleftrightarrow> n \<in> ?R"
  proof (cases "n < 64")
    case True
    then show ?thesis by (auto simp: bm_used_def)
  next
    case False
    then obtain m where m: "n = 64 + m" by (metis le_iff_add not_less)
    have "n div 64 = Suc (m div 64)" "n mod 64 = m mod 64" "\<not> bit w n"
      using m bit_word_bound [of w n] by auto
    then show ?thesis using m by (auto simp: bm_used_def)
  qed
qed

lemma bm_used_finite: "finite (bm_used ws)"
  by (induction ws) (auto simp: bm_used_Cons)

lemma bm_used_bound: "n \<in> bm_used ws \<Longrightarrow> n < 64 * length ws"
  by (auto simp: bm_used_def)

lemma bitmap_test_used: "off div 64 < length ws \<Longrightarrow> bitmap_test ws off \<longleftrightarrow> off \<in> bm_used ws"
  by (simp add: bitmap_test_def bm_used_def slot_simps)

text \<open>The word the loop stops at has its lowest clear bit set, and no other bit changes.\<close>

lemma word_alloc:
  fixes w :: u64
  assumes "NOT w \<noteq> 0" and b: "b = nat (LOW_BIT64 (NOT w))"
  shows "b < 64" and "\<not> bit w b" and "\<And>m. m < b \<Longrightarrow> bit w m"
    and "bit (w OR push_bit b 1) n \<longleftrightarrow> n < 64 \<and> (bit w n \<or> n = b)"
proof -
  have bl: "b = lowest (NOT w)"
    using assms by (simp add: LOW_BIT64_lowest)
  show b64: "b < 64" using lowest_less_64 [OF assms(1)] bl by simp
  show "\<not> bit w b" using lowest_bit [OF assms(1)] bl by (simp add: bit_not_iff)
  show "bit w m" if "m < b" for m
    using that lowest_le [of "NOT w" m] b64 bl by (auto simp: bit_not_iff)
  show "bit (w OR push_bit b 1) n \<longleftrightarrow> n < 64 \<and> (bit w n \<or> n = b)"
    using b64 bit_word_bound [of w n] by (auto simp: bit_simps)
qed

lemma bitmap_alloc_Some:
  assumes "bitmap_alloc ws i = Some (n, ws')"
  shows "\<exists>m. n = 64 * i + m \<and> m < 64 * length ws \<and> m \<notin> bm_used ws
       \<and> bm_used ws' = insert m (bm_used ws) \<and> length ws' = length ws
       \<and> (\<forall>k < m. k \<in> bm_used ws)"
  using assms
proof (induction ws arbitrary: i n ws')
  case Nil
  then show ?case by simp
next
  case (Cons w ws)
  show ?case
  proof (cases "NOT w \<noteq> 0")
    case True
    define b where "b = nat (LOW_BIT64 (NOT w))"
    note wa = word_alloc [OF True b_def]
    have n: "n = 64 * i + b" and ws': "ws' = (w OR push_bit b 1) # ws"
      using Cons.prems True wa(1) by (auto simp: Let_def b_def [symmetric] slot_split)
    have "bm_used ws' = insert b (bm_used (w # ws))"
      unfolding ws' bm_used_Cons wa(4) using wa(1) by auto
    moreover have "b \<notin> bm_used (w # ws)"
      using wa(1,2) by (auto simp: bm_used_Cons)
    moreover have "\<forall>k < b. k \<in> bm_used (w # ws)"
      using wa(1,3) by (auto simp: bm_used_Cons)
    ultimately show ?thesis
      using n ws' wa(1) by (intro exI [of _ b]) auto
  next
    case False
    then obtain n0 ws0 where rec: "bitmap_alloc ws (Suc i) = Some (n0, ws0)"
      and n: "n = n0" "ws' = w # ws0"
      using Cons.prems by (auto split: option.splits)
    from Cons.IH [OF rec] obtain m where m: "n0 = 64 * Suc i + m" "m < 64 * length ws"
      "m \<notin> bm_used ws" "bm_used ws0 = insert m (bm_used ws)" "length ws0 = length ws"
      "\<forall>k < m. k \<in> bm_used ws" by blast
    have full: "bit w k" if "k < 64" for k
    proof -
      have "\<not> bit (NOT w) k" using False by simp
      then show ?thesis using that by (simp add: bit_not_iff)
    qed
    have "k \<in> bm_used (w # ws)" if k: "k < 64 + m" for k
    proof (cases "k < 64")
      case True
      then show ?thesis by (simp add: bm_used_Cons full)
    next
      case False
      then have "k - 64 \<in> bm_used ws" using k m(6) by auto
      moreover have "k = 64 + (k - 64)" using False by simp
      ultimately show ?thesis unfolding bm_used_Cons by blast
    qed
    then show ?thesis
      using m n by (intro exI [of _ "64 + m"]) (auto simp: bm_used_Cons)
  qed
qed

lemma bitmap_alloc_None:
  "bitmap_alloc ws i = None \<longleftrightarrow> (\<forall>n < 64 * length ws. n \<in> bm_used ws)"
proof (induction ws arbitrary: i)
  case Nil
  then show ?case by simp
next
  case (Cons w ws)
  show ?case
  proof (cases "NOT w \<noteq> 0")
    case True
    note wa = word_alloc [OF True refl]
    have "nat (LOW_BIT64 (NOT w)) \<notin> bm_used (w # ws)"
      using wa(1,2) by (auto simp: bm_used_Cons)
    moreover have "nat (LOW_BIT64 (NOT w)) < 64 * length (w # ws)" using wa(1) by simp
    ultimately show ?thesis using True by (auto simp: Let_def)
  next
    case False
    then have full: "bit w k" if "k < 64" for k
      using that bit_not_iff [of w k] by simp
    have "(\<forall>n < 64 * length (w # ws). n \<in> bm_used (w # ws)) \<longleftrightarrow> (\<forall>n < 64 * length ws. n \<in> bm_used ws)"
      (is "?A \<longleftrightarrow> ?B")
    proof
      assume A: ?A
      show ?B
      proof (intro allI impI)
        fix n assume "n < 64 * length ws"
        then have "64 + n \<in> bm_used (w # ws)" using A by simp
        then show "n \<in> bm_used ws" by (auto simp: bm_used_Cons)
      qed
    next
      assume B: ?B
      show ?A
      proof (intro allI impI)
        fix n assume n: "n < 64 * length (w # ws)"
        show "n \<in> bm_used (w # ws)"
        proof (cases "n < 64")
          case True
          then show ?thesis by (simp add: bm_used_Cons full)
        next
          case nlt: False
          then have "n - 64 \<in> bm_used ws" using B n by auto
          then have "64 + (n - 64) \<in> bm_used (w # ws)" unfolding bm_used_Cons by blast
          then show ?thesis using nlt by simp
        qed
      qed
    qed
    then show ?thesis using False Cons.IH [of "Suc i"] by (auto split: option.splits)
  qed
qed

lemma bitmap_free_Some:
  assumes "off < 64 * length ws"
  shows "\<exists>ws'. bitmap_free off ws = Some ws' \<and> bm_used ws' = bm_used ws - {off}
           \<and> length ws' = length ws"
proof -
  have q: "off div 64 < length ws" using assms by auto
  have e: "n = off" if "n div 64 = off div 64" "n mod 64 = off mod 64" for n
    using that by (metis div_mult_mod_eq)
  show ?thesis
    using q by (auto simp: bitmap_free_def slot_simps bm_used_def nth_list_update bit_simps
        intro: e dest: bit_word_bound split: if_splits)
qed

section \<open>The contract of a slot table\<close>

text \<open>
  What the kernel expects of a table of \<open>cap\<close> slots: a slot handed out was free, it is now taken
  and nothing else changes; the table only refuses when every slot is taken; a slot given
  back is free again.
\<close>

locale slot_pool =
  fixes used :: "'s \<Rightarrow> nat set"
    and cap :: nat
    and alloc :: "'s \<Rightarrow> (nat \<times> 's) option"
    and release :: "nat \<Rightarrow> 's \<Rightarrow> 's option"
    and ok :: "'s \<Rightarrow> bool"
  assumes used_bound: "ok s \<Longrightarrow> used s \<subseteq> {..<cap}"
    and alloc_fresh: "ok s \<Longrightarrow> alloc s = Some (n, s') \<Longrightarrow> n < cap \<and> n \<notin> used s"
    and alloc_used: "ok s \<Longrightarrow> alloc s = Some (n, s') \<Longrightarrow> used s' = insert n (used s) \<and> ok s'"
    and alloc_full: "ok s \<Longrightarrow> alloc s = None \<Longrightarrow> used s = {..<cap}"
    and release_used: "ok s \<Longrightarrow> n \<in> used s \<Longrightarrow>
        \<exists>s'. release n s = Some s' \<and> used s' = used s - {n} \<and> ok s'"
begin

lemma alloc_succeeds:
  assumes "ok s" and "card (used s) < cap"
  shows "\<exists>n s'. alloc s = Some (n, s')"
proof (cases "alloc s")
  case None
  with assms alloc_full [of s] show ?thesis by simp
next
  case (Some r)
  then show ?thesis by (cases r) auto
qed

lemma card_used: "ok s \<Longrightarrow> alloc s = Some (n, s') \<Longrightarrow> card (used s') = Suc (card (used s))"
  using used_bound [of s] alloc_fresh [of s n s'] alloc_used [of s n s']
  by (simp add: finite_subset [of "used s" "{..<cap}"])

text \<open>Several requests in a row.\<close>

primrec alloc_many :: "nat \<Rightarrow> 's \<Rightarrow> (nat list \<times> 's) option" where
  "alloc_many 0 s = Some ([], s)"
| "alloc_many (Suc k) s =
     (case alloc s of None \<Rightarrow> None
      | Some (n, s') \<Rightarrow> (case alloc_many k s' of None \<Rightarrow> None
                       | Some (ns, s'') \<Rightarrow> Some (n # ns, s'')))"

lemma alloc_many_distinct:
  assumes "ok s" and "alloc_many k s = Some (ns, s')"
  shows "distinct ns \<and> set ns \<inter> used s = {} \<and> used s' = used s \<union> set ns \<and> length ns = k \<and> ok s'"
  using assms
proof (induction k arbitrary: s ns)
  case 0
  then show ?case by simp
next
  case (Suc k)
  from Suc.prems obtain n s1 ms where 1: "alloc s = Some (n, s1)" "alloc_many k s1 = Some (ms, s')"
    "ns = n # ms" by (auto split: option.splits prod.splits)
  note f = alloc_fresh [OF Suc.prems(1) 1(1)] alloc_used [OF Suc.prems(1) 1(1)]
  from Suc.IH [of s1 ms] f 1 show ?case by auto
qed

lemma alloc_many_succeeds:
  assumes "ok s" and "card (used s) + k \<le> cap"
  shows "\<exists>ns s'. alloc_many k s = Some (ns, s')"
  using assms
proof (induction k arbitrary: s)
  case 0
  then show ?case by simp
next
  case (Suc k)
  then obtain n s1 where 1: "alloc s = Some (n, s1)"
    using alloc_succeeds [of s] by auto
  have "card (used s1) + k \<le> cap"
    using card_used [OF Suc.prems(1) 1] Suc.prems(2) by simp
  then obtain ns s' where "alloc_many k s1 = Some (ns, s')"
    using Suc.IH [of s1] alloc_used [OF Suc.prems(1) 1] by blast
  then show ?case using 1 by simp
qed

lemma release_alloc_reusable:
  assumes "ok s" and "n \<in> used s"
  shows "\<exists>s1 m s2. release n s = Some s1 \<and> alloc s1 = Some (m, s2)"
proof -
  from release_used [OF assms] obtain s1 where s1: "release n s = Some s1"
    "used s1 = used s - {n}" "ok s1" by blast
  have "used s1 \<noteq> {..<cap}" using s1(2) used_bound [OF assms(1)] assms(2) by blast
  then obtain r where "alloc s1 = Some r" using alloc_full [OF s1(3)] by (cases "alloc s1") auto
  then show ?thesis using s1(1) by (cases r) auto
qed

end

text \<open>A bitmap of a fixed number of words is such a table.\<close>

lemma bitmap_slot_pool:
  "slot_pool bm_used (64 * k) (\<lambda>ws. bitmap_alloc ws 0) bitmap_free (\<lambda>ws. length ws = k)"
proof
  fix s s' :: "u64 list" and n
  assume ok: "length s = k"
  show "bm_used s \<subseteq> {..<64 * k}"
    using ok by (auto dest: bm_used_bound)
  show "n < 64 * k \<and> n \<notin> bm_used s" if "bitmap_alloc s 0 = Some (n, s')"
    using bitmap_alloc_Some [OF that] ok by auto
  show "bm_used s' = insert n (bm_used s) \<and> length s' = k" if "bitmap_alloc s 0 = Some (n, s')"
    using bitmap_alloc_Some [OF that] ok by auto
  show "bm_used s = {..<64 * k}" if "bitmap_alloc s 0 = None"
    using that ok bm_used_bound [of _ s] by (auto simp: bitmap_alloc_None)
  show "\<exists>s'. bitmap_free n s = Some s' \<and> bm_used s' = bm_used s - {n} \<and> length s' = k"
    if "n \<in> bm_used s"
    using bitmap_free_Some [of n s] bm_used_bound [OF that] ok by auto
qed

text \<open>So is a kernel state that keeps such a bitmap.\<close>

lemma slot_pool_lift:
  assumes "\<And>s n s'. alloc s = Some (n, s') \<Longrightarrow> bitmap_alloc (bm s) 0 = Some (n, bm s')"
    and "\<And>s. alloc s = None \<Longrightarrow> bitmap_alloc (bm s) 0 = None"
    and "\<And>s n w. bitmap_free n (bm s) = Some w \<Longrightarrow> \<exists>s'. release n s = Some s' \<and> bm s' = w"
  shows "slot_pool (\<lambda>s. bm_used (bm s)) (64 * k) alloc release (\<lambda>s. length (bm s) = k)"
proof
  fix s s' n
  assume ok: "length (bm s) = k"
  note B = bitmap_slot_pool [of k]
  show "bm_used (bm s) \<subseteq> {..<64 * k}" by (rule slot_pool.used_bound [OF B ok])
  show "n < 64 * k \<and> n \<notin> bm_used (bm s)" if "alloc s = Some (n, s')"
    by (rule slot_pool.alloc_fresh [OF B ok assms(1) [OF that]])
  show "bm_used (bm s') = insert n (bm_used (bm s)) \<and> length (bm s') = k" if "alloc s = Some (n, s')"
    by (rule slot_pool.alloc_used [OF B ok assms(1) [OF that]])
  show "bm_used (bm s) = {..<64 * k}" if "alloc s = None"
    by (rule slot_pool.alloc_full [OF B ok assms(2) [OF that]])
  show "\<exists>s'. release n s = Some s' \<and> bm_used (bm s') = bm_used (bm s) - {n} \<and> length (bm s') = k"
    if "n \<in> bm_used (bm s)"
    using slot_pool.release_used [OF B ok that] assms(3) by metis
qed

section \<open>Properties\<close>

text \<open>
  \<^verbatim>\<open>LOW_BIT64\<close>, the six-step binary search the kernel's bitmaps use, returns the position of
  the least significant set bit of every non-zero word.
\<close>

theorem LOW_BIT64_correct: "x \<noteq> 0 \<Longrightarrow> LOW_BIT64 x = int (LEAST n. bit x n)"
  using LOW_BIT64_lowest [of x] by (simp add: lowest_def)

theorem LOW_BIT64_correct_witness: "(0x50 :: u64) \<noteq> 0 \<and> LOW_BIT64 0x50 = int (LEAST n. bit (0x50 :: u64) n)"
  using LOW_BIT64_correct [of "0x50"] by simp

text \<open>
  The search loop of the kernel's bitmaps hands out the least free slot and marks exactly that
  slot, and it fails only when every slot is taken.
\<close>

theorem bitmap_alloc_correct:
  "case bitmap_alloc ws 0 of
     None \<Rightarrow> bm_used ws = {..<64 * length ws}
   | Some (n, ws') \<Rightarrow> n < 64 * length ws \<and> n \<notin> bm_used ws \<and> {..<n} \<subseteq> bm_used ws
       \<and> bm_used ws' = insert n (bm_used ws) \<and> length ws' = length ws"
proof (cases "bitmap_alloc ws 0")
  case None
  then show ?thesis using bitmap_alloc_None [of ws 0] bm_used_bound by auto
next
  case (Some r)
  then show ?thesis using bitmap_alloc_Some [of ws 0 "fst r" "snd r"] by (cases r) auto
qed

end
