(* ===== verification/Sched.thy ===== *)
theory Sched
  imports Kernel_Types Bitmap
begin

text \<open>
  Identities, sleeping and waking of threads: the id generators, \<^verbatim>\<open>tid2Thread\<close>, \<^verbatim>\<open>pid2Process\<close>,
  \<^verbatim>\<open>sleep\<close> and \<^verbatim>\<open>wakeup\<close> of \<^verbatim>\<open>src/kernel/yield/{Thread,Process}.c\<close>, and the interrupt
  nesting of \<^verbatim>\<open>src/kernel/lock/Interrput.c\<close>.
\<close>

section \<open>Identities\<close>

text \<open>\<^verbatim>\<open>(++nextId << (1 + LOG_PROCESS_NUM)) | index\<close> in 32 bits.\<close>

definition make_id :: "u32 \<Rightarrow> nat \<Rightarrow> u32" where
  "make_id next idx = push_bit 11 next OR of_nat idx"

definition PROCESS_OFFSET :: "u32 \<Rightarrow> nat" where
  "PROCESS_OFFSET i = unat (i AND 0x3FF)"

definition generateThreadId :: "nat \<Rightarrow> 'z kproc_scheme \<Rightarrow> u32 \<times> 'z kproc_scheme" where
  "generateThreadId th s =
     (let s = s\<lparr>nextThreadId := nextThreadId s + 1\<rparr> in (make_id (nextThreadId s) th, s))"

definition generateProcessId :: "nat \<Rightarrow> 'z kproc_scheme \<Rightarrow> u32 \<times> 'z kproc_scheme" where
  "generateProcessId p s =
     (let s = s\<lparr>nextProcessId := nextProcessId s + 1\<rparr> in (make_id (nextProcessId s) p, s))"

abbreviation (input) ESRCH :: int where "ESRCH \<equiv> 3"
abbreviation (input) EPERM :: int where "EPERM \<equiv> 1"
abbreviation (input) INVALID_PROCESS_STATUS :: int where "INVALID_PROCESS_STATUS \<equiv> 7"
abbreviation (input) INVALID_PERM :: int where "INVALID_PERM \<equiv> 8"

text \<open>The result and what is stored through the second argument.\<close>

definition tid2Thread :: "u32 \<Rightarrow> bool \<Rightarrow> 'z kproc_scheme \<Rightarrow> (int \<times> nat option) option" where
  "tid2Thread threadId checkPerm s =
     (if threadId = 0 then Some (0, currentThread s)
      else let th = PROCESS_OFFSET threadId
           in if th_state (threads s th) = UNUSED \<or> th_id (threads s th) \<noteq> threadId then Some (- ESRCH, None)
              else if checkPerm \<and> Some th \<noteq> currentThread s then do {
                p \<leftarrow> myProcess s;
                if parentId (processes s (th_process (threads s th))) \<noteq> processId (processes s p)
                then Some (- EPERM, None) else Some (0, Some th) }
              else Some (0, Some th))"

definition pid2Process :: "u32 \<Rightarrow> bool \<Rightarrow> 'z kproc_scheme \<Rightarrow> (int \<times> nat option) option" where
  "pid2Process pid checkPerm s =
     (if pid = 0 then Some (0, myProcess s)
      else let p = PROCESS_OFFSET pid
           in if p_state (processes s p) = UNUSED \<or> processId (processes s p) \<noteq> pid
              then Some (- INVALID_PROCESS_STATUS, None)
              else if checkPerm \<and> Some p \<noteq> myProcess s then do {
                me \<leftarrow> myProcess s;
                if parentId (processes s p) \<noteq> processId (processes s me)
                then Some (- INVALID_PERM, None) else Some (0, Some p) }
              else Some (0, Some p))"

definition getThreadTopSp :: "nat \<Rightarrow> u64" where
  "getThreadTopSp th = KERNEL_PROCESS_SP_TOP - of_nat th * 10 * PAGE_SIZE"

definition getSignalHandler :: "nat \<Rightarrow> u64" where
  "getSignalHandler p = PROCESS_SIGNAL_BASE + of_nat p * PAGE_SIZE"

definition getSignalHandlerSp :: "nat \<Rightarrow> u64" where
  "getSignalHandlerSp th = SIGNAL_HANDLER_SP_BASE + (of_nat th + 1) * PAGE_SIZE * 10"

section \<open>Sleeping\<close>

abbreviation (input) KERNEL_GIVE_UP :: u32 where "KERNEL_GIVE_UP \<equiv> 1"

text \<open>
  \<^verbatim>\<open>sleep\<close> up to the switch: the thread is marked and gives up the hart, unless it was killed,
  in which case it is destroyed instead. After the switch back the channel is cleared and the
  flag tested again.
\<close>

datatype 'l blocking = Sleeps 'l | Killed

definition sleep_begin :: "channel \<Rightarrow> 'l \<Rightarrow> 'z kproc_scheme \<Rightarrow> ('l blocking \<times> 'z kproc_scheme) option" where
  "sleep_begin ch l s = do {
     th \<leftarrow> myThread s;
     let s = upd_thread th (\<lambda>t. t\<lparr>chan := ch, th_state := SLEEPING, reason := reason t OR KERNEL_GIVE_UP\<rparr>) s;
     Some (if killed (threads s th) then Killed else Sleeps l, s) }"

definition sleep_end :: "'l \<Rightarrow> 'z kproc_scheme \<Rightarrow> ('l blocking \<times> 'z kproc_scheme) option" where
  "sleep_end l s = do {
     th \<leftarrow> myThread s;
     let s = upd_thread th (\<lambda>t. t\<lparr>chan := NoChan\<rparr>) s;
     Some (if killed (threads s th) then Killed else Sleeps l, s) }"

definition wake_one :: "channel \<Rightarrow> nat \<Rightarrow> 'z kproc_scheme \<Rightarrow> 'z kproc_scheme" where
  "wake_one ch th s =
     (if th_state (threads s th) = SLEEPING \<and> chan (threads s th) = ch
      then upd_thread th (\<lambda>t. t\<lparr>th_state := RUNNABLE\<rparr>) s else s)"

definition wakeup :: "channel \<Rightarrow> 'z kproc_scheme \<Rightarrow> 'z kproc_scheme option" where
  "wakeup ch s = do {
     ths \<leftarrow> LIST_FOREACH (LIST_FIRST Used (thread_links s)) (thread_links s);
     Some (fold (wake_one ch) ths s) }"

section \<open>Sleep locks\<close>

record Sleeplock =
  sl_locked :: bool
  sl_tid :: u32

definition zero_sleeplock :: Sleeplock where
  "zero_sleeplock = \<lparr>sl_locked = False, sl_tid = 0\<rparr>"

definition initsleeplock :: "Sleeplock \<Rightarrow> Sleeplock" where
  "initsleeplock lk = lk\<lparr>sl_locked := False, sl_tid := 0\<rparr>"

text \<open>
  \<^verbatim>\<open>acquiresleep\<close> sleeps as long as the lock is held. The locks are those of the buffers, between \<^verbatim>\<open>bread\<close> and
  \<^verbatim>\<open>brelse\<close>, where nothing sleeps and no thread gives up the hart. So a lock that is found held is held by
  the calling thread itself; it sleeps and nobody is left to release it. A call that does not come
  back for this reason is \<open>None\<close> too; the threads that run on meanwhile are not followed.
\<close>

definition acquiresleep :: "Sleeplock \<Rightarrow> 'z kproc_scheme \<Rightarrow> Sleeplock option" where
  "acquiresleep lk s = do {
     kassert (\<not> sl_locked lk);
     th \<leftarrow> myThread s;
     Some (lk\<lparr>sl_locked := True, sl_tid := th_id (threads s th)\<rparr>) }"

definition releasesleep :: "channel \<Rightarrow> Sleeplock \<Rightarrow> 'z kproc_scheme \<Rightarrow> (Sleeplock \<times> 'z kproc_scheme) option" where
  "releasesleep ch lk s = do {
     s \<leftarrow> wakeup ch s;
     Some (lk\<lparr>sl_locked := False, sl_tid := 0\<rparr>, s) }"

definition holdingsleep :: "Sleeplock \<Rightarrow> 'z kproc_scheme \<Rightarrow> bool option" where
  "holdingsleep lk s =
     (if \<not> sl_locked lk then Some False
      else do { th \<leftarrow> myThread s; Some (sl_tid lk = th_id (threads s th)) })"

section \<open>Interrupt nesting\<close>

record Hart =
  interruptLayer :: int
  lastInterruptEnable :: bool
  sstatus_SIE :: bool

definition interruptPush :: "Hart \<Rightarrow> Hart" where
  "interruptPush h =
     (let old = sstatus_SIE h;
          h = h\<lparr>sstatus_SIE := False\<rparr>;
          h = (if interruptLayer h = 0 then h\<lparr>lastInterruptEnable := old\<rparr> else h)
      in h\<lparr>interruptLayer := interruptLayer h + 1\<rparr>)"

definition interruptPop :: "Hart \<Rightarrow> Hart option" where
  "interruptPop h = do {
     kassert (\<not> sstatus_SIE h);
     kassert (\<not> interruptLayer h < 0);
     let h = h\<lparr>interruptLayer := interruptLayer h - 1\<rparr>;
     Some (if interruptLayer h = 0 \<and> lastInterruptEnable h then h\<lparr>sstatus_SIE := True\<rparr> else h) }"

section \<open>Identities are faithful\<close>

lemma bit_make_id: "idx < 1024 \<Longrightarrow> bit (make_id n idx) k \<longleftrightarrow>
    (if k < 11 then bit idx k else k < 32 \<and> bit n (k - 11))"
proof -
  assume i: "idx < 1024"
  have "bit idx k \<Longrightarrow> k < 10"
  proof (rule ccontr)
    assume b: "bit idx k" and "\<not> k < 10"
    have "(2 :: nat) ^ 10 \<le> 2 ^ k" using \<open>\<not> k < 10\<close> by (intro power_increasing) auto
    then have "idx < 2 ^ k" using i by simp
    then show False using b by (simp add: bit_iff_odd)
  qed
  then show ?thesis
    unfolding make_id_def
    by (auto simp: bit_or_iff bit_push_bit_iff bit_of_nat_iff dest: bit_word_bound)
qed

lemma PROCESS_OFFSET_make_id [simp]: "idx < 1024 \<Longrightarrow> PROCESS_OFFSET (make_id n idx) = idx"
proof -
  assume i: "idx < 1024"
  have "make_id n idx AND 0x3FF = make_id n idx AND mask 10" by (simp add: mask_eq_exp_minus_1)
  also have "\<dots> = (of_nat idx :: u32)"
  proof (rule bit_word_eqI)
    fix k :: nat assume "k < LENGTH(32)"
    have "\<not> bit idx k" if "10 \<le> k"
    proof -
      have "(2 :: nat) ^ 10 \<le> 2 ^ k" using that by (intro power_increasing) auto
      then show ?thesis using i by (simp add: bit_iff_odd)
    qed
    then show "bit (make_id n idx AND mask 10) k = bit (of_nat idx :: u32) k"
      using bit_make_id [OF i, of n k] \<open>k < LENGTH(32)\<close>
      by (cases "k < 10") (auto simp: bit_and_iff bit_mask_iff bit_of_nat_iff)
  qed
  finally show ?thesis using i by (simp add: PROCESS_OFFSET_def unat_of_nat)
qed

lemma make_id_inj:
  assumes "i < 1024" "j < 1024"
  shows "make_id n i = make_id m j \<longleftrightarrow> i = j \<and> take_bit 21 n = take_bit 21 m"
proof
  assume eq: "make_id n i = make_id m j"
  then have ij: "i = j" using PROCESS_OFFSET_make_id [OF assms(1), of n] PROCESS_OFFSET_make_id [OF assms(2), of m] by simp
  have "bit (take_bit 21 n) k = bit (take_bit 21 m) k" for k
    using arg_cong [OF eq, of "\<lambda>x. bit x (k + 11)"] bit_make_id [OF assms(1), of n "k + 11"]
      bit_make_id [OF assms(2), of m "k + 11"] by (auto simp: bit_take_bit_iff)
  then have "take_bit 21 n = take_bit 21 m" by (simp add: bit_eq_iff)
  with ij show "i = j \<and> take_bit 21 n = take_bit 21 m" by simp
next
  assume e: "i = j \<and> take_bit 21 n = take_bit 21 m"
  have "bit n k = bit m k" if "k < 21" for k
    using that e bit_take_bit_iff [of 21 n k] bit_take_bit_iff [of 21 m k] by simp
  then show "make_id n i = make_id m j"
    using e assms by (intro bit_word_eqI) (auto simp: bit_make_id)
qed

section \<open>Waking\<close>

definition woken :: "channel \<Rightarrow> nat set \<Rightarrow> (nat \<Rightarrow> Thread) \<Rightarrow> nat \<Rightarrow> Thread" where
  "woken ch T f th = (if th \<in> T \<and> th_state (f th) = SLEEPING \<and> chan (f th) = ch
     then (f th)\<lparr>th_state := RUNNABLE\<rparr> else f th)"

lemma wake_fold:
  "fold (wake_one ch) ths s = s\<lparr>threads := woken ch (set ths) (threads s)\<rparr>"
proof (induction ths arbitrary: s)
  case Nil
  show ?case by (simp add: woken_def)
next
  case (Cons t ths)
  have 1: "wake_one ch t s = s\<lparr>threads := woken ch {t} (threads s)\<rparr>"
    by (auto simp: wake_one_def woken_def fun_eq_iff intro!: kproc.equality)
  have "woken ch (set ths) (woken ch {t} (threads s)) = woken ch (insert t (set ths)) (threads s)"
    by (rule ext) (auto simp: woken_def)
  with Cons 1 show ?case by simp
qed

lemma wakeup_eq:
  "lists_abs (thread_links s) L \<Longrightarrow>
     wakeup ch s = Some (s\<lparr>threads := woken ch (set (L Used)) (threads s)\<rparr>)"
  by (simp add: wakeup_def lists_abs_foreach wake_fold)

section \<open>Nested interrupt disabling\<close>

fun pops :: "nat \<Rightarrow> Hart \<Rightarrow> Hart option" where
  "pops 0 h = Some h"
| "pops (Suc n) h = Option.bind (interruptPop h) (pops n)"

lemma push_pop: "0 \<le> interruptLayer h \<Longrightarrow> (interruptLayer h > 0 \<longrightarrow> \<not> sstatus_SIE h) \<Longrightarrow>
    interruptPop (interruptPush h) = Some (if interruptLayer h = 0
      then h\<lparr>lastInterruptEnable := sstatus_SIE h\<rparr> else h)"
  by (auto simp: interruptPush_def interruptPop_def Let_def)

lemma pushes:
  assumes "interruptLayer h = 0"
  shows "(interruptPush ^^ Suc n) h = h\<lparr>interruptLayer := int (Suc n), sstatus_SIE := False, lastInterruptEnable := sstatus_SIE h\<rparr>"
  using assms by (induction n) (auto simp: interruptPush_def Let_def)

lemma pop_pushed:
  "interruptPop (h\<lparr>interruptLayer := int (Suc (Suc n)), sstatus_SIE := False, lastInterruptEnable := b\<rparr>)
     = Some (h\<lparr>interruptLayer := int (Suc n), sstatus_SIE := False, lastInterruptEnable := b\<rparr>)"
  by (auto simp: interruptPop_def Let_def)

lemma pops_pushed:
  "pops (Suc n) (h\<lparr>interruptLayer := int (Suc n), sstatus_SIE := False, lastInterruptEnable := b\<rparr>)
     = Some (h\<lparr>interruptLayer := 0, sstatus_SIE := b, lastInterruptEnable := b\<rparr>)"
proof (induction n)
  case 0
  show ?case by (auto simp: interruptPop_def Let_def)
next
  case (Suc n)
  then show ?case by (subst pops.simps) (simp only: pop_pushed bind.bind_lunit)
qed

section \<open>Properties\<close>

text \<open>
  C35: the id a thread gets names its slot and its generation: \<^verbatim>\<open>tid2Thread\<close> of the id in use finds
  the thread, and an id handed out for the same slot in another generation is refused, up to the 21
  bits the counter has in the id.
\<close>

theorem tid2Thread_correct:
  assumes "i < 1024" and "th_id (threads s i) = make_id n i" and "th_state (threads s i) \<noteq> UNUSED"
    and "make_id m i \<noteq> 0"
  shows "tid2Thread (make_id m i) False s
    = (if take_bit 21 m = take_bit 21 n then Some (0, Some i) else Some (- ESRCH, None))"
  using assms make_id_inj [OF assms(1,1), of n m] by (auto simp: tid2Thread_def Let_def)

theorem tid2Thread_correct_witness:
  "tid2Thread (make_id 5 3) False (upd_thread 3 (\<lambda>t. t\<lparr>th_id := make_id 6 3, th_state := RUNNABLE\<rparr>) zero_kproc) = Some (- ESRCH, None)"
proof -
  have "make_id 5 3 \<noteq> 0" "take_bit 21 (5 :: u32) \<noteq> take_bit 21 6" by (simp_all add: make_id_def)
  then show ?thesis
    using tid2Thread_correct [of 3 "upd_thread 3 (\<lambda>t. t\<lparr>th_id := make_id 6 3, th_state := RUNNABLE\<rparr>) zero_kproc" 6 5] by simp
qed

text \<open>
  C34: \<^verbatim>\<open>wakeup\<close> makes exactly the used threads that sleep on the channel runnable; nothing else of
  the kernel changes.
\<close>

theorem wakeup_exact:
  assumes "lists_abs (thread_links s) L"
  shows "\<exists>t. wakeup ch s = Some t \<and> t = s\<lparr>threads := threads t\<rparr>
    \<and> (\<forall>th. threads t th = (if th \<in> set (L Used) \<and> th_state (threads s th) = SLEEPING \<and> chan (threads s th) = ch
         then (threads s th)\<lparr>th_state := RUNNABLE\<rparr> else threads s th))"
  using wakeup_eq [OF assms, of ch] by (simp add: woken_def)

theorem wakeup_exact_witness:
  "\<exists>t. wakeup (ChanPipeRead 0) (zero_kproc\<lparr>thread_links := LIST_INSERT_HEAD Used 4 zero_lists,
       threads := (\<lambda>_. zero_thread\<lparr>th_state := SLEEPING, chan := ChanPipeRead 0\<rparr>)\<rparr>) = Some t
     \<and> th_state (threads t 4) = RUNNABLE \<and> th_state (threads t 5) = SLEEPING"
proof -
  let ?s = "zero_kproc\<lparr>thread_links := LIST_INSERT_HEAD Used 4 zero_lists,
       threads := (\<lambda>_. zero_thread\<lparr>th_state := SLEEPING, chan := ChanPipeRead 0\<rparr>)\<rparr>"
  have "lists_abs (thread_links ?s) ((\<lambda>_. [])(Used := [4]))"
    using lists_abs_insert_head [OF lists_abs_zero, of 4 Used] by (simp add: on_lists_def)
  from wakeup_exact [OF this, of "ChanPipeRead 0"] show ?thesis by auto
qed

text \<open>
  Nested critical sections: after any number of \<^verbatim>\<open>interruptPush\<close> calls interrupts are off, and as
  many \<^verbatim>\<open>interruptPop\<close> calls bring back the enable bit of before the first push, no earlier.
\<close>

theorem interrupt_nesting:
  assumes "interruptLayer h = 0" and "k \<le> n"
  shows "\<not> sstatus_SIE ((interruptPush ^^ Suc n) h)
    \<and> (\<exists>h'. pops k ((interruptPush ^^ Suc n) h) = Some h' \<and> \<not> sstatus_SIE h')
    \<and> pops (Suc n) ((interruptPush ^^ Suc n) h) = Some (h\<lparr>lastInterruptEnable := sstatus_SIE h\<rparr>)"
proof -
  have "\<exists>h'. pops k ((interruptPush ^^ Suc n) h) = Some h' \<and> \<not> sstatus_SIE h'" unfolding pushes [OF assms(1)]
    using assms(2)
  proof (induction k arbitrary: n)
    case (Suc k)
    then obtain m where "n = Suc m" by (cases n) auto
    with Suc show ?case by (simp only: pops.simps pop_pushed bind.bind_lunit Suc_le_mono)
  qed simp
  then show ?thesis using assms(1) by (simp only: pushes [OF assms(1)] pops_pushed) simp
qed

theorem interrupt_nesting_witness:
  "pops 3 ((interruptPush ^^ 3) \<lparr>interruptLayer = 0, lastInterruptEnable = False, sstatus_SIE = True\<rparr>)
     = Some \<lparr>interruptLayer = 0, lastInterruptEnable = True, sstatus_SIE = True\<rparr>"
  using interrupt_nesting [of "\<lparr>interruptLayer = 0, lastInterruptEnable = False, sstatus_SIE = True\<rparr>" 0 2]
  by (simp add: eval_nat_numeral)

end
