(* ===== verification/Futex.thy ===== *)
theory Futex
  imports Sched
begin

text \<open>
  The futex queue of \<^verbatim>\<open>src/kernel/system/Futex.c\<close>: 64 slots, each a waiting thread and the address
  it waits on. \<open>waiters\<close> reads the queue as the sequence of slots waiting on an address.
\<close>

section \<open>The operations\<close>

record TimeSpec =
  second :: u64
  nanoSecond :: int

fun first_invalid :: "FutexQueue list \<Rightarrow> nat option" where
  "first_invalid [] = None"
| "first_invalid (q # qs) = (if \<not> fq_valid q then Some 0 else map_option Suc (first_invalid qs))"

text \<open>\<^verbatim>\<open>futexWait\<close> up to its \<^verbatim>\<open>yield\<close>, from which it does not return.\<close>

definition futexWait :: "u64 \<Rightarrow> nat \<Rightarrow> TimeSpec option \<Rightarrow> 'z kproc_scheme \<Rightarrow> 'z kproc_scheme option" where
  "futexWait addr th ts s = do {
     i \<leftarrow> first_invalid (futexQueue s);
     let s = s\<lparr>futexQueue := (futexQueue s)[i := \<lparr>fq_addr = addr, fq_thread = th, fq_valid = True\<rparr>]\<rparr>;
     Some (case ts of
       Some ts \<Rightarrow> upd_thread th (\<lambda>t. t\<lparr>awakeTime := second ts * 1000000 + of_int (cdiv (nanoSecond ts) 1000)\<rparr>) s
     | None \<Rightarrow> upd_thread th (\<lambda>t. t\<lparr>th_state := SLEEPING\<rparr>) s) }"

definition wake_slot :: "nat \<Rightarrow> 'z kproc_scheme \<Rightarrow> 'z kproc_scheme" where
  "wake_slot i s =
     (let q = futexQueue s ! i;
          s = upd_thread (fq_thread q) (\<lambda>t. t\<lparr>th_state := RUNNABLE, trapframe := (trapframe t)(tf_a0 := 0)\<rparr>) s
      in s\<lparr>futexQueue := (futexQueue s)[i := q\<lparr>fq_valid := False\<rparr>]\<rparr>)"

definition waits_on :: "u64 \<Rightarrow> FutexQueue \<Rightarrow> bool" where
  "waits_on addr q \<longleftrightarrow> fq_valid q \<and> fq_addr q = addr"

text \<open>The loop shared by \<^verbatim>\<open>futexWake\<close> and \<^verbatim>\<open>futexRequeue\<close>: \<open>n\<close> counts down to zero.\<close>

function wake_from :: "u64 \<Rightarrow> nat \<Rightarrow> int \<Rightarrow> 'z kproc_scheme \<Rightarrow> 'z kproc_scheme" where
  "wake_from addr i n s =
     (if i < FUTEX_COUNT \<and> n \<noteq> 0 then
        if waits_on addr (futexQueue s ! i) then wake_from addr (Suc i) (n - 1) (wake_slot i s)
        else wake_from addr (Suc i) n s
      else s)"
  by pat_completeness auto
termination
  by (relation "measure (\<lambda>(addr, i, n, s). FUTEX_COUNT - i)") auto

declare wake_from.simps [simp del]

definition futexWake :: "u64 \<Rightarrow> int \<Rightarrow> 'z kproc_scheme \<Rightarrow> 'z kproc_scheme" where
  "futexWake addr n s = wake_from addr 0 n s"

definition futexRequeue :: "u64 \<Rightarrow> int \<Rightarrow> u64 \<Rightarrow> 'z kproc_scheme \<Rightarrow> 'z kproc_scheme" where
  "futexRequeue addr n newAddr s =
     (let s = wake_from addr 0 n s
      in s\<lparr>futexQueue := map (\<lambda>q. if waits_on addr q then q\<lparr>fq_addr := newAddr\<rparr> else q) (futexQueue s)\<rparr>)"

definition futexClear :: "nat \<Rightarrow> 'z kproc_scheme \<Rightarrow> 'z kproc_scheme" where
  "futexClear th s =
     s\<lparr>futexQueue := map (\<lambda>q. if fq_valid q \<and> fq_thread q = th then q\<lparr>fq_valid := False\<rparr> else q) (futexQueue s)\<rparr>"

section \<open>The queue as a sequence of waiters\<close>

definition waiters_from :: "u64 \<Rightarrow> nat \<Rightarrow> FutexQueue list \<Rightarrow> nat list" where
  "waiters_from addr i qs = filter (\<lambda>j. waits_on addr (qs ! j)) [i..<FUTEX_COUNT]"

abbreviation waiters :: "u64 \<Rightarrow> FutexQueue list \<Rightarrow> nat list" where
  "waiters addr qs \<equiv> waiters_from addr 0 qs"

text \<open>A negative count wakes everyone, as it never reaches zero.\<close>

definition take_int :: "int \<Rightarrow> 'a list \<Rightarrow> 'a list" where
  "take_int n xs = (if n < 0 then xs else take (nat n) xs)"

lemma take_int_simps [simp]:
  "take_int 0 xs = []" "take_int n [] = []" "n \<noteq> 0 \<Longrightarrow> take_int n (x # xs) = x # take_int (n - 1) xs"
  by (auto simp: take_int_def take_Cons' nat_diff_distrib)

lemma waiters_from_step:
  "i < FUTEX_COUNT \<Longrightarrow> waiters_from addr i qs =
     (if waits_on addr (qs ! i) then i # waiters_from addr (Suc i) qs else waiters_from addr (Suc i) qs)"
  by (simp add: waiters_from_def upt_conv_Cons)

lemma futexQueue_wake_slot: "futexQueue (wake_slot i s) = (futexQueue s)[i := (futexQueue s ! i)\<lparr>fq_valid := False\<rparr>]"
  by (simp add: wake_slot_def Let_def)

lemma waiters_wake_slot: "j < i \<Longrightarrow> waiters_from addr i (futexQueue (wake_slot j s)) = waiters_from addr i (futexQueue s)"
  unfolding waiters_from_def futexQueue_wake_slot by (rule filter_cong) auto

lemma wake_from_eq: "wake_from addr i n s = fold wake_slot (take_int n (waiters_from addr i (futexQueue s))) s"
proof (induction addr i n s rule: wake_from.induct)
  case (1 addr i n s)
  show ?case
  proof (cases "i < FUTEX_COUNT \<and> n \<noteq> 0")
    case True
    with 1 show ?thesis
      by (subst wake_from.simps) (auto simp: waiters_from_step [of i] waiters_wake_slot)
  next
    case False
    then show ?thesis by (subst wake_from.simps) (auto simp: waiters_from_def)
  qed
qed

lemma wake_slot_nth:
  "j < length (futexQueue s) \<Longrightarrow> futexQueue (wake_slot w s) ! j =
     (if j = w then (futexQueue s ! j)\<lparr>fq_valid := False\<rparr> else futexQueue s ! j)"
  by (auto simp: futexQueue_wake_slot)

lemma wake_slots_queue:
  "distinct ws \<Longrightarrow> set ws \<subseteq> {..<length (futexQueue s)} \<Longrightarrow> futexQueue (fold wake_slot ws s) =
      map (\<lambda>j. if j \<in> set ws then (futexQueue s ! j)\<lparr>fq_valid := False\<rparr> else futexQueue s ! j) [0..<length (futexQueue s)]"
proof (induction ws arbitrary: s)
  case Nil
  show ?case by (simp add: map_nth)
next
  case (Cons w ws)
  have l: "length (futexQueue (wake_slot w s)) = length (futexQueue s)" by (simp add: futexQueue_wake_slot)
  have "set ws \<subseteq> {..<length (futexQueue (wake_slot w s))}" "distinct ws" using Cons.prems l by auto
  note IH = Cons.IH [OF this(2,1), unfolded l]
  show ?case
    unfolding fold_Cons o_apply IH using Cons.prems by (intro map_cong) (auto simp: wake_slot_nth)
qed

lemma wake_slots_threads:
  "distinct ws \<Longrightarrow> set ws \<subseteq> {..<length (futexQueue s)} \<Longrightarrow> threads (fold wake_slot ws s) t =
      (if t \<in> (\<lambda>j. fq_thread (futexQueue s ! j)) ` set ws
       then (threads s t)\<lparr>th_state := RUNNABLE, trapframe := (trapframe (threads s t))(tf_a0 := 0)\<rparr> else threads s t)"
proof (induction ws arbitrary: s)
  case Nil
  show ?case by simp
next
  case (Cons w ws)
  have l: "length (futexQueue (wake_slot w s)) = length (futexQueue s)" by (simp add: futexQueue_wake_slot)
  have "set ws \<subseteq> {..<length (futexQueue (wake_slot w s))}" "distinct ws" using Cons.prems l by auto
  note IH = Cons.IH [OF this(2,1)]
  have i: "(\<lambda>j. fq_thread (futexQueue (wake_slot w s) ! j)) ` set ws = (\<lambda>j. fq_thread (futexQueue s ! j)) ` set ws"
    using Cons.prems by (intro image_cong) (auto simp: wake_slot_nth)
  show ?case
    unfolding fold_Cons o_apply IH i by (auto simp: wake_slot_def Let_def)
qed

lemma waiters_props:
  "distinct (take_int n (waiters addr qs))" "set (take_int n (waiters addr qs)) \<subseteq> {..<FUTEX_COUNT}"
  "set (take_int n (waiters addr qs)) \<subseteq> {j. waits_on addr (qs ! j)}"
  by (auto simp: take_int_def waiters_from_def dest: in_set_takeD)

section \<open>Properties\<close>

text \<open>
  Waking: the first \<open>n\<close> slots waiting on the address, in slot order, leave the queue; their
  threads become runnable with a zero result and no other thread or slot changes.
\<close>

lemma futexWake_spec:
  assumes "length (futexQueue s) = FUTEX_COUNT" and W: "W = take_int n (waiters addr (futexQueue s))"
  shows "futexQueue (futexWake addr n s) =
      map (\<lambda>j. if j \<in> set W then (futexQueue s ! j)\<lparr>fq_valid := False\<rparr> else futexQueue s ! j) [0..<FUTEX_COUNT]"
    and "threads (futexWake addr n s) t =
      (if t \<in> (\<lambda>j. fq_thread (futexQueue s ! j)) ` set W
       then (threads s t)\<lparr>th_state := RUNNABLE, trapframe := (trapframe (threads s t))(tf_a0 := 0)\<rparr> else threads s t)"
  unfolding futexWake_def wake_from_eq W
  using waiters_props [of n addr "futexQueue s"] assms(1) by (simp_all add: wake_slots_queue wake_slots_threads)

lemma futexWait_spec:
  assumes "first_invalid (futexQueue s) = Some i" and "i < length (futexQueue s)"
  shows "\<exists>s'. futexWait addr th ts s = Some s' \<and>
     futexQueue s' = (futexQueue s)[i := \<lparr>fq_addr = addr, fq_thread = th, fq_valid = True\<rparr>]"
  using assms by (auto simp: futexWait_def Let_def split: option.split)

lemma first_invalid_None: "first_invalid qs = None \<longleftrightarrow> (\<forall>q \<in> set qs. fq_valid q)"
  by (induction qs) auto

lemma first_invalid_Some:
  "first_invalid qs = Some i \<Longrightarrow> i < length qs \<and> \<not> fq_valid (qs ! i) \<and> (\<forall>j < i. fq_valid (qs ! j))"
proof (induction qs arbitrary: i)
  case (Cons q qs)
  then show ?case by (auto split: if_splits simp: nth_Cons split: nat.splits)
qed simp

text \<open>
  C32: \<^verbatim>\<open>futexWake\<close> takes the first \<open>n\<close> slots that wait on the address, in slot order (all of them
  when \<open>n\<close> is negative), out of the queue; exactly their threads become runnable with result 0; every
  other slot and thread is unchanged.
\<close>

theorem futexWake_correct:
  assumes "length (futexQueue s) = FUTEX_COUNT"
    and "W = set (take_int n (filter (\<lambda>j. waits_on addr (futexQueue s ! j)) [0..<FUTEX_COUNT]))"
  shows "futexQueue (futexWake addr n s) =
      map (\<lambda>j. if j \<in> W then (futexQueue s ! j)\<lparr>fq_valid := False\<rparr> else futexQueue s ! j) [0..<FUTEX_COUNT]
    \<and> (\<forall>t. threads (futexWake addr n s) t =
      (if t \<in> (\<lambda>j. fq_thread (futexQueue s ! j)) ` W
       then (threads s t)\<lparr>th_state := RUNNABLE, trapframe := (trapframe (threads s t))(tf_a0 := 0)\<rparr> else threads s t))"
  using futexWake_spec [OF assms(1) refl, where addr = addr and n = n] assms(2) by (simp add: waiters_from_def)

theorem futexWake_correct_witness:
  "th_state (threads (futexWake 0x40 1 (zero_kproc\<lparr>futexQueue := (futexQueue zero_kproc)[3 := \<lparr>fq_addr = 0x40, fq_thread = 7, fq_valid = True\<rparr>]\<rparr>)) 7) = RUNNABLE"
proof -
  let ?s = "zero_kproc\<lparr>futexQueue := (futexQueue zero_kproc)[3 := \<lparr>fq_addr = 0x40, fq_thread = 7, fq_valid = True\<rparr>]\<rparr>"
  have w: "filter (\<lambda>j. waits_on 0x40 (futexQueue ?s ! j)) [0..<FUTEX_COUNT] = [3]"
    by (simp add: upt_rec zero_kproc_def waits_on_def zero_fq_def nth_list_update)
  have "length (futexQueue ?s) = FUTEX_COUNT" by (simp add: zero_kproc_def)
  from futexWake_correct [OF this refl, where n = 1 and addr = "0x40"] show ?thesis
    unfolding w by (simp add: zero_kproc_def)
qed

text \<open>
  C33: a woken thread was waiting: \<^verbatim>\<open>futexWait\<close> records the thread in a slot that was free, so a
  \<^verbatim>\<open>futexWake\<close> of the same address for everyone makes the thread runnable again and leaves no slot
  that waits on the address.
\<close>

theorem futexWait_Wake:
  assumes "length (futexQueue s) = FUTEX_COUNT" and "\<exists>q \<in> set (futexQueue s). \<not> fq_valid q"
  shows "\<exists>s'. futexWait addr th ts s = Some s'
    \<and> th_state (threads (futexWake addr (- 1) s') th) = RUNNABLE
    \<and> (\<forall>q \<in> set (futexQueue (futexWake addr (- 1) s')). \<not> waits_on addr q)"
proof -
  obtain i where i: "first_invalid (futexQueue s) = Some i"
    using assms(2) first_invalid_None [of "futexQueue s"] by (cases "first_invalid (futexQueue s)") auto
  note i' = first_invalid_Some [OF i]
  obtain s' where s': "futexWait addr th ts s = Some s'"
    "futexQueue s' = (futexQueue s)[i := \<lparr>fq_addr = addr, fq_thread = th, fq_valid = True\<rparr>]"
    using futexWait_spec [OF i, of addr th ts] i' by auto
  have l: "length (futexQueue s') = FUTEX_COUNT" using s' assms(1) by simp
  define W where "W = take_int (- 1) (waiters addr (futexQueue s'))"
  have W: "set W = {j. j < FUTEX_COUNT \<and> waits_on addr (futexQueue s' ! j)}"
    by (auto simp: W_def take_int_def waiters_from_def)
  note F = futexWake_spec [OF l W_def]
  have "i \<in> set W" using i' assms(1) s'(2) by (auto simp: W waits_on_def)
  then have "th \<in> (\<lambda>j. fq_thread (futexQueue s' ! j)) ` set W" using i' s'(2) by force
  then have "th_state (threads (futexWake addr (- 1) s') th) = RUNNABLE" by (simp add: F(2))
  moreover have "\<forall>q \<in> set (futexQueue (futexWake addr (- 1) s')). \<not> waits_on addr q"
    unfolding F(1) by (auto simp: W) (auto simp: waits_on_def)
  ultimately show ?thesis using s'(1) by blast
qed

theorem futexWait_Wake_witness:
  "\<exists>s'. futexWait 0x40 7 None zero_kproc = Some s' \<and> th_state (threads (futexWake 0x40 (- 1) s') 7) = RUNNABLE"
  using futexWait_Wake [of zero_kproc "0x40" 7 None] by (auto simp: zero_kproc_def zero_fq_def)

end
