(* ===== verification/Page.thy ===== *)
theory Page
  imports Kernel_Types
begin

text \<open>
  Physical pages and Sv39 page tables: \<^verbatim>\<open>src/include/Page.h\<close>, \<^verbatim>\<open>src/kernel/memory/Page.c\<close> and
  \<^verbatim>\<open>src/kernel/memory/MemoryInit.c\<close>. Page tables are words in physical memory; the free pages
  are a list of \<^verbatim>\<open>Queue.h\<close>. Kernel buffers handed to \<^verbatim>\<open>copyin\<close> and \<^verbatim>\<open>copyout\<close> are passed by their
  contents. \<^verbatim>\<open>pageout\<close> reads the source file of a segment; that read (\<^verbatim>\<open>eread\<close> into kernel
  memory) is the argument \<open>er\<close>, which the file system's model provides.
\<close>

record kmem = kproc +
  mem :: bytes
  page_links :: "(unit, nat) lists"
  page_ref :: "nat \<Rightarrow> u32"
  page_hart :: "nat \<Rightarrow> u64"
  r_hartid :: u64
  kernelPageDirectory :: u64
  kernelStart :: u64
  textEnd :: u64
  kernelEnd :: u64
  trampoline :: u64
  signalTrampoline :: u64

section \<open>Address and entry arithmetic\<close>

definition DOWN_ALIGN :: "u64 \<Rightarrow> u64 \<Rightarrow> u64" where
  "DOWN_ALIGN x y = x AND NOT (y - 1)"

definition UP_ALIGN :: "u64 \<Rightarrow> u64 \<Rightarrow> u64" where
  "UP_ALIGN x y = DOWN_ALIGN (x - 1) y + y"

definition PAGE_OFFSET :: "u64 \<Rightarrow> u64 \<Rightarrow> u64" where
  "PAGE_OFFSET x y = x AND (y - 1)"

definition MAXVA :: u64 where
  "MAXVA = push_bit 38 1"

definition page2pa :: "nat \<Rightarrow> u64" where
  "page2pa page = PHYSICAL_ADDRESS_BASE + ucast (push_bit 12 (of_nat page :: u32))"

definition pa2page :: "u64 \<Rightarrow> nat option" where
  "pa2page pa = (if pa = 0 then None
     else Some (unat (ucast (drop_bit 12 (pa - PHYSICAL_ADDRESS_BASE)) :: u32)))"

definition PA2PPN :: "u64 \<Rightarrow> u64" where
  "PA2PPN va = drop_bit 12 (va - PHYSICAL_ADDRESS_BASE)"

definition GET_PAGE_TABLE_INDEX :: "u64 \<Rightarrow> nat \<Rightarrow> u64" where
  "GET_PAGE_TABLE_INDEX va level = drop_bit (12 + 9 * level) va AND 0x1FF"

abbreviation (input) PTE_VALID :: u64 where "PTE_VALID \<equiv> 0x1"
abbreviation (input) PTE_READ :: u64 where "PTE_READ \<equiv> 0x2"
abbreviation (input) PTE_WRITE :: u64 where "PTE_WRITE \<equiv> 0x4"
abbreviation (input) PTE_EXECUTE :: u64 where "PTE_EXECUTE \<equiv> 0x8"
abbreviation (input) PTE_USER :: u64 where "PTE_USER \<equiv> 0x10"
abbreviation (input) PTE_ACCESSED :: u64 where "PTE_ACCESSED \<equiv> 0x40"
abbreviation (input) PTE_DIRTY :: u64 where "PTE_DIRTY \<equiv> 0x80"
abbreviation (input) PTE_COW :: u64 where "PTE_COW \<equiv> 0x100"

definition PTE2PERM :: "u64 \<Rightarrow> u64" where
  "PTE2PERM pte = pte AND NOT (push_bit 54 1 - push_bit 10 1)"

definition PTE2PA :: "u64 \<Rightarrow> u64" where
  "PTE2PA pte = push_bit 12 (drop_bit 10 (pte AND (push_bit 54 1 - push_bit 10 1)))"

definition PA2PTE :: "u64 \<Rightarrow> u64" where
  "PA2PTE pa = push_bit 10 (drop_bit 12 pa)"

definition page2pte :: "nat \<Rightarrow> u64" where
  "page2pte page = push_bit 10 (drop_bit 12 (page2pa page))"

definition is_ram :: "u64 \<Rightarrow> bool" where
  "is_ram pa \<longleftrightarrow> PHYSICAL_ADDRESS_BASE \<le> pa \<and> pa < PHYSICAL_MEMORY_TOP"

section \<open>Free pages\<close>

definition countFreePages :: "'z kmem_scheme \<Rightarrow> nat option" where
  "countFreePages s = map_option length (LIST_FOREACH (LIST_FIRST () (page_links s)) (page_links s))"

definition pageAlloc :: "'z kmem_scheme \<Rightarrow> (nat \<times> 'z kmem_scheme) option" where
  "pageAlloc s = (case LIST_FIRST () (page_links s) of
     None \<Rightarrow> None
   | Some page \<Rightarrow> do {
       let s = s\<lparr>page_hart := (page_hart s)(page := r_hartid s)\<rparr>;
       l \<leftarrow> LIST_REMOVE page (page_links s);
       let s = s\<lparr>page_links := l\<rparr>;
       Some (page, s\<lparr>mem := bzero (mem s) (page2pa page) 4096\<rparr>) })"

definition pageFree :: "nat \<Rightarrow> 'z kmem_scheme \<Rightarrow> 'z kmem_scheme" where
  "pageFree page s = (if page_ref s page > 0 then s
     else if page_ref s page = 0 then s\<lparr>page_links := LIST_INSERT_HEAD () page (page_links s)\<rparr> else s)"

section \<open>Page tables\<close>

text \<open>
  The first two levels of \<^verbatim>\<open>pageWalk\<close>: follow the entry at \<open>addr\<close>, making the table it should
  point at when \<open>create\<close> is set. The test \<^verbatim>\<open>!(*addr) & PTE_VALID\<close> holds when the whole entry is
  zero.
\<close>

definition pageWalk_level :: "u64 \<Rightarrow> bool \<Rightarrow> 'z kmem_scheme \<Rightarrow> (u64 option \<times> 'z kmem_scheme) option" where
  "pageWalk_level addr create s =
     (if load64 (mem s) addr = 0 then
        if \<not> create then Some (None, s)
        else do {
          (pp, s) \<leftarrow> pageAlloc s;
          let s = s\<lparr>mem := store64 (mem s) addr (page2pte pp OR PTE_VALID)\<rparr>;
          let s = s\<lparr>page_ref := (page_ref s)(pp := page_ref s pp + 1)\<rparr>;
          Some (Some (PTE2PA (load64 (mem s) addr)), s) }
      else Some (Some (PTE2PA (load64 (mem s) addr)), s))"

text \<open>The result is the address of the last-level entry, zero when a table is missing.\<close>

definition pageWalk :: "u64 \<Rightarrow> u64 \<Rightarrow> bool \<Rightarrow> 'z kmem_scheme \<Rightarrow> (u64 \<times> 'z kmem_scheme) option" where
  "pageWalk pgdir va create s = do {
     (t, s) \<leftarrow> pageWalk_level (pgdir + 8 * GET_PAGE_TABLE_INDEX va 2) create s;
     case t of None \<Rightarrow> Some (0, s)
     | Some addr \<Rightarrow> do {
         (t, s) \<leftarrow> pageWalk_level (addr + 8 * GET_PAGE_TABLE_INDEX va 1) create s;
         case t of None \<Rightarrow> Some (0, s)
         | Some addr \<Rightarrow> Some (addr + 8 * GET_PAGE_TABLE_INDEX va 0, s) } }"

text \<open>The physical address, and the entry's address where \<^verbatim>\<open>pageLookup\<close> stores it.\<close>

definition pageLookup :: "u64 \<Rightarrow> u64 \<Rightarrow> 'z kmem_scheme \<Rightarrow> u64 \<times> u64 option" where
  "pageLookup pgdir va s = (case pageWalk pgdir va False s of
     None \<Rightarrow> (0, None)
   | Some (entry, s) \<Rightarrow>
       if entry = 0 \<or> load64 (mem s) entry AND PTE_VALID = 0 then (0, None)
       else (PTE2PA (load64 (mem s) entry), Some entry))"

definition pageRemove :: "u64 \<Rightarrow> u64 \<Rightarrow> 'z kmem_scheme \<Rightarrow> (int \<times> 'z kmem_scheme) option" where
  "pageRemove pgdir va s =
     (let (pa, pte) = pageLookup pgdir va s
      in if pa < PHYSICAL_ADDRESS_BASE \<or> PHYSICAL_MEMORY_TOP \<le> pa then Some (- 1, s)
         else do {
           page \<leftarrow> pa2page pa;
           let s = s\<lparr>page_ref := (page_ref s)(page := page_ref s page - 1)\<rparr>;
           let s = pageFree page s;
           pte \<leftarrow> pte;
           Some (0, s\<lparr>mem := store64 (mem s) pte 0\<rparr>) })"

definition pageInsert :: "u64 \<Rightarrow> u64 \<Rightarrow> u64 \<Rightarrow> u64 \<Rightarrow> 'z kmem_scheme \<Rightarrow> (int \<times> 'z kmem_scheme) option" where
  "pageInsert pgdir va pa perm s = do {
     let va = DOWN_ALIGN va PAGE_SIZE;
     let pa = DOWN_ALIGN pa PAGE_SIZE;
     let perm = perm OR (PTE_ACCESSED OR PTE_DIRTY);
     (pte, s) \<leftarrow> pageWalk pgdir va False s;
     (r, s) \<leftarrow> (if pte \<noteq> 0 \<and> load64 (mem s) pte AND PTE_VALID \<noteq> 0 then pageRemove pgdir va s else Some (0, s));
     (pte, s) \<leftarrow> pageWalk pgdir va True s;
     let s = s\<lparr>mem := store64 (mem s) pte (PA2PTE pa OR perm OR PTE_VALID)\<rparr>;
     if is_ram pa then do {
       page \<leftarrow> pa2page pa;
       Some (0, s\<lparr>page_ref := (page_ref s)(page := page_ref s page + 1)\<rparr>) }
     else Some (0, s) }"

definition allocPgdir :: "'z kmem_scheme \<Rightarrow> (nat \<times> 'z kmem_scheme) option" where
  "allocPgdir s = do {
     (page, s) \<leftarrow> pageAlloc s;
     Some (page, s\<lparr>page_ref := (page_ref s)(page := page_ref s page + 1)\<rparr>) }"

definition paDecreaseRef :: "u64 \<Rightarrow> 'z kmem_scheme \<Rightarrow> 'z kmem_scheme option" where
  "paDecreaseRef pa s = do {
     page \<leftarrow> pa2page pa;
     kassert (page < PHYSICAL_PAGE_NUM);
     let s = s\<lparr>page_ref := (page_ref s)(page := page_ref s page - 1)\<rparr>;
     kassert (page_ref s page = 0);
     Some (s\<lparr>page_links := LIST_INSERT_HEAD () page (page_links s)\<rparr>) }"

definition pgdirFree :: "u64 \<Rightarrow> 'z kmem_scheme \<Rightarrow> 'z kmem_scheme option" where
  "pgdirFree pgdir s = do {
     s \<leftarrow> kfor 0 512 (\<lambda>i s.
       if load64 (mem s) (pgdir + 8 * of_nat i) AND PTE_VALID = 0 then Some s
       else do {
         let pa = PTE2PA (load64 (mem s) (pgdir + 8 * of_nat i));
         s \<leftarrow> kfor 0 512 (\<lambda>j s.
           if load64 (mem s) (pa + 8 * of_nat j) AND PTE_VALID = 0 then Some s
           else do {
             let pa2 = PTE2PA (load64 (mem s) (pa + 8 * of_nat j));
             s \<leftarrow> kfor 0 512 (\<lambda>k s.
               if load64 (mem s) (pa2 + 8 * of_nat k) AND PTE_VALID = 0 then Some s
               else do {
                 let addr = push_bit 30 (of_nat i) OR push_bit 21 (of_nat j) OR push_bit 12 (of_nat k);
                 (r, s) \<leftarrow> pageRemove pgdir addr s;
                 Some s }) s;
             let s = s\<lparr>mem := store64 (mem s) (pa2 + 8 * of_nat j) 0\<rparr>;
             paDecreaseRef pa2 s }) s;
         paDecreaseRef pa s }) s;
     paDecreaseRef pgdir s }"

section \<open>Initial contents\<close>

definition zero_kmem :: kmem where
  "zero_kmem = kproc.extend zero_kproc (kmem.fields (\<lambda>_. 0) zero_lists (\<lambda>_. 0) (\<lambda>_. 0) 0 0 0 0 0 0 0)"

lemma zero_kmem_sel [simp]:
  "mem zero_kmem = (\<lambda>_. 0)" "page_links zero_kmem = zero_lists" "page_ref zero_kmem = (\<lambda>_. 0)"
  "threads zero_kmem = (\<lambda>_. zero_thread)" "processes zero_kmem = (\<lambda>_. zero_process)"
  "thread_links zero_kmem = zero_lists" "futexQueue zero_kmem = replicate FUTEX_COUNT zero_fq"
  by (simp_all add: zero_kmem_def kproc.defs kmem.defs zero_kproc_def)

end
