(* ===== verification/Page_Words.thy ===== *)
theory Page_Words
  imports Page
begin

text \<open>
  Address and page table entry arithmetic, and the 512 words of a physical page:
  how a store to one word or the clearing of a page changes the words of all pages.
\<close>

section \<open>Arithmetic of addresses and entries\<close>

lemma unat_page2pa: "p < PHYSICAL_PAGE_NUM \<Longrightarrow> unat (page2pa p) = 0x80000000 + 4096 * p"
proof -
  assume p: "p < PHYSICAL_PAGE_NUM"
  have "unat (push_bit 12 (of_nat p) :: u32) = 4096 * p"
    using p by (simp add: push_bit_eq_mult unat_word_ariths unat_of_nat)
  then have "unat (ucast (push_bit 12 (of_nat p) :: u32) :: u64) = 4096 * p"
    by (simp add: unat_ucast32)
  with p show ?thesis
    unfolding page2pa_def by (subst unat_add64) simp_all
qed

lemma page2pa_inj: "p < PHYSICAL_PAGE_NUM \<Longrightarrow> q < PHYSICAL_PAGE_NUM \<Longrightarrow> page2pa p = page2pa q \<longleftrightarrow> p = q"
  by (auto dest!: arg_cong [where f = unat] simp: unat_page2pa)

lemma page2pa_not_0: "p < PHYSICAL_PAGE_NUM \<Longrightarrow> page2pa p \<noteq> 0"
  by (auto dest: arg_cong [where f = unat] simp: unat_page2pa)

lemma page2pa_ram: "p < PHYSICAL_PAGE_NUM \<Longrightarrow> is_ram (page2pa p)"
  by (simp add: is_ram_def word_le_nat_alt word_less_nat_alt unat_page2pa)

lemma unat_drop_bit: "unat (drop_bit n (x :: u64)) = unat x div 2 ^ n"
proof -
  have "take_bit 64 (unat x) = unat x" by (rule take_bit_nat_eq_self) (rule unat_lt64)
  then have "unat (drop_bit n x) = drop_bit n (unat x)" by (simp add: unsigned_drop_bit_eq)
  then show ?thesis by (simp only: drop_bit_eq_div)
qed

lemma unat_take_bit: "n \<le> 64 \<Longrightarrow> unat (take_bit n (x :: u64)) = unat x mod 2 ^ n"
proof -
  assume "n \<le> 64"
  then have "unat (take_bit n x) = take_bit n (unat x)" by (simp add: unsigned_take_bit_eq)
  then show ?thesis by (simp only: take_bit_eq_mod)
qed

lemma pa2page_page2pa: "p < PHYSICAL_PAGE_NUM \<Longrightarrow> pa2page (page2pa p) = Some p"
proof -
  assume p: "p < PHYSICAL_PAGE_NUM"
  have "unat (page2pa p - PHYSICAL_ADDRESS_BASE) = 4096 * p"
    using unat_page2pa [OF p] by (simp add: unat_sub_if')
  then have "unat (drop_bit 12 (page2pa p - PHYSICAL_ADDRESS_BASE)) = p"
    by (simp add: unat_drop_bit)
  then have "unat (ucast (drop_bit 12 (page2pa p - PHYSICAL_ADDRESS_BASE)) :: u32) = p"
    using p by (simp add: unsigned_ucast_eq take_bit_nat_eq_self)
  with page2pa_not_0 [OF p] show ?thesis by (simp add: pa2page_def)
qed

lemma mask_54_10: "(push_bit 54 1 - push_bit 10 1 :: u64) = push_bit 10 (mask 44)"
  by (simp add: mask_eq_exp_minus_1 push_bit_eq_mult)

lemma bit_PTE2PA: "bit (PTE2PA e) n \<longleftrightarrow> 12 \<le> n \<and> n < 56 \<and> bit e (n - 2)"
  unfolding PTE2PA_def mask_54_10 by (auto simp: bit_simps dest: bit_word_bound)

lemma bit_PTE2PERM: "bit (PTE2PERM e) n \<longleftrightarrow> (n < 10 \<or> 54 \<le> n) \<and> bit e n"
  unfolding PTE2PERM_def mask_54_10 by (auto simp: bit_simps dest: bit_word_bound)

lemma bit_PA2PTE: "bit (PA2PTE pa) n \<longleftrightarrow> 10 \<le> n \<and> n < 64 \<and> bit pa (n + 2)"
  unfolding PA2PTE_def by (auto simp: bit_simps dest: bit_word_bound)

lemma DOWN_ALIGN_page: "DOWN_ALIGN x PAGE_SIZE = x AND NOT (mask 12)"
  by (simp add: DOWN_ALIGN_def mask_eq_exp_minus_1)

lemma bit_DOWN_ALIGN: "bit (DOWN_ALIGN x PAGE_SIZE) n \<longleftrightarrow> 12 \<le> n \<and> bit x n"
  unfolding DOWN_ALIGN_page by (auto simp: bit_simps dest: bit_word_bound)

lemma bit_1_word: "bit (1 :: u64) n \<longleftrightarrow> n = 0"
  by (simp add: bit_1_iff)

text \<open>An address and permission bits survive being packed in an entry.\<close>

definition perm_only :: "u64 \<Rightarrow> bool" where
  "perm_only perm \<longleftrightarrow> PTE2PERM perm = perm"

lemma perm_only_bit: "perm_only perm \<Longrightarrow> bit perm n \<Longrightarrow> n < 10 \<or> 54 \<le> n"
  unfolding perm_only_def by (metis bit_PTE2PERM)

lemma addr_lt_bit: "unat (pa :: u64) < 2 ^ k \<Longrightarrow> bit pa n \<Longrightarrow> n < k"
proof (rule ccontr)
  assume a: "unat pa < 2 ^ k" "bit pa n" "\<not> n < k"
  have "drop_bit k pa = 0" using a(1) by (metis div_less unat_drop_bit unat_eq_zero)
  moreover have "bit (drop_bit k pa) (n - k)" using a by (simp add: bit_drop_bit_eq)
  ultimately show False by simp
qed

lemma PTE2PA_pack:
  assumes "unat pa < 2 ^ 56" and "perm_only perm"
  shows "PTE2PA (PA2PTE pa OR perm) = DOWN_ALIGN pa PAGE_SIZE"
proof (rule bit_word_eqI)
  fix n :: nat assume "n < LENGTH(64)"
  show "bit (PTE2PA (PA2PTE pa OR perm)) n = bit (DOWN_ALIGN pa PAGE_SIZE) n"
  proof (cases "12 \<le> n \<and> n < 56")
    case True
    then have "n - 2 + 2 = n" "\<not> bit perm (n - 2)" using perm_only_bit [OF assms(2), of "n - 2"] by auto
    with True show ?thesis by (simp add: bit_PTE2PA bit_or_iff bit_PA2PTE bit_DOWN_ALIGN)
  next
    case False
    then show ?thesis using addr_lt_bit [OF assms(1), of n] by (auto simp: bit_PTE2PA bit_DOWN_ALIGN)
  qed
qed

lemma PTE2PERM_pack:
  assumes "unat pa < 2 ^ 56" and "perm_only perm"
  shows "PTE2PERM (PA2PTE pa OR perm) = perm"
proof (rule bit_word_eqI)
  fix n :: nat
  show "bit (PTE2PERM (PA2PTE pa OR perm)) n = bit perm n"
  proof (cases "n < 10 \<or> 54 \<le> n")
    case True
    then have "\<not> bit (PA2PTE pa) n" using addr_lt_bit [OF assms(1), of "n + 2"] by (auto simp: bit_PA2PTE)
    with True show ?thesis by (simp add: bit_PTE2PERM bit_or_iff)
  next
    case False
    then show ?thesis using perm_only_bit [OF assms(2), of n] by (auto simp: bit_PTE2PERM)
  qed
qed

lemma perm_only_or: "perm_only a \<Longrightarrow> perm_only b \<Longrightarrow> perm_only (a OR b)"
  unfolding perm_only_def by (auto simp: bit_eq_iff bit_PTE2PERM bit_or_iff)

lemma perm_only_numeral [simp]:
  "perm_only 1" "perm_only PTE_READ" "perm_only PTE_WRITE" "perm_only PTE_EXECUTE" "perm_only PTE_USER"
  "perm_only PTE_ACCESSED" "perm_only PTE_DIRTY" "perm_only PTE_COW"
  by (simp_all add: perm_only_def PTE2PERM_def)

lemma DOWN_ALIGN_page2pa [simp]: "p < PHYSICAL_PAGE_NUM \<Longrightarrow> DOWN_ALIGN (page2pa p) PAGE_SIZE = page2pa p"
proof -
  assume p: "p < PHYSICAL_PAGE_NUM"
  have "page2pa p AND mask 12 = take_bit 12 (page2pa p)" by (simp add: take_bit_eq_mask)
  also have "\<dots> = 0"
  proof -
    have "unat (take_bit 12 (page2pa p)) = unat (page2pa p) mod 2 ^ 12"
      by (simp only: unat_take_bit)
    also have "\<dots> = 0" using unat_page2pa [OF p] by (simp add: mod_eq_0_iff_dvd)
    finally show ?thesis by (simp add: unat_eq_zero)
  qed
  finally have "page2pa p AND mask 12 = 0" .
  then show ?thesis
    unfolding DOWN_ALIGN_page bit_eq_iff by (auto simp: bit_simps dest: bit_word_bound)
qed

lemma PTE2PA_page2pte: "p < PHYSICAL_PAGE_NUM \<Longrightarrow> PTE2PA (page2pte p OR PTE_VALID) = page2pa p"
proof -
  assume p: "p < PHYSICAL_PAGE_NUM"
  have "page2pte p = PA2PTE (page2pa p)" by (simp add: page2pte_def PA2PTE_def)
  moreover have "PTE2PA (PA2PTE (page2pa p) OR PTE_VALID) = DOWN_ALIGN (page2pa p) PAGE_SIZE"
    using unat_page2pa [OF p] p by (intro PTE2PA_pack) simp_all
  ultimately show ?thesis using p by simp
qed

section \<open>Words of a page\<close>

definition cells :: "bytes \<Rightarrow> nat \<Rightarrow> nat \<Rightarrow> u64" where
  "cells m p i = load64 m (page2pa p + 8 * of_nat i)"

lemma unat_cell_addr:
  assumes "p < PHYSICAL_PAGE_NUM" and "i < 512"
  shows "unat (page2pa p + 8 * of_nat i) = 0x80000000 + 4096 * p + 8 * i"
proof -
  have "unat (8 * of_nat i :: u64) = 8 * i"
    using assms(2) by (simp add: unat_word_ariths unat_of_nat)
  then show ?thesis using assms by (subst unat_add64) (simp_all add: unat_page2pa)
qed

lemma cell_addr_not_0: "p < PHYSICAL_PAGE_NUM \<Longrightarrow> i < 512 \<Longrightarrow> page2pa p + 8 * of_nat i \<noteq> 0"
  by (auto dest!: arg_cong [where f = unat] simp: unat_cell_addr)

lemma cells_store:
  assumes "p < PHYSICAL_PAGE_NUM" "i < 512" "q < PHYSICAL_PAGE_NUM" "j < 512"
  shows "cells (store64 m (page2pa p + 8 * of_nat i) v) q j = (if q = p \<and> j = i then v else cells m q j)"
proof (cases "q = p \<and> j = i")
  case True
  then show ?thesis by (simp add: cells_def)
next
  case False
  have "page2pa p + 8 * of_nat i \<noteq> page2pa q + 8 * of_nat j"
  proof
    assume "page2pa p + 8 * of_nat i = page2pa q + 8 * of_nat j"
    then have eq: "4096 * p + 8 * i = 4096 * q + 8 * j"
      using unat_cell_addr [OF assms(1,2)] unat_cell_addr [OF assms(3,4)] by simp
    have "(4096 * p + 8 * i) div 4096 = p" "(4096 * q + 8 * j) div 4096 = q" using assms by simp_all
    with eq have "p = q" by simp
    with eq False show False by simp
  qed
  moreover have "8 dvd unat (page2pa x + 8 * of_nat y)" if "x < PHYSICAL_PAGE_NUM" "y < 512" for x y
  proof -
    have "unat (page2pa x + 8 * of_nat y) = 8 * (0x10000000 + 512 * x + y)"
      unfolding unat_cell_addr [OF that] by simp
    then show ?thesis by simp
  qed
  ultimately have "apart (page2pa p + 8 * of_nat i) 8 (page2pa q + 8 * of_nat j) 8"
    using assms by (intro aligned8_apart)
  with False show ?thesis by (auto simp: cells_def load64_store64_apart)
qed

lemma load_le_zero: "(\<And>k. k < n \<Longrightarrow> m (a + of_nat k) = 0) \<Longrightarrow> load_le n m a = 0"
proof (induction n arbitrary: a)
  case (Suc n)
  have "load_le n m (a + 1) = 0"
    using Suc.prems [of "Suc _"] by (intro Suc.IH) (simp add: ac_simps)
  with Suc.prems [of 0] show ?case by simp
qed simp

lemma unat_cell_byte:
  assumes "p < PHYSICAL_PAGE_NUM" and "i < 512" "k < 8"
  shows "unat (page2pa p + 8 * of_nat i + of_nat k) = 0x80000000 + 4096 * p + 8 * i + k"
proof -
  have "unat (of_nat k :: u64) = k" using assms(3) by (simp add: unat_of_nat)
  then show ?thesis using assms by (subst unat_add64) (simp_all add: unat_cell_addr)
qed

lemma in_page_iff:
  assumes "p < PHYSICAL_PAGE_NUM"
  shows "in_range a (page2pa p) 4096 \<longleftrightarrow> 0x80000000 + 4096 * p \<le> unat a \<and> unat a < 0x80000000 + 4096 * p + 4096"
  using unat_page2pa [OF assms] unat_lt64 [of a] assms
  by (auto simp: in_range_def unat_sub_if')

text \<open>Words only depend on the bytes of their page.\<close>

lemma cells_cong:
  assumes "q < PHYSICAL_PAGE_NUM" "j < 512" and "\<And>a. in_range a (page2pa q) 4096 \<Longrightarrow> m a = m' a"
  shows "cells m q j = cells m' q j"
  unfolding cells_def load64_def
proof (rule load_le_cong)
  fix k :: nat assume "k < 8"
  then show "m (page2pa q + 8 * of_nat j + of_nat k) = m' (page2pa q + 8 * of_nat j + of_nat k)"
    using assms(1,2) unat_cell_byte [OF assms(1,2)] by (intro assms(3)) (simp add: in_page_iff)
qed

lemma cells_fill:
  assumes "p < PHYSICAL_PAGE_NUM" "q < PHYSICAL_PAGE_NUM" "j < 512"
  shows "cells (fill m (page2pa p) 4096 0) q j = (if q = p then 0 else cells m q j)"
proof -
  show ?thesis
  proof (cases "q = p")
    case True
    have "in_range (page2pa p + 8 * of_nat j + of_nat k) (page2pa p) 4096" if "k < 8" for k
      unfolding in_page_iff [OF assms(1)] unat_cell_byte [OF assms(1,3) that] using assms that by simp
    then have "load_le 8 (fill m (page2pa p) 4096 0) (page2pa p + 8 * of_nat j) = 0"
      by (intro load_le_zero) (simp add: fill_def)
    with True show ?thesis by (simp add: cells_def load64_def)
  next
    case False
    then have "\<not> in_range a (page2pa p) 4096" if "in_range a (page2pa q) 4096" for a
      using that in_page_iff [OF assms(1), of a] in_page_iff [OF assms(2), of a] by auto
    then have "cells (fill m (page2pa p) 4096 0) q j = cells m q j"
      by (intro cells_cong [OF assms(2,3)]) (simp add: fill_def)
    with False show ?thesis by simp
  qed
qed

lemma store_cell_other:
  assumes "p < PHYSICAL_PAGE_NUM" "i < 512" and "\<not> in_range a (page2pa p) 4096"
  shows "store64 m (page2pa p + 8 * of_nat i) v a = m a"
proof (rule store64_other)
  have "\<not> (0x80000000 + 4096 * p \<le> unat a \<and> unat a < 0x80000000 + 4096 * p + 4096)"
    using assms(3) in_page_iff [OF assms(1)] by simp
  then show "\<not> in_range a (page2pa p + 8 * of_nat i) 8"
    using assms(1,2) unat_cell_addr [OF assms(1,2)] unat_lt64 [of a]
    by (auto simp: in_range_def unat_sub_if')
qed

end
