(* ===== verification/Page_Table.thy ===== *)
theory Page_Table
  imports Page_Words
begin

text \<open>
  Page tables as maps. The words of a page table tree in memory are read off as
  \<open>cells\<close>; \<open>pt_entry\<close> is the entry the tree holds for a triple of indices, zero when a table is
  missing. The invariant \<open>pt_inv\<close> says that the tables of the tree are distinct pages,
  none of them free or mapped, and that reference counts cover the mappings.
  \<^verbatim>\<open>pageInsert\<close> and \<^verbatim>\<open>pageRemove\<close> keep it and update exactly one entry of the map.
\<close>

section \<open>The tree of tables\<close>

definition ppn :: "u64 \<Rightarrow> nat" where
  "ppn e = unat (drop_bit 12 (PTE2PA e - PHYSICAL_ADDRESS_BASE))"

lemma ppn_eq: "PTE2PA e = page2pa p \<Longrightarrow> p < PHYSICAL_PAGE_NUM \<Longrightarrow> ppn e = p"
  using unat_page2pa [of p] by (simp add: ppn_def unat_drop_bit unat_sub_if')

lemma ppn_page2pte: "p < PHYSICAL_PAGE_NUM \<Longrightarrow> ppn (page2pte p OR PTE_VALID) = p"
  by (simp add: ppn_eq PTE2PA_page2pte)

lemma page2pte_not_0: "page2pte p OR PTE_VALID \<noteq> 0"
proof
  assume "page2pte p OR PTE_VALID = 0"
  then have "bit (page2pte p OR PTE_VALID) 0 = bit (0 :: u64) 0" by (rule arg_cong)
  then show False by (simp add: bit_or_iff)
qed

datatype node = Root | Mid nat | Leaf nat nat

fun valid_node :: "node \<Rightarrow> bool" where
  "valid_node Root \<longleftrightarrow> True"
| "valid_node (Mid i) \<longleftrightarrow> i < 512"
| "valid_node (Leaf i j) \<longleftrightarrow> i < 512 \<and> j < 512"

fun node_page :: "(nat \<Rightarrow> nat \<Rightarrow> u64) \<Rightarrow> nat \<Rightarrow> node \<Rightarrow> nat option" where
  "node_page c r Root = Some r"
| "node_page c r (Mid i) = (if c r i = 0 then None else Some (ppn (c r i)))"
| "node_page c r (Leaf i j) = (if c r i = 0 \<or> c (ppn (c r i)) j = 0 then None
     else Some (ppn (c (ppn (c r i)) j)))"

definition pt_entry :: "(nat \<Rightarrow> nat \<Rightarrow> u64) \<Rightarrow> nat \<Rightarrow> nat \<Rightarrow> nat \<Rightarrow> nat \<Rightarrow> u64" where
  "pt_entry c r i j k = (case node_page c r (Leaf i j) of None \<Rightarrow> 0 | Some p \<Rightarrow> c p k)"

definition table_ok :: "(nat \<Rightarrow> nat \<Rightarrow> u64) \<Rightarrow> nat \<Rightarrow> nat set \<Rightarrow> bool" where
  "table_ok c r F \<longleftrightarrow>
     (\<forall>n p. valid_node n \<longrightarrow> node_page c r n = Some p \<longrightarrow> p < PHYSICAL_PAGE_NUM \<and> p \<notin> F)
   \<and> (\<forall>n n' p. valid_node n \<longrightarrow> valid_node n' \<longrightarrow> node_page c r n = Some p \<longrightarrow> node_page c r n' = Some p \<longrightarrow> n = n')
   \<and> (\<forall>i < 512. c r i \<noteq> 0 \<longrightarrow> PTE2PA (c r i) = page2pa (ppn (c r i)))
   \<and> (\<forall>i < 512. \<forall>j < 512. \<forall>p. node_page c r (Mid i) = Some p \<longrightarrow> c p j \<noteq> 0 \<longrightarrow> PTE2PA (c p j) = page2pa (ppn (c p j)))"

lemma table_okD:
  assumes "table_ok c r F"
  shows "valid_node n \<Longrightarrow> node_page c r n = Some p \<Longrightarrow> p < PHYSICAL_PAGE_NUM"
    and "valid_node n \<Longrightarrow> node_page c r n = Some p \<Longrightarrow> p \<notin> F"
    and "valid_node n \<Longrightarrow> valid_node n' \<Longrightarrow> node_page c r n = Some p \<Longrightarrow> node_page c r n' = Some p \<Longrightarrow> n = n'"
    and "i < 512 \<Longrightarrow> c r i \<noteq> 0 \<Longrightarrow> PTE2PA (c r i) = page2pa (ppn (c r i))"
    and "i < 512 \<Longrightarrow> j < 512 \<Longrightarrow> node_page c r (Mid i) = Some p \<Longrightarrow> c p j \<noteq> 0 \<Longrightarrow> PTE2PA (c p j) = page2pa (ppn (c p j))"
    and "r < PHYSICAL_PAGE_NUM" and "r \<notin> F"
  using assms [unfolded table_ok_def, THEN conjunct1, rule_format, of Root r] assms
  unfolding table_ok_def by (blast, blast, blast, blast, blast, simp_all)

text \<open>Two memories whose words agree on the tables hold the same tree.\<close>

lemma node_page_cong:
  assumes "table_ok c r F"
    and "\<And>n p k. valid_node n \<Longrightarrow> node_page c r n = Some p \<Longrightarrow> k < 512 \<Longrightarrow> (\<forall>i j. n \<noteq> Leaf i j) \<Longrightarrow> c' p k = c p k"
    and "valid_node n"
  shows "node_page c' r n = node_page c r n"
proof (cases n)
  case Root
  then show ?thesis by simp
next
  case (Mid i)
  then show ?thesis using assms(2) [of Root r i] assms(3) by simp
next
  case (Leaf i j)
  have 1: "c' r i = c r i" using assms(2) [of Root r i] assms(3) Leaf by simp
  show ?thesis
  proof (cases "c r i = 0")
    case True
    with 1 Leaf show ?thesis by simp
  next
    case False
    then have "c' (ppn (c r i)) j = c (ppn (c r i)) j"
      using assms(2) [of "Mid i" "ppn (c r i)" j] assms(3) Leaf by simp
    with 1 Leaf show ?thesis by simp
  qed
qed

text \<open>A new, zeroed table linked from the root, or from a middle table.\<close>

definition link_table :: "(nat \<Rightarrow> nat \<Rightarrow> u64) \<Rightarrow> nat \<Rightarrow> nat \<Rightarrow> nat \<Rightarrow> nat \<Rightarrow> nat \<Rightarrow> u64" where
  "link_table c p i q = (\<lambda>p' i'. if p' = q then 0 else if p' = p \<and> i' = i then page2pte q OR PTE_VALID else c p' i')"

lemma link_mid_node:
  assumes ok: "table_ok c r (insert q F)" and q: "q < PHYSICAL_PAGE_NUM" and i: "i < 512" and z: "c r i = 0"
    and v: "valid_node n"
  shows "node_page (link_table c r i q) r n = (if n = Mid i then Some q else node_page c r n)"
proof -
  have rq: "r \<noteq> q" using table_okD(7) [OF ok] by auto
  have mq: "ppn (c r a) \<noteq> q" if "a < 512" "c r a \<noteq> 0" for a
    using table_okD(2) [OF ok, of "Mid a" "ppn (c r a)"] that by auto
  have mr: "ppn (c r a) \<noteq> r" if "a < 512" "c r a \<noteq> 0" for a
    using table_okD(3) [OF ok, of "Mid a" Root r] that by auto
  show ?thesis
    using v rq mq mr z ppn_page2pte [OF q] page2pte_not_0 [of q]
    by (cases n) (auto simp: link_table_def)
qed

lemma link_leaf_node:
  assumes ok: "table_ok c r (insert q F)" and q: "q < PHYSICAL_PAGE_NUM" and i: "i < 512" and j: "j < 512"
    and p: "node_page c r (Mid i) = Some p" and z: "c p j = 0" and v: "valid_node n"
  shows "node_page (link_table c p j q) r n = (if n = Leaf i j then Some q else node_page c r n)"
proof -
  have rq: "r \<noteq> q" using table_okD(7) [OF ok] by auto
  have pr: "p \<noteq> r" using table_okD(3) [OF ok, of "Mid i" Root p] i p by auto
  have mq: "ppn (c r a) \<noteq> q" if "a < 512" "c r a \<noteq> 0" for a
    using table_okD(2) [OF ok, of "Mid a" "ppn (c r a)"] that by auto
  have mi: "ppn (c r a) = p \<longleftrightarrow> a = i" if "a < 512" "c r a \<noteq> 0" for a
    using table_okD(3) [OF ok, of "Mid a" "Mid i" p] that i p by (auto split: if_splits)
  show ?thesis
    using v rq pr mq mi z p ppn_page2pte [OF q] page2pte_not_0 [of q]
    by (cases n) (auto simp: link_table_def split: if_splits)
qed

lemma table_ok_link_mid:
  assumes ok: "table_ok c r (insert q F)" and q: "q < PHYSICAL_PAGE_NUM" "q \<notin> F" and i: "i < 512" and z: "c r i = 0"
  shows "table_ok (link_table c r i q) r F"
proof -
  note np = link_mid_node [OF ok q(1) i z]
  note D = table_okD [OF ok]
  have nq: "node_page c r n \<noteq> Some q" if "valid_node n" for n using D(2) [OF that, of q] by auto
  show ?thesis
    unfolding table_ok_def
  proof (intro conjI allI impI)
    fix n p assume v: "valid_node n" and p: "node_page (link_table c r i q) r n = Some p"
    show "p < PHYSICAL_PAGE_NUM" "p \<notin> F"
      using p D(1,2) [OF v] q by (auto simp: np [OF v] split: if_splits)
  next
    fix n n' p assume v: "valid_node n" "valid_node n'"
      and p: "node_page (link_table c r i q) r n = Some p" "node_page (link_table c r i q) r n' = Some p"
    show "n = n'"
      using p D(3) [OF v] nq v by (auto simp: np split: if_splits)
  next
    fix a :: nat assume a: "a < 512" "link_table c r i q r a \<noteq> 0"
    show "PTE2PA (link_table c r i q r a) = page2pa (ppn (link_table c r i q r a))"
      using a D(4) [of a] D(7) q by (auto simp: link_table_def PTE2PA_page2pte ppn_page2pte split: if_splits)
  next
    fix a b p assume a: "a < 512" "b < 512" "node_page (link_table c r i q) r (Mid a) = Some p"
      "link_table c r i q p b \<noteq> 0"
    have p: "p \<noteq> q" using a(4) by (auto simp: link_table_def)
    then have o: "node_page c r (Mid a) = Some p" using a(1,3) by (simp only: np valid_node.simps) (simp split: if_splits)
    moreover have "p \<noteq> r" using D(3) [of "Mid a" Root p] a(1) o by auto
    ultimately show "PTE2PA (link_table c r i q p b) = page2pa (ppn (link_table c r i q p b))"
      using p a D(5) [of a b p] by (auto simp: link_table_def)
  qed
qed

lemma pt_entry_link_mid:
  assumes ok: "table_ok c r (insert q F)" and q: "q < PHYSICAL_PAGE_NUM" and i: "i < 512" and z: "c r i = 0"
    and v: "a < 512" "b < 512"
  shows "pt_entry (link_table c r i q) r a b k = pt_entry c r a b k"
proof (cases "node_page c r (Leaf a b)")
  case None
  then show ?thesis
    using link_mid_node [OF ok q i z, of "Leaf a b"] v by (simp add: pt_entry_def)
next
  case (Some p)
  have "p \<noteq> q" "p \<noteq> r"
    using table_okD(2) [OF ok, of "Leaf a b" p] table_okD(3) [OF ok, of "Leaf a b" Root p] Some v by auto
  with Some show ?thesis
    using link_mid_node [OF ok q i z, of "Leaf a b"] v by (simp add: pt_entry_def link_table_def)
qed

lemma table_ok_link_leaf:
  assumes ok: "table_ok c r (insert q F)" and q: "q < PHYSICAL_PAGE_NUM" "q \<notin> F" and i: "i < 512" and j: "j < 512"
    and p0: "node_page c r (Mid i) = Some p0" and z: "c p0 j = 0"
  shows "table_ok (link_table c p0 j q) r F"
proof -
  note np = link_leaf_node [OF ok q(1) i j p0 z]
  note D = table_okD [OF ok]
  have nq: "node_page c r n \<noteq> Some q" if "valid_node n" for n using D(2) [OF that, of q] by auto
  have rp: "r \<noteq> p0" using D(3) [of "Mid i" Root p0] i p0 by auto
  show ?thesis
    unfolding table_ok_def
  proof (intro conjI allI impI)
    fix n p assume v: "valid_node n" and p: "node_page (link_table c p0 j q) r n = Some p"
    show "p < PHYSICAL_PAGE_NUM" "p \<notin> F"
      using p D(1,2) [OF v] q by (auto simp: np [OF v] split: if_splits)
  next
    fix n n' p assume v: "valid_node n" "valid_node n'"
      and p: "node_page (link_table c p0 j q) r n = Some p" "node_page (link_table c p0 j q) r n' = Some p"
    show "n = n'"
      using p D(3) [OF v] nq v by (auto simp: np split: if_splits)
  next
    fix a :: nat assume a: "a < 512" "link_table c p0 j q r a \<noteq> 0"
    show "PTE2PA (link_table c p0 j q r a) = page2pa (ppn (link_table c p0 j q r a))"
      using a D(4) [of a] D(7) rp by (auto simp: link_table_def)
  next
    fix a b p assume a: "a < 512" "b < 512" "node_page (link_table c p0 j q) r (Mid a) = Some p"
      "link_table c p0 j q p b \<noteq> 0"
    have p: "p \<noteq> q" using a(4) by (auto simp: link_table_def)
    then have o: "node_page c r (Mid a) = Some p" using a(1,3) by (simp only: np valid_node.simps) simp
    then show "PTE2PA (link_table c p0 j q p b) = page2pa (ppn (link_table c p0 j q p b))"
      using p a D(5) [of a b p] q by (auto simp: link_table_def PTE2PA_page2pte ppn_page2pte)
  qed
qed

lemma pt_entry_link_leaf:
  assumes ok: "table_ok c r (insert q F)" and q: "q < PHYSICAL_PAGE_NUM" and i: "i < 512" and j: "j < 512"
    and p0: "node_page c r (Mid i) = Some p0" and z: "c p0 j = 0"
    and v: "a < 512" "b < 512"
  shows "pt_entry (link_table c p0 j q) r a b k = pt_entry c r a b k"
proof (cases "Leaf a b = Leaf i j")
  case True
  have "c r i \<noteq> 0" "ppn (c r i) = p0" using p0 by (auto split: if_splits)
  with True z have "node_page c r (Leaf a b) = None" by simp
  with True show ?thesis
    using link_leaf_node [OF ok q i j p0 z, of "Leaf a b"] v by (simp add: pt_entry_def link_table_def)
next
  case False
  have "valid_node (Leaf a b)" using v by simp
  from link_leaf_node [OF ok q i j p0 z this] False
  have np: "node_page (link_table c p0 j q) r (Leaf a b) = node_page c r (Leaf a b)"
    by (simp only: if_False)
  show ?thesis
  proof (cases "node_page c r (Leaf a b)")
    case None
    then show ?thesis unfolding pt_entry_def np by simp
  next
    case (Some p)
    have "p \<noteq> q" "p \<noteq> p0"
      using table_okD(2) [OF ok, of "Leaf a b" p] table_okD(3) [OF ok, of "Leaf a b" "Mid i" p] Some v i p0 by auto
    with Some show ?thesis unfolding pt_entry_def np by (simp add: link_table_def)
  qed
qed

section \<open>Allocation and the walk\<close>

abbreviation pcells :: "'z kmem_scheme \<Rightarrow> nat \<Rightarrow> nat \<Rightarrow> u64" where
  "pcells s \<equiv> cells (mem s)"

definition free_ok :: "'z kmem_scheme \<Rightarrow> nat list \<Rightarrow> bool" where
  "free_ok s F \<longleftrightarrow> lists_abs (page_links s) (\<lambda>_. F) \<and> set F \<subseteq> {..<PHYSICAL_PAGE_NUM}"

lemma free_ok_distinct: "free_ok s F \<Longrightarrow> distinct F"
  by (auto simp: free_ok_def dest: lists_absD(2))

text \<open>Only the memory, the free list, the counts and the hart of pages change.\<close>

definition only_mem :: "'z kmem_scheme \<Rightarrow> 'z kmem_scheme \<Rightarrow> bool" where
  "only_mem s t \<longleftrightarrow> t = s\<lparr>mem := mem t, page_links := page_links t, page_ref := page_ref t, page_hart := page_hart t\<rparr>"

lemma only_mem_refl [simp]: "only_mem s s"
  by (simp add: only_mem_def)

lemma only_mem_trans: "only_mem s t \<Longrightarrow> only_mem t u \<Longrightarrow> only_mem s u"
  unfolding only_mem_def by (erule ssubst, erule ssubst) simp

lemma only_mem_upd [simp]:
  "only_mem s (s\<lparr>mem := m\<rparr>)" "only_mem s (s\<lparr>page_ref := f\<rparr>)" "only_mem s (s\<lparr>page_links := l\<rparr>)"
  by (simp_all add: only_mem_def)

lemma pageAlloc_empty: "free_ok s [] \<Longrightarrow> pageAlloc s = None"
  using lists_abs_first [of "page_links s" "\<lambda>_. []" "()"] by (simp add: free_ok_def pageAlloc_def)

lemma pageAlloc_Cons:
  assumes "free_ok s (q # F)"
  shows "\<exists>t. pageAlloc s = Some (q, t) \<and> free_ok t F \<and> mem t = fill (mem s) (page2pa q) 4096 0
           \<and> page_ref t = page_ref s \<and> only_mem s t"
proof -
  have abs: "lists_abs (page_links s) (\<lambda>_. q # F)" and q: "q < PHYSICAL_PAGE_NUM" and F: "set F \<subseteq> {..<PHYSICAL_PAGE_NUM}"
    using assms by (auto simp: free_ok_def)
  have f: "LIST_FIRST () (page_links s) = Some q" using lists_abs_first [OF abs, of "()"] by simp
  obtain l where l: "LIST_REMOVE q (page_links s) = Some l"
    "lists_abs l ((\<lambda>_. q # F)(() := remove1 q (q # F)))"
    using lists_abs_remove [OF abs, of q "()"] by auto
  have "((\<lambda>_. q # F)(() := remove1 q (q # F))) = (\<lambda>_. F)" by (auto simp: fun_eq_iff)
  with l have l2: "lists_abs l (\<lambda>_. F)" by simp
  have z: "bzero (mem s) (page2pa q) 4096 = fill (mem s) (page2pa q) 4096 0"
    using unat_page2pa [OF q] q by (subst bzero_eq) simp_all
  show ?thesis
    using f l(1) l2 F z by (simp add: pageAlloc_def free_ok_def only_mem_def)
qed

definition ix :: "u64 \<Rightarrow> nat \<Rightarrow> nat" where
  "ix va l = unat (GET_PAGE_TABLE_INDEX va l)"

lemma ix_less: "ix va l < 512"
proof -
  have "drop_bit (12 + 9 * l) va AND 0x1FF = take_bit 9 (drop_bit (12 + 9 * l) va)"
    by (simp add: take_bit_eq_mask mask_eq_exp_minus_1)
  then have "ix va l = unat (drop_bit (12 + 9 * l) va) mod 2 ^ 9"
    by (simp add: ix_def GET_PAGE_TABLE_INDEX_def unat_take_bit del: take_bit_drop_bit)
  then show ?thesis by simp
qed

lemma index_ix: "GET_PAGE_TABLE_INDEX va l = of_nat (ix va l)"
  by (simp add: ix_def)

lemma pageWalk_level_present:
  "pcells s p x \<noteq> 0 \<Longrightarrow> pageWalk_level (page2pa p + 8 * of_nat x) create s
     = Some (Some (PTE2PA (pcells s p x)), s)"
  by (simp add: pageWalk_level_def cells_def)

lemma pageWalk_level_absent:
  "pcells s p x = 0 \<Longrightarrow> pageWalk_level (page2pa p + 8 * of_nat x) False s = Some (None, s)"
  by (simp add: pageWalk_level_def cells_def)

lemma pageWalk_False:
  assumes ok: "table_ok (pcells s) r F"
  shows "pageWalk (page2pa r) va False s = Some
     ((case node_page (pcells s) r (Leaf (ix va 2) (ix va 1)) of None \<Rightarrow> 0
       | Some p \<Rightarrow> page2pa p + 8 * of_nat (ix va 0)), s)"
proof -
  let ?i = "ix va 2" and ?j = "ix va 1"
  show ?thesis
  proof (cases "pcells s r ?i = 0")
    case True
    then show ?thesis by (simp add: pageWalk_def index_ix pageWalk_level_absent)
  next
    case False
    let ?p = "ppn (pcells s r ?i)"
    have p: "PTE2PA (pcells s r ?i) = page2pa ?p"
      using table_okD(4) [OF ok ix_less False] .
    show ?thesis
    proof (cases "pcells s ?p ?j = 0")
      case True
      with False p show ?thesis
        by (simp add: pageWalk_def index_ix pageWalk_level_absent pageWalk_level_present)
    next
      case F2: False
      have "PTE2PA (pcells s ?p ?j) = page2pa (ppn (pcells s ?p ?j))"
        using table_okD(5) [OF ok, of ?i ?j ?p] F2 False ix_less by simp
      with False F2 p show ?thesis
        by (simp add: pageWalk_def index_ix pageWalk_level_present)
    qed
  qed
qed

text \<open>A lookup reads the map.\<close>

lemma pageLookup_eq:
  assumes ok: "table_ok (pcells s) r F"
  shows "pageLookup (page2pa r) va s =
     (let e = pt_entry (pcells s) r (ix va 2) (ix va 1) (ix va 0)
      in if e AND PTE_VALID = 0 then (0, None)
         else (PTE2PA e, map_option (\<lambda>p. page2pa p + 8 * of_nat (ix va 0))
                 (node_page (pcells s) r (Leaf (ix va 2) (ix va 1)))))"
proof (cases "node_page (pcells s) r (Leaf (ix va 2) (ix va 1))")
  case None
  then show ?thesis unfolding pageLookup_def pageWalk_False [OF ok] by (simp only: pt_entry_def) simp
next
  case (Some p)
  have "p < PHYSICAL_PAGE_NUM" using table_okD(1) [OF ok _ Some] ix_less by simp
  then have "page2pa p + 8 * of_nat (ix va 0) \<noteq> 0" using cell_addr_not_0 ix_less by blast
  with Some show ?thesis
    unfolding pageLookup_def pageWalk_False [OF ok] by (simp only: pt_entry_def) (simp add: cells_def)
qed

section \<open>Making tables\<close>

definition tables :: "(nat \<Rightarrow> nat \<Rightarrow> u64) \<Rightarrow> nat \<Rightarrow> nat set" where
  "tables c r = {p. \<exists>n. valid_node n \<and> node_page c r n = Some p}"

text \<open>
  \<open>grows r F s F' s'\<close>: from \<open>s\<close> to \<open>s'\<close> some free pages became tables of the tree at \<open>r\<close>;
  the map the tree holds is the same.
\<close>

definition grows :: "nat \<Rightarrow> nat list \<Rightarrow> 'z kmem_scheme \<Rightarrow> nat list \<Rightarrow> 'z kmem_scheme \<Rightarrow> bool" where
  "grows r F s F' s' \<longleftrightarrow> free_ok s' F' \<and> (\<exists>G. F = G @ F') \<and> only_mem s s'
   \<and> table_ok (pcells s') r (set F')
   \<and> (\<forall>a < 512. \<forall>b < 512. \<forall>k < 512. pt_entry (pcells s') r a b k = pt_entry (pcells s) r a b k)
   \<and> (\<forall>n p. valid_node n \<longrightarrow> node_page (pcells s) r n = Some p \<longrightarrow> node_page (pcells s') r n = Some p)
   \<and> tables (pcells s') r \<subseteq> tables (pcells s) r \<union> (set F - set F')
   \<and> (\<forall>p. p \<notin> set F - set F' \<longrightarrow> page_ref s' p = page_ref s p)
   \<and> (\<forall>a. (\<forall>p \<in> tables (pcells s') r. \<not> in_range a (page2pa p) 4096) \<longrightarrow> mem s' a = mem s a)"

lemma growsD:
  assumes "grows r F s F' s'"
  shows "free_ok s' F'" "\<exists>G. F = G @ F'" "only_mem s s'" "table_ok (pcells s') r (set F')"
    "a < 512 \<Longrightarrow> b < 512 \<Longrightarrow> k < 512 \<Longrightarrow> pt_entry (pcells s') r a b k = pt_entry (pcells s) r a b k"
    "valid_node n \<Longrightarrow> node_page (pcells s) r n = Some p \<Longrightarrow> node_page (pcells s') r n = Some p"
    "tables (pcells s') r \<subseteq> tables (pcells s) r \<union> (set F - set F')"
    "p \<notin> set F - set F' \<Longrightarrow> page_ref s' p = page_ref s p"
    "(\<And>p. p \<in> tables (pcells s') r \<Longrightarrow> \<not> in_range x (page2pa p) 4096) \<Longrightarrow> mem s' x = mem s x"
  using assms unfolding grows_def by auto

lemma grows_refl: "free_ok s F \<Longrightarrow> table_ok (pcells s) r (set F) \<Longrightarrow> grows r F s F s"
  by (simp add: grows_def)

lemma grows_tables_mono: "grows r F s F' s' \<Longrightarrow> tables (pcells s) r \<subseteq> tables (pcells s') r"
  by (auto simp: tables_def dest: growsD(6))

lemma grows_trans:
  assumes 1: "grows r F s F' s'" and 2: "grows r F' s' F'' s''"
  shows "grows r F s F'' s''"
proof -
  obtain G G' where G: "F = G @ F'" "F' = G' @ F''" using growsD(2) [OF 1] growsD(2) [OF 2] by blast
  then have sub: "set F' \<subseteq> set F" "set F'' \<subseteq> set F'" by auto
  have "mem s'' a = mem s a" if a: "\<And>p. p \<in> tables (pcells s'') r \<Longrightarrow> \<not> in_range a (page2pa p) 4096" for a
  proof -
    have "mem s'' a = mem s' a" using growsD(9) [OF 2] a by blast
    also have "mem s' a = mem s a"
      using growsD(9) [OF 1] a grows_tables_mono [OF 2] by blast
    finally show ?thesis .
  qed
  moreover have "page_ref s'' p = page_ref s p" if "p \<notin> set F - set F''" for p
  proof -
    have "p \<notin> set F - set F'" "p \<notin> set F' - set F''" using that sub by auto
    then show ?thesis using growsD(8) [OF 1] growsD(8) [OF 2] by simp
  qed
  moreover have "tables (pcells s'') r \<subseteq> tables (pcells s) r \<union> (set F - set F'')"
    using growsD(7) [OF 1] growsD(7) [OF 2] sub by auto
  ultimately show ?thesis
    unfolding grows_def
    using growsD(1,3,4) [OF 2] growsD(6) [OF 1] growsD(6) [OF 2] only_mem_trans [OF growsD(3) [OF 1] growsD(3) [OF 2]]
      growsD(5) [OF 1] growsD(5) [OF 2] G by auto
qed

text \<open>What one level of the walk leaves behind when it makes a table.\<close>

lemma pageWalk_level_create:
  assumes free: "free_ok s (q # F)" and p: "p < PHYSICAL_PAGE_NUM" "p \<noteq> q" and x: "x < 512"
    and z: "pcells s p x = 0"
  shows "\<exists>t. pageWalk_level (page2pa p + 8 * of_nat x) True s = Some (Some (page2pa q), t)
     \<and> free_ok t F \<and> only_mem s t \<and> page_ref t = (page_ref s)(q := page_ref s q + 1)
     \<and> (\<forall>p' < PHYSICAL_PAGE_NUM. \<forall>i' < 512. pcells t p' i' = link_table (pcells s) p x q p' i')
     \<and> (\<forall>a. \<not> in_range a (page2pa p) 4096 \<longrightarrow> \<not> in_range a (page2pa q) 4096 \<longrightarrow> mem t a = mem s a)"
proof -
  have q: "q < PHYSICAL_PAGE_NUM" using free by (simp add: free_ok_def)
  obtain u where u: "pageAlloc s = Some (q, u)" "free_ok u F" "mem u = fill (mem s) (page2pa q) 4096 0"
    "page_ref u = page_ref s" "only_mem s u" using pageAlloc_Cons [OF free] by blast
  let ?m = "store64 (mem u) (page2pa p + 8 * of_nat x) (page2pte q OR PTE_VALID)"
  let ?t = "u\<lparr>mem := ?m, page_ref := (page_ref s)(q := page_ref s q + 1)\<rparr>"
  have "pageWalk_level (page2pa p + 8 * of_nat x) True s = Some (Some (page2pa q), ?t)"
    using z u by (simp add: pageWalk_level_def cells_def PTE2PA_page2pte [OF q])
  moreover have "free_ok ?t F" using u(2) by (simp add: free_ok_def)
  moreover have "only_mem s ?t" by (rule only_mem_trans [OF u(5)]) (simp add: only_mem_def)
  moreover have "cells ?m p' i' = link_table (pcells s) p x q p' i'" if "p' < PHYSICAL_PAGE_NUM" "i' < 512" for p' i'
    using that p q x by (simp add: cells_store u(3) cells_fill link_table_def)
  moreover have "?m a = mem s a" if "\<not> in_range a (page2pa p) 4096" "\<not> in_range a (page2pa q) 4096" for a
    using that p x by (simp add: store_cell_other u(3) fill_def)
  ultimately show ?thesis by (intro exI [of _ ?t]) simp
qed

lemma table_ok_cong_tables:
  assumes ok: "table_ok c r F" and eq': "\<forall>p \<in> tables c r. \<forall>k < 512. c' p k = c p k"
  shows "table_ok c' r F" and "valid_node n \<Longrightarrow> node_page c' r n = node_page c r n"
    and "a < 512 \<Longrightarrow> b < 512 \<Longrightarrow> k < 512 \<Longrightarrow> pt_entry c' r a b k = pt_entry c r a b k"
proof -
  note D = table_okD [OF ok]
  have eq: "c' p k = c p k" if "valid_node n" "node_page c r n = Some p" "k < 512" for n p k
    using eq' that unfolding tables_def by blast
  have np: "node_page c' r n = node_page c r n" if "valid_node n" for n
    using node_page_cong [OF ok _ that, of c'] eq by blast
  then show "valid_node n \<Longrightarrow> node_page c' r n = node_page c r n" .
  have r: "c' r i = c r i" if "i < 512" for i using eq [of Root] that by simp
  show "table_ok c' r F"
    unfolding table_ok_def
  proof (intro conjI allI impI)
    fix n p assume v: "valid_node n" and p: "node_page c' r n = Some p"
    show "p < PHYSICAL_PAGE_NUM" "p \<notin> F" using p D(1,2) [OF v] by (simp_all add: np [OF v])
  next
    fix n n' p assume v: "valid_node n" "valid_node n'" and p: "node_page c' r n = Some p" "node_page c' r n' = Some p"
    show "n = n'" using p D(3) [OF v] by (simp add: np v)
  next
    fix i :: nat assume "i < 512" "c' r i \<noteq> 0"
    then show "PTE2PA (c' r i) = page2pa (ppn (c' r i))" using D(4) [of i] by (simp add: r)
  next
    fix i j p assume v: "i < 512" "j < 512" and p: "node_page c' r (Mid i) = Some p" and nz: "c' p j \<noteq> 0"
    have p': "node_page c r (Mid i) = Some p" using p np [of "Mid i"] v by simp
    then have "c' p j = c p j" using eq [of "Mid i"] v by simp
    then show "PTE2PA (c' p j) = page2pa (ppn (c' p j))" using D(5) [OF v p'] nz by simp
  qed
  show "pt_entry c' r a b k = pt_entry c r a b k" if "a < 512" "b < 512" "k < 512"
  proof -
    have "node_page c' r (Leaf a b) = node_page c r (Leaf a b)" using np that by (simp del: node_page.simps)
    moreover have "c' p k = c p k" if "node_page c r (Leaf a b) = Some p" for p
      using eq [OF _ that] \<open>a < 512\<close> \<open>b < 512\<close> \<open>k < 512\<close> by (simp del: node_page.simps)
    ultimately show ?thesis by (auto simp: pt_entry_def simp del: node_page.simps split: option.split)
  qed
qed

lemma table_ok_cong:
  assumes ok: "table_ok c r F" and eq: "\<forall>p < PHYSICAL_PAGE_NUM. \<forall>k < 512. c' p k = c p k"
  shows "table_ok c' r F" and "valid_node n \<Longrightarrow> node_page c' r n = node_page c r n"
    and "a < 512 \<Longrightarrow> b < 512 \<Longrightarrow> k < 512 \<Longrightarrow> pt_entry c' r a b k = pt_entry c r a b k"
proof -
  have "\<forall>p \<in> tables c r. \<forall>k < 512. c' p k = c p k"
    using eq table_okD(1) [OF ok] unfolding tables_def by blast
  note C = table_ok_cong_tables [OF ok this]
  show "table_ok c' r F" by (rule C(1))
  show "valid_node n \<Longrightarrow> node_page c' r n = node_page c r n" by (rule C(2))
  show "a < 512 \<Longrightarrow> b < 512 \<Longrightarrow> k < 512 \<Longrightarrow> pt_entry c' r a b k = pt_entry c r a b k" by (rule C(3))
qed

text \<open>Both levels: the walk finds the table it needs or makes it.\<close>

lemma grows_link:
  assumes free: "free_ok t F" and om: "only_mem s t" and ref: "page_ref t = (page_ref s)(q := page_ref s q + 1)"
    and q: "q \<notin> set F" "q < PHYSICAL_PAGE_NUM"
    and cl: "\<forall>p' < PHYSICAL_PAGE_NUM. \<forall>i' < 512. pcells t p' i' = c p' i'"
    and fr: "\<forall>a. \<not> in_range a (page2pa p) 4096 \<longrightarrow> \<not> in_range a (page2pa q) 4096 \<longrightarrow> mem t a = mem s a"
    and ok: "table_ok c r (set F)" and m: "valid_node m"
    and np: "\<forall>n. valid_node n \<longrightarrow> node_page c r n = (if n = m then Some q else node_page (pcells s) r n)"
    and none: "node_page (pcells s) r m = None"
    and p: "p \<in> tables (pcells s) r"
    and pe: "\<forall>a < 512. \<forall>b < 512. \<forall>k. pt_entry c r a b k = pt_entry (pcells s) r a b k"
  shows "grows r (q # F) s F t" and "node_page (pcells t) r m = Some q"
proof -
  note C = table_ok_cong [OF ok cl]
  have nt: "node_page (pcells t) r n = (if n = m then Some q else node_page (pcells s) r n)" if "valid_node n" for n
    using C(2) [OF that] np that by simp
  then show "node_page (pcells t) r m = Some q" using m by simp
  have tb: "tables (pcells t) r = insert q (tables (pcells s) r)"
  proof (intro equalityI subsetI)
    fix x assume "x \<in> tables (pcells t) r"
    then show "x \<in> insert q (tables (pcells s) r)"
      using nt by (auto simp: tables_def split: if_splits simp del: node_page.simps)
  next
    fix x assume "x \<in> insert q (tables (pcells s) r)"
    then consider "x = q" | n where "valid_node n" "node_page (pcells s) r n = Some x"
      by (auto simp: tables_def)
    then show "x \<in> tables (pcells t) r"
    proof cases
      case 1
      then show ?thesis using nt [OF m] m unfolding tables_def by (simp del: node_page.simps) blast
    next
      case 2
      then have "n \<noteq> m" using none by auto
      with 2 show ?thesis using nt [OF 2(1)] unfolding tables_def by (simp del: node_page.simps) blast
    qed
  qed
  show "grows r (q # F) s F t"
    unfolding grows_def
  proof (intro conjI allI impI)
    fix n p' assume "valid_node n" "node_page (pcells s) r n = Some p'"
    then show "node_page (pcells t) r n = Some p'" using nt none by (auto simp del: node_page.simps)
  next
    fix a assume "\<forall>p \<in> tables (pcells t) r. \<not> in_range a (page2pa p) 4096"
    then show "mem t a = mem s a" using fr p by (auto simp: tb)
  qed (use free om C(1) C(3) pe tb q ref in \<open>auto\<close>)
qed

lemma walk_mid:
  assumes free: "free_ok s F" and ok: "table_ok (pcells s) r (set F)" and i: "i < 512" and F: "F \<noteq> []"
  shows "\<exists>t F' p. pageWalk_level (page2pa r + 8 * of_nat i) True s = Some (Some (page2pa p), t)
     \<and> grows r F s F' t \<and> node_page (pcells t) r (Mid i) = Some p \<and> length F \<le> Suc (length F')"
proof (cases "pcells s r i = 0")
  case False
  then show ?thesis
    using grows_refl [OF free ok] pageWalk_level_present [OF False] table_okD(4) [OF ok i False]
    by (intro exI [of _ s] exI [of _ F] exI [of _ "ppn (pcells s r i)"]) simp
next
  case True
  obtain q G where G: "F = q # G" using F by (cases F) auto
  have q: "q < PHYSICAL_PAGE_NUM" "q \<notin> set G" using free free_ok_distinct [OF free] by (auto simp: free_ok_def G)
  have ok': "table_ok (pcells s) r (insert q (set G))" using ok by (simp add: G)
  have r: "r < PHYSICAL_PAGE_NUM" "r \<noteq> q" using table_okD(6,7) [OF ok'] by auto
  obtain t where t: "pageWalk_level (page2pa r + 8 * of_nat i) True s = Some (Some (page2pa q), t)"
    "free_ok t G" "only_mem s t" "page_ref t = (page_ref s)(q := page_ref s q + 1)"
    "\<forall>p' < PHYSICAL_PAGE_NUM. \<forall>i' < 512. pcells t p' i' = link_table (pcells s) r i q p' i'"
    "\<forall>a. \<not> in_range a (page2pa r) 4096 \<longrightarrow> \<not> in_range a (page2pa q) 4096 \<longrightarrow> mem t a = mem s a"
    using pageWalk_level_create [OF free [unfolded G] r i True] by blast
  have m: "valid_node (Mid i)" "node_page (pcells s) r (Mid i) = None" "r \<in> tables (pcells s) r"
    using i True by (auto simp: tables_def intro: exI [of _ Root])
  note L = grows_link [OF t(2,3,4) q(2,1) t(5,6) table_ok_link_mid [OF ok' q i True] m(1) _ m(2,3)]
  have "grows r (q # G) s G t \<and> node_page (pcells t) r (Mid i) = Some q"
    using L link_mid_node [OF ok' q(1) i True] pt_entry_link_mid [OF ok' q(1) i True] by blast
  with t(1) show ?thesis by (auto simp: G simp del: node_page.simps)
qed

lemma walk_leaf:
  assumes free: "free_ok s F" and ok: "table_ok (pcells s) r (set F)" and i: "i < 512" and j: "j < 512"
    and p0: "node_page (pcells s) r (Mid i) = Some p0" and F: "F \<noteq> []"
  shows "\<exists>t F' p. pageWalk_level (page2pa p0 + 8 * of_nat j) True s = Some (Some (page2pa p), t)
     \<and> grows r F s F' t \<and> node_page (pcells t) r (Leaf i j) = Some p \<and> length F \<le> Suc (length F')"
proof (cases "pcells s p0 j = 0")
  case False
  have "node_page (pcells s) r (Leaf i j) = Some (ppn (pcells s p0 j))"
    using p0 False by (auto split: if_splits)
  then show ?thesis
    using grows_refl [OF free ok] pageWalk_level_present [OF False] table_okD(5) [OF ok i j p0 False]
    by (intro exI [of _ s] exI [of _ F] exI [of _ "ppn (pcells s p0 j)"]) simp
next
  case True
  obtain q G where G: "F = q # G" using F by (cases F) auto
  have q: "q < PHYSICAL_PAGE_NUM" "q \<notin> set G" using free free_ok_distinct [OF free] by (auto simp: free_ok_def G)
  have ok': "table_ok (pcells s) r (insert q (set G))" using ok by (simp add: G)
  have r: "p0 < PHYSICAL_PAGE_NUM" "p0 \<noteq> q" using table_okD(1,2) [OF ok' _ p0] i by auto
  obtain t where t: "pageWalk_level (page2pa p0 + 8 * of_nat j) True s = Some (Some (page2pa q), t)"
    "free_ok t G" "only_mem s t" "page_ref t = (page_ref s)(q := page_ref s q + 1)"
    "\<forall>p' < PHYSICAL_PAGE_NUM. \<forall>i' < 512. pcells t p' i' = link_table (pcells s) p0 j q p' i'"
    "\<forall>a. \<not> in_range a (page2pa p0) 4096 \<longrightarrow> \<not> in_range a (page2pa q) 4096 \<longrightarrow> mem t a = mem s a"
    using pageWalk_level_create [OF free [unfolded G] r j True] by blast
  have m: "valid_node (Leaf i j)" "node_page (pcells s) r (Leaf i j) = None" "p0 \<in> tables (pcells s) r"
    using i j p0 True by (auto simp: tables_def split: if_splits intro: exI [of _ "Mid i"])
  note L = grows_link [OF t(2,3,4) q(2,1) t(5,6) table_ok_link_leaf [OF ok' q i j p0 True] m(1) _ m(2,3)]
  have "grows r (q # G) s G t \<and> node_page (pcells t) r (Leaf i j) = Some q"
    using L link_leaf_node [OF ok' q(1) i j p0 True] pt_entry_link_leaf [OF ok' q(1) i j p0 True] by blast
  with t(1) show ?thesis by (auto simp: G simp del: node_page.simps)
qed

lemma pageWalk_True:
  assumes free: "free_ok s F" and ok: "table_ok (pcells s) r (set F)" and F: "2 \<le> length F"
  shows "\<exists>t F' p. pageWalk (page2pa r) va True s = Some (page2pa p + 8 * of_nat (ix va 0), t)
     \<and> grows r F s F' t \<and> node_page (pcells t) r (Leaf (ix va 2) (ix va 1)) = Some p \<and> length F \<le> length F' + 2"
proof -
  have "F \<noteq> []" using F by auto
  then obtain t1 F1 p1 where 1: "pageWalk_level (page2pa r + 8 * of_nat (ix va 2)) True s = Some (Some (page2pa p1), t1)"
    "grows r F s F1 t1" "node_page (pcells t1) r (Mid (ix va 2)) = Some p1" "length F \<le> Suc (length F1)"
    using walk_mid [OF free ok ix_less] by blast
  have "F1 \<noteq> []" using F 1(4) by auto
  then obtain t F' p where 2: "pageWalk_level (page2pa p1 + 8 * of_nat (ix va 1)) True t1 = Some (Some (page2pa p), t)"
    "grows r F1 t1 F' t" "node_page (pcells t) r (Leaf (ix va 2) (ix va 1)) = Some p" "length F1 \<le> Suc (length F')"
    using walk_leaf [OF growsD(1,4) [OF 1(2)] ix_less ix_less 1(3)] by blast
  have "pageWalk (page2pa r) va True s = Some (page2pa p + 8 * of_nat (ix va 0), t)"
    using 1(1) 2(1) by (simp add: pageWalk_def index_ix)
  moreover have "length F \<le> length F' + 2" using 1(4) 2(4) by simp
  ultimately show ?thesis using 2(3) grows_trans [OF 1(2) 2(2)] by blast
qed

end
