(* ===== verification/Page_Map.thy ===== *)
theory Page_Map
  imports Page_Table
begin

text \<open>
  The invariant of a page table with its reference counts, and \<^verbatim>\<open>pageRemove\<close> and \<^verbatim>\<open>pageInsert\<close> as
  updates of the map from indices to entries.
\<close>

declare One_nat_def [simp del]

section \<open>Writing an entry\<close>

lemma leaf_store:
  assumes ok: "table_ok c r F" and lf: "node_page c r (Leaf i j) = Some p" and ij: "i < 512" "j < 512" "k < 512"
    and eq: "\<forall>p' < PHYSICAL_PAGE_NUM. \<forall>k' < 512. c' p' k' = (if p' = p \<and> k' = k then v else c p' k')"
  shows "table_ok c' r F" and "valid_node n \<Longrightarrow> node_page c' r n = node_page c r n"
    and "a < 512 \<Longrightarrow> b < 512 \<Longrightarrow> x < 512 \<Longrightarrow>
      pt_entry c' r a b x = (if a = i \<and> b = j \<and> x = k then v else pt_entry c r a b x)"
proof -
  let ?c = "\<lambda>p' k'. if p' = p \<and> k' = k then v else c p' k'"
  note D = table_okD [OF ok]
  have lv: "valid_node (Leaf i j)" using ij by simp
  have np: "node_page ?c r n = node_page c r n" if v: "valid_node n" for n
  proof (rule node_page_cong [OF ok _ v])
    fix n' p' k' assume "valid_node n'" "node_page c r n' = Some p'" "\<forall>i j. n' \<noteq> Leaf i j"
    then have "p' \<noteq> p" using D(3) [OF _ lv _ lf, of n'] by auto
    then show "?c p' k' = c p' k'" by simp
  qed
  have rp: "r \<noteq> p" using D(3) [of Root "Leaf i j" p] lf lv by auto
  have mp: "p' \<noteq> p" if "a < 512" "node_page c r (Mid a) = Some p'" for a p'
    using D(3) [of "Mid a" "Leaf i j" p] that lf lv by auto
  have ok': "table_ok ?c r F"
    unfolding table_ok_def
  proof (intro conjI allI impI)
    fix n q assume w: "valid_node n" and q: "node_page ?c r n = Some q"
    show "q < PHYSICAL_PAGE_NUM" "q \<notin> F" using q D(1,2) [OF w] by (simp_all add: np [OF w])
  next
    fix n n' q assume w: "valid_node n" "valid_node n'" and q: "node_page ?c r n = Some q" "node_page ?c r n' = Some q"
    show "n = n'" using q D(3) [OF w] by (simp add: np w)
  next
    fix a :: nat assume "a < 512" "?c r a \<noteq> 0"
    then show "PTE2PA (?c r a) = page2pa (ppn (?c r a))" using D(4) [of a] rp by simp
  next
    fix a b q assume w: "a < 512" "b < 512" and q: "node_page ?c r (Mid a) = Some q" and nz: "?c q b \<noteq> 0"
    have q': "node_page c r (Mid a) = Some q" using q np [of "Mid a"] w by simp
    then show "PTE2PA (?c q b) = page2pa (ppn (?c q b))" using D(5) [OF w q'] nz mp [OF w(1) q'] by simp
  qed
  note C = table_ok_cong [OF ok' eq]
  show "table_ok c' r F" by (rule C(1))
  show "node_page c' r n = node_page c r n" if "valid_node n" using C(2) [OF that] np [OF that] by simp
  show "pt_entry c' r a b x = (if a = i \<and> b = j \<and> x = k then v else pt_entry c r a b x)"
    if w: "a < 512" "b < 512" "x < 512"
  proof -
    have wv: "valid_node (Leaf a b)" using w by simp
    have "pt_entry c' r a b x = pt_entry ?c r a b x" by (rule C(3) [OF w])
    also have "\<dots> = (case node_page c r (Leaf a b) of None \<Rightarrow> 0 | Some q \<Rightarrow> ?c q x)"
      unfolding pt_entry_def np [OF wv] ..
    also have "\<dots> = (if a = i \<and> b = j \<and> x = k then v else pt_entry c r a b x)"
    proof (cases "node_page c r (Leaf a b)")
      case None
      then have "\<not> (a = i \<and> b = j)" using lf by auto
      with None show ?thesis unfolding pt_entry_def by (auto simp del: node_page.simps)
    next
      case (Some q)
      then have "q = p \<longleftrightarrow> a = i \<and> b = j" using D(3) [OF wv lv _ lf] lf by auto
      with Some show ?thesis unfolding pt_entry_def by (auto simp del: node_page.simps)
    qed
    finally show ?thesis .
  qed
qed

section \<open>The invariant\<close>

abbreviation entry_at :: "'z kmem_scheme \<Rightarrow> nat \<Rightarrow> nat \<Rightarrow> nat \<Rightarrow> nat \<Rightarrow> u64" where
  "entry_at s \<equiv> pt_entry (pcells s)"

definition maps :: "'z kmem_scheme \<Rightarrow> nat \<Rightarrow> nat \<Rightarrow> (nat \<times> nat \<times> nat) set" where
  "maps s r p = {(i, j, k). i < 512 \<and> j < 512 \<and> k < 512 \<and> entry_at s r i j k AND PTE_VALID \<noteq> 0
      \<and> PTE2PA (entry_at s r i j k) = page2pa p}"

lemma maps_finite [simp]: "finite (maps s r p)"
  by (rule finite_subset [of _ "{..<512} \<times> {..<512} \<times> {..<512}"]) (auto simp: maps_def)

definition pt_inv :: "'z kmem_scheme \<Rightarrow> nat \<Rightarrow> nat list \<Rightarrow> bool" where
  "pt_inv s r F \<longleftrightarrow> free_ok s F \<and> table_ok (pcells s) r (set F) \<and> (\<forall>p \<in> set F. page_ref s p = 0)
     \<and> (\<forall>p < PHYSICAL_PAGE_NUM. card (maps s r p) \<le> unat (page_ref s p))
     \<and> (\<forall>p \<in> tables (pcells s) r. maps s r p = {})"

lemma pt_invD:
  assumes "pt_inv s r F"
  shows "free_ok s F" "table_ok (pcells s) r (set F)" "p \<in> set F \<Longrightarrow> page_ref s p = 0"
    "p < PHYSICAL_PAGE_NUM \<Longrightarrow> card (maps s r p) \<le> unat (page_ref s p)"
    "p \<in> tables (pcells s) r \<Longrightarrow> maps s r p = {}"
  using assms by (auto simp: pt_inv_def)

lemma pt_inv_free_unmapped: "pt_inv s r F \<Longrightarrow> p \<in> set F \<Longrightarrow> maps s r p = {}"
proof -
  assume a: "pt_inv s r F" "p \<in> set F"
  then have "p < PHYSICAL_PAGE_NUM" using pt_invD(1) by (auto simp: free_ok_def)
  then have "card (maps s r p) = 0" using pt_invD(4) [OF a(1)] pt_invD(3) [OF a] by fastforce
  then show ?thesis by simp
qed

text \<open>A page-aligned address in RAM is the address of a page.\<close>

lemma ram_page:
  assumes "is_ram pa" and "DOWN_ALIGN pa PAGE_SIZE = pa"
  shows "\<exists>p < PHYSICAL_PAGE_NUM. pa = page2pa p \<and> pa2page pa = Some p"
proof -
  have "pa AND mask 12 = 0"
    using assms(2) unfolding DOWN_ALIGN_page bit_eq_iff by (auto simp: bit_simps)
  then have "take_bit 12 pa = 0" by (simp add: take_bit_eq_mask)
  then have m: "unat pa mod 4096 = 0" using unat_take_bit [of 12 pa] by simp
  have b: "0x80000000 \<le> unat pa" "unat pa < 0x90000000"
    using assms(1) by (auto simp: is_ram_def word_le_nat_alt word_less_nat_alt)
  let ?p = "(unat pa - 0x80000000) div 4096"
  have "4096 dvd unat pa - 0x80000000" using m by (intro dvd_diff_nat) (auto simp: mod_eq_0_iff_dvd)
  then have "unat pa = 0x80000000 + 4096 * ?p" using b by simp
  moreover have p: "?p < PHYSICAL_PAGE_NUM" using b by simp
  ultimately have "pa = page2pa ?p" using unat_page2pa [OF p] by (simp add: word_unat_eq_iff)
  with p pa2page_page2pa [OF p] show ?thesis by metis
qed

lemma PTE2PA_aligned: "DOWN_ALIGN (PTE2PA e) PAGE_SIZE = PTE2PA e"
  by (rule bit_word_eqI) (auto simp: bit_DOWN_ALIGN bit_PTE2PA)

section \<open>pageRemove\<close>

text \<open>A page is only put on the free list when the map no longer holds it.\<close>

lemma free_ok_insert:
  assumes "free_ok s F" and "p \<notin> set F" and "p < PHYSICAL_PAGE_NUM"
  shows "free_ok (s\<lparr>page_links := LIST_INSERT_HEAD () p (page_links s)\<rparr>) (p # F)"
proof -
  have "lists_abs (page_links s) (\<lambda>_. F)" "p \<notin> on_lists (\<lambda>_ :: unit. F)"
    using assms by (auto simp: free_ok_def on_lists_def)
  from lists_abs_insert_head [OF this, of "()"] have
    "lists_abs (LIST_INSERT_HEAD () p (page_links s)) (\<lambda>_. p # F)"
    by (simp add: fun_upd_def)
  then show ?thesis using assms by (simp add: free_ok_def)
qed

lemma free_ok_cong: "page_links t = page_links s \<Longrightarrow> free_ok t F = free_ok s F"
  by (simp add: free_ok_def)

lemma maps_upd:
  assumes e: "\<And>a b x. a < 512 \<Longrightarrow> b < 512 \<Longrightarrow> x < 512 \<Longrightarrow>
      entry_at t r a b x = (if a = i \<and> b = j \<and> x = k then v else entry_at s r a b x)"
    and ijk: "i < 512" "j < 512" "k < 512"
  shows "maps t r p = (if v AND PTE_VALID \<noteq> 0 \<and> PTE2PA v = page2pa p
     then insert (i, j, k) (maps s r p) else maps s r p - {(i, j, k)})"
  using ijk by (auto simp: maps_def e split: if_splits)

lemma pageRemove_ram:
  assumes inv: "pt_inv s r F"
    and e: "entry_at s r (ix va 2) (ix va 1) (ix va 0) = e" "e AND PTE_VALID \<noteq> 0"
    and p: "PTE2PA e = page2pa p" "p < PHYSICAL_PAGE_NUM"
  shows "\<exists>t. pageRemove (page2pa r) va s = Some (0, t)
     \<and> pt_inv t r (if page_ref s p = 1 then p # F else F)
     \<and> (\<forall>a < 512. \<forall>b < 512. \<forall>x < 512. entry_at t r a b x =
          (if a = ix va 2 \<and> b = ix va 1 \<and> x = ix va 0 then 0 else entry_at s r a b x))
     \<and> page_ref t = (page_ref s)(p := page_ref s p - 1) \<and> only_mem s t
     \<and> tables (pcells t) r = tables (pcells s) r
     \<and> (\<forall>a. (\<forall>q \<in> tables (pcells s) r. \<not> in_range a (page2pa q) 4096) \<longrightarrow> mem t a = mem s a)"
proof -
  let ?i = "ix va 2" and ?j = "ix va 1" and ?k = "ix va 0"
  note ok = pt_invD(2) [OF inv]
  have "e \<noteq> 0" using e(2) by auto
  then obtain lf where lf: "node_page (pcells s) r (Leaf ?i ?j) = Some lf"
    using e(1) unfolding pt_entry_def by (auto simp del: node_page.simps split: option.splits)
  have lfN: "lf < PHYSICAL_PAGE_NUM" using table_okD(1) [OF ok _ lf] ix_less by simp
  have lft: "lf \<in> tables (pcells s) r" unfolding tables_def using lf ix_less by (auto simp del: node_page.simps intro!: exI [of _ "Leaf ?i ?j"])
  have pm: "(?i, ?j, ?k) \<in> maps s r p" using e p ix_less by (auto simp: maps_def)
  then have "card (maps s r p) \<noteq> 0" by auto
  then have ref: "1 \<le> unat (page_ref s p)" using pt_invD(4) [OF inv p(2)] by linarith
  have pF: "p \<notin> set F" using pm pt_inv_free_unmapped [OF inv] by auto
  have pt: "p \<notin> tables (pcells s) r" using pm pt_invD(5) [OF inv] by auto
  let ?s1 = "s\<lparr>page_ref := (page_ref s)(p := page_ref s p - 1)\<rparr>"
  let ?s2 = "pageFree p ?s1"
  let ?t = "?s2\<lparr>mem := store64 (mem s) (page2pa lf + 8 * of_nat ?k) 0\<rparr>"
  have m2: "mem ?s2 = mem s" "page_ref ?s2 = page_ref ?s1" by (auto simp: pageFree_def)
  have lk: "pageLookup (page2pa r) va s = (page2pa p, Some (page2pa lf + 8 * of_nat ?k))"
    using pageLookup_eq [OF ok] e p lf by (simp del: node_page.simps)
  have run: "pageRemove (page2pa r) va s = Some (0, ?t)"
    using page2pa_ram [OF p(2)] pa2page_page2pa [OF p(2)] m2(1)
    by (auto simp: pageRemove_def lk is_ram_def Let_def)
  have cl: "\<forall>p' < PHYSICAL_PAGE_NUM. \<forall>k' < 512. pcells ?t p' k' = (if p' = lf \<and> k' = ?k then 0 else pcells s p' k')"
    using lfN ix_less by (simp add: cells_store)
  note L = leaf_store [OF ok lf ix_less ix_less ix_less cl]
  have tb: "tables (pcells ?t) r = tables (pcells s) r" using L(2) by (auto simp: tables_def simp del: node_page.simps)
  have mp: "maps ?t r q = maps s r q - {(?i, ?j, ?k)}" for q
    using maps_upd [OF L(3), of q] ix_less by simp
  let ?F = "if page_ref s p = 1 then p # F else F"
  have "free_ok ?s1 F" using pt_invD(1) [OF inv] by (simp add: free_ok_def)
  then have "free_ok ?s2 ?F"
    using free_ok_insert [of ?s1 F p] pF p(2) by (auto simp: pageFree_def word_neq_0_conv)
  then have f: "free_ok ?t ?F" by (simp add: free_ok_def)
  have refp: "page_ref ?t = (page_ref s)(p := page_ref s p - 1)" using m2 by simp
  have "table_ok (pcells ?t) r (set ?F)"
  proof (cases "page_ref s p = 1")
    case True
    have "\<forall>n q. valid_node n \<longrightarrow> node_page (pcells ?t) r n = Some q \<longrightarrow> q \<noteq> p" using pt tb unfolding tables_def by blast
    with L(1) True show ?thesis unfolding table_ok_def by (simp del: node_page.simps)
  next
    case False
    with L(1) show ?thesis by simp
  qed
  moreover have "page_ref ?t q = 0" if "q \<in> set ?F" for q
    using that pt_invD(3) [OF inv, of q] refp pF by (auto split: if_splits)
  moreover have "card (maps ?t r q) \<le> unat (page_ref ?t q)" if q: "q < PHYSICAL_PAGE_NUM" for q
  proof (cases "q = p")
    case True
    have "page_ref s p \<noteq> 0" using ref by auto
    then have "unat (page_ref ?t p) = unat (page_ref s p) - 1" using refp by (simp add: unat_minus_one)
    moreover have "card (maps ?t r p) = card (maps s r p) - 1" using pm by (simp add: mp)
    ultimately show ?thesis using True pt_invD(4) [OF inv q] by simp
  next
    case False
    then show ?thesis using refp pt_invD(4) [OF inv q] card_mono [of "maps s r q" "maps ?t r q"] by (auto simp: mp)
  qed
  moreover have "maps ?t r q = {}" if "q \<in> tables (pcells ?t) r" for q
    using that tb pt_invD(5) [OF inv] mp by auto
  ultimately have "pt_inv ?t r ?F" using f by (simp add: pt_inv_def)
  moreover have "only_mem s ?t" by (simp add: only_mem_def pageFree_def)
  moreover have "mem ?t a = mem s a" if "\<And>q. q \<in> tables (pcells s) r \<Longrightarrow> \<not> in_range a (page2pa q) 4096" for a
    using store_cell_other [OF lfN ix_less] that [OF lft] by simp
  ultimately show ?thesis using run L(3) refp tb by blast
qed

lemma pageRemove_other:
  assumes ok: "table_ok (pcells s) r F"
    and e: "entry_at s r (ix va 2) (ix va 1) (ix va 0) = e" "e AND PTE_VALID = 0 \<or> \<not> is_ram (PTE2PA e)"
  shows "pageRemove (page2pa r) va s = Some (- 1, s)"
  using e by (auto simp: pageRemove_def pageLookup_eq [OF ok] is_ram_def Let_def not_le not_less
      simp del: node_page.simps)

section \<open>pageInsert\<close>

lemma pt_inv_grows:
  assumes inv: "pt_inv s r F" and g: "grows r F s F' t"
  shows "pt_inv t r F'"
proof -
  have mp: "maps t r p = maps s r p" for p
    using growsD(5) [OF g] by (auto simp: maps_def)
  have sub: "set F' \<subseteq> set F" using growsD(2) [OF g] by auto
  have "page_ref t p = 0" if "p \<in> set F'" for p
    using growsD(8) [OF g, of p] pt_invD(3) [OF inv, of p] that sub by auto
  moreover have "card (maps t r p) \<le> unat (page_ref t p)" if "p < PHYSICAL_PAGE_NUM" for p
    using growsD(8) [OF g, of p] pt_invD(4) [OF inv that] pt_inv_free_unmapped [OF inv, of p]
    by (cases "p \<in> set F - set F'") (auto simp: mp)
  moreover have "maps t r p = {}" if "p \<in> tables (pcells t) r" for p
    using growsD(7) [OF g] pt_invD(5) [OF inv, of p] pt_inv_free_unmapped [OF inv, of p] that by (auto simp: mp)
  ultimately show ?thesis using growsD(1,4) [OF g] by (simp add: pt_inv_def)
qed

text \<open>Storing an entry whose old value maps no page of memory.\<close>

lemma pt_inv_set:
  assumes inv: "pt_inv t r F" and lf: "node_page (pcells t) r (Leaf i j) = Some lf"
    and ijk: "i < 512" "j < 512" "k < 512"
    and old: "\<And>p. p < PHYSICAL_PAGE_NUM \<Longrightarrow> (i, j, k) \<notin> maps t r p"
    and u: "only_mem t u" "mem u = store64 (mem t) (page2pa lf + 8 * of_nat k) v" "page_links u = page_links t"
    and ref: "page_ref u = (if is_ram (PTE2PA v) then (page_ref t)(q := page_ref t q + 1) else page_ref t)"
    and q: "is_ram (PTE2PA v) \<Longrightarrow> PTE2PA v = page2pa q \<and> q < PHYSICAL_PAGE_NUM \<and> q \<notin> set F
              \<and> q \<notin> tables (pcells t) r \<and> page_ref t q \<noteq> - 1"
  shows "pt_inv u r F"
    and "a < 512 \<Longrightarrow> b < 512 \<Longrightarrow> x < 512 \<Longrightarrow>
      entry_at u r a b x = (if a = i \<and> b = j \<and> x = k then v else entry_at t r a b x)"
    and "tables (pcells u) r = tables (pcells t) r"
proof -
  note ok = pt_invD(2) [OF inv]
  have lfN: "lf < PHYSICAL_PAGE_NUM" using table_okD(1) [OF ok _ lf] ijk by simp
  have cl: "\<forall>p' < PHYSICAL_PAGE_NUM. \<forall>k' < 512. pcells u p' k' = (if p' = lf \<and> k' = k then v else pcells t p' k')"
    using lfN ijk by (simp add: cells_store u(2))
  note L = leaf_store [OF ok lf ijk cl]
  show E: "entry_at u r a b x = (if a = i \<and> b = j \<and> x = k then v else entry_at t r a b x)"
    if "a < 512" "b < 512" "x < 512" for a b x by (rule L(3) [OF that])
  show tb: "tables (pcells u) r = tables (pcells t) r" using L(2) by (auto simp: tables_def simp del: node_page.simps)
  have mp: "maps u r p = (if v AND PTE_VALID \<noteq> 0 \<and> PTE2PA v = page2pa p
     then insert (i, j, k) (maps t r p) else maps t r p - {(i, j, k)})" for p
    using maps_upd [OF E ijk] .
  have nr: "p \<noteq> q \<Longrightarrow> p < PHYSICAL_PAGE_NUM \<Longrightarrow> PTE2PA v \<noteq> page2pa p" for p
    using q page2pa_ram [of p] page2pa_inj [of p q] by metis
  have rs: "unat (page_ref t q + 1) = Suc (unat (page_ref t q))" if "is_ram (PTE2PA v)"
    using q [OF that] unatSuc [of "page_ref t q"] by (metis add.commute add_eq_0_iff2 minus_equation_iff)
  have "page_ref u p = 0" if "p \<in> set F" for p
    using pt_invD(3) [OF inv that] q that by (auto simp: ref)
  moreover have "card (maps u r p) \<le> unat (page_ref u p)" if p: "p < PHYSICAL_PAGE_NUM" for p
  proof (cases "is_ram (PTE2PA v) \<and> p = q")
    case True
    have "maps u r p \<subseteq> insert (i, j, k) (maps t r p)" by (auto simp: mp)
    then have "card (maps u r p) \<le> card (insert (i, j, k) (maps t r p))" by (intro card_mono) simp_all
    then have "card (maps u r p) \<le> Suc (card (maps t r p))" by (simp add: card_insert_if split: if_splits)
    with True rs pt_invD(4) [OF inv p] show ?thesis by (simp add: ref)
  next
    case False
    then have "maps u r p = maps t r p"
      using nr [OF _ p] old [OF p] page2pa_ram [OF p] by (auto simp: mp)
    moreover have "page_ref u p = page_ref t p" using False by (auto simp: ref)
    ultimately show ?thesis using pt_invD(4) [OF inv p] by simp
  qed
  moreover have "maps u r p = {}" if p: "p \<in> tables (pcells u) r" for p
  proof -
    have pt: "p \<in> tables (pcells t) r" using p tb by simp
    then have pN: "p < PHYSICAL_PAGE_NUM" using table_okD(1) [OF ok] unfolding tables_def by blast
    then have "PTE2PA v \<noteq> page2pa p" using nr [OF _ pN] q pt page2pa_ram [OF pN] by metis
    then show ?thesis using pt_invD(5) [OF inv pt] by (simp add: mp)
  qed
  moreover have "free_ok u F" using pt_invD(1) [OF inv] u(3) by (simp add: free_ok_def)
  ultimately show "pt_inv u r F" using L(1) by (simp add: pt_inv_def)
qed

lemma pageWalk_True_present:
  assumes ok: "table_ok (pcells s) r F" and lf: "node_page (pcells s) r (Leaf (ix va 2) (ix va 1)) = Some lf"
  shows "pageWalk (page2pa r) va True s = Some (page2pa lf + 8 * of_nat (ix va 0), s)"
proof -
  let ?i = "ix va 2" and ?j = "ix va 1"
  have nz: "pcells s r ?i \<noteq> 0" "pcells s (ppn (pcells s r ?i)) ?j \<noteq> 0"
    and l: "lf = ppn (pcells s (ppn (pcells s r ?i)) ?j)" using lf by (auto split: if_splits)
  have 1: "PTE2PA (pcells s r ?i) = page2pa (ppn (pcells s r ?i))" using table_okD(4) [OF ok ix_less nz(1)] .
  have 2: "PTE2PA (pcells s (ppn (pcells s r ?i)) ?j) = page2pa lf"
    using table_okD(5) [OF ok ix_less ix_less _ nz(2), of va 2] nz(1) l by simp
  show ?thesis
    using pageWalk_level_present [OF nz(1)] pageWalk_level_present [OF nz(2)] 1 2
    by (simp add: pageWalk_def index_ix)
qed

text \<open>The first half of \<^verbatim>\<open>pageInsert\<close>: what was mapped there before is dropped.\<close>

definition drop_old :: "nat \<Rightarrow> u64 \<Rightarrow> 'z kmem_scheme \<Rightarrow> (int \<times> 'z kmem_scheme) option" where
  "drop_old r va s = do {
     (pte, s) \<leftarrow> pageWalk (page2pa r) va False s;
     if pte \<noteq> 0 \<and> load64 (mem s) pte AND PTE_VALID \<noteq> 0 then pageRemove (page2pa r) va s else Some (0, s) }"

lemma drop_old_spec:
  assumes inv: "pt_inv s r F"
    and q: "q < PHYSICAL_PAGE_NUM" "q \<notin> set F" "q \<notin> tables (pcells s) r" "page_ref s q \<noteq> - 1"
      "page_ref s q = 1 \<longrightarrow> (ix va 2, ix va 1, ix va 0) \<notin> maps s r q"
  shows "\<exists>x t F'. drop_old r va s = Some (x, t) \<and> pt_inv t r F' \<and> length F \<le> length F' \<and> only_mem s t
     \<and> (\<forall>p < PHYSICAL_PAGE_NUM. (ix va 2, ix va 1, ix va 0) \<notin> maps t r p)
     \<and> (\<forall>a < 512. \<forall>b < 512. \<forall>k < 512. (a, b, k) \<noteq> (ix va 2, ix va 1, ix va 0) \<longrightarrow> entry_at t r a b k = entry_at s r a b k)
     \<and> tables (pcells t) r = tables (pcells s) r \<and> q \<notin> set F' \<and> page_ref t q \<noteq> - 1
     \<and> (\<forall>a. (\<forall>p \<in> tables (pcells s) r. \<not> in_range a (page2pa p) 4096) \<longrightarrow> mem t a = mem s a)
     \<and> set F' \<subseteq> set F \<union> {p. page_ref s p = 1 \<and> (ix va 2, ix va 1, ix va 0) \<in> maps s r p}"
proof -
  let ?i = "ix va 2" and ?j = "ix va 1" and ?k = "ix va 0"
  let ?e = "entry_at s r ?i ?j ?k"
  note ok = pt_invD(2) [OF inv]
  have run: "drop_old r va s = (if ?e AND PTE_VALID \<noteq> 0 then pageRemove (page2pa r) va s else Some (0, s))"
  proof (cases "node_page (pcells s) r (Leaf ?i ?j)")
    case None
    then show ?thesis unfolding drop_old_def pageWalk_False [OF ok] by (simp only: pt_entry_def) simp
  next
    case (Some p)
    have "page2pa p + 8 * of_nat ?k \<noteq> 0"
      using cell_addr_not_0 [OF table_okD(1) [OF ok _ Some] ix_less] ix_less by simp
    with Some show ?thesis
      unfolding drop_old_def pageWalk_False [OF ok] by (simp only: pt_entry_def) (simp add: cells_def)
  qed
  show ?thesis
  proof (cases "?e AND PTE_VALID \<noteq> 0 \<and> is_ram (PTE2PA ?e)")
    case True
    then obtain p where p: "p < PHYSICAL_PAGE_NUM" "PTE2PA ?e = page2pa p"
      using ram_page [of "PTE2PA ?e"] PTE2PA_aligned by blast
    obtain t where t: "pageRemove (page2pa r) va s = Some (0, t)"
      "pt_inv t r (if page_ref s p = 1 then p # F else F)"
      "\<forall>a < 512. \<forall>b < 512. \<forall>x < 512. entry_at t r a b x = (if a = ?i \<and> b = ?j \<and> x = ?k then 0 else entry_at s r a b x)"
      "page_ref t = (page_ref s)(p := page_ref s p - 1)" "only_mem s t" "tables (pcells t) r = tables (pcells s) r"
      "\<forall>a. (\<forall>q \<in> tables (pcells s) r. \<not> in_range a (page2pa q) 4096) \<longrightarrow> mem t a = mem s a"
      using pageRemove_ram [OF inv refl _ p(2,1)] True by blast
    have pm: "(?i, ?j, ?k) \<in> maps s r p" using True p ix_less by (auto simp: maps_def)
    have pq: "page_ref s p = 1 \<Longrightarrow> p \<noteq> q" using q(5) pm by auto
    have "card (maps s r p) \<noteq> 0" using pm by auto
    then have "page_ref s p \<noteq> 0" using pt_invD(4) [OF inv p(1)] by auto
    then have "page_ref t q \<noteq> - 1" using t(4) q(4) by auto
    moreover have "(?i, ?j, ?k) \<notin> maps t r x" for x using t(3) ix_less by (simp add: maps_def)
    ultimately show ?thesis
      using t run True q(2) pq pm
      by (intro exI [of _ 0] exI [of _ t] exI [of _ "if page_ref s p = 1 then p # F else F"]) auto
  next
    case False
    have "drop_old r va s = Some (if ?e AND PTE_VALID \<noteq> 0 then - 1 else 0, s)"
      using run pageRemove_other [OF ok refl, of va] False by auto
    moreover have "(?i, ?j, ?k) \<notin> maps s r p" if "p < PHYSICAL_PAGE_NUM" for p
      using False page2pa_ram [OF that] by (auto simp: maps_def)
    ultimately show ?thesis using inv q by (intro exI [of _ s] exI [of _ F] exI conjI) auto
  qed
qed

definition new_entry :: "u64 \<Rightarrow> u64 \<Rightarrow> u64" where
  "new_entry pa perm = PA2PTE (DOWN_ALIGN pa PAGE_SIZE) OR (perm OR (PTE_ACCESSED OR PTE_DIRTY)) OR PTE_VALID"

lemma DOWN_ALIGN_idem [simp]: "DOWN_ALIGN (DOWN_ALIGN x PAGE_SIZE) PAGE_SIZE = DOWN_ALIGN x PAGE_SIZE"
  by (rule bit_word_eqI) (auto simp: bit_DOWN_ALIGN)

lemma unat_DOWN_ALIGN_le: "unat (DOWN_ALIGN x PAGE_SIZE) \<le> unat x"
proof -
  have "DOWN_ALIGN x PAGE_SIZE \<le> x" unfolding DOWN_ALIGN_def by (rule word_and_le2)
  then show ?thesis by (simp add: word_le_nat_alt)
qed

lemma ix_DOWN_ALIGN [simp]: "ix (DOWN_ALIGN va PAGE_SIZE) l = ix va l"
proof -
  have "drop_bit (12 + 9 * l) (DOWN_ALIGN va PAGE_SIZE) = drop_bit (12 + 9 * l) va"
    by (rule bit_word_eqI) (auto simp: bit_drop_bit_eq bit_DOWN_ALIGN)
  then show ?thesis by (simp add: ix_def GET_PAGE_TABLE_INDEX_def)
qed

lemma PTE2PA_new_entry:
  assumes "unat pa < 2 ^ 56" "perm_only perm"
  shows "PTE2PA (new_entry pa perm) = DOWN_ALIGN pa PAGE_SIZE"
proof -
  have "new_entry pa perm = PA2PTE (DOWN_ALIGN pa PAGE_SIZE) OR ((perm OR (PTE_ACCESSED OR PTE_DIRTY)) OR PTE_VALID)"
    by (simp add: new_entry_def or.assoc)
  moreover have "perm_only ((perm OR (PTE_ACCESSED OR PTE_DIRTY)) OR PTE_VALID)"
    using assms(2) by (intro perm_only_or) (simp_all add: perm_only_or)
  moreover have "unat (DOWN_ALIGN pa PAGE_SIZE) < 2 ^ 56" using assms(1) unat_DOWN_ALIGN_le [of pa] by simp
  ultimately show ?thesis using PTE2PA_pack [of "DOWN_ALIGN pa PAGE_SIZE"] by simp
qed

lemma new_entry_valid: "new_entry pa perm AND PTE_VALID \<noteq> 0"
proof
  assume "new_entry pa perm AND PTE_VALID = 0"
  then have "bit (new_entry pa perm AND PTE_VALID) 0 = bit (0 :: u64) 0" by (rule arg_cong)
  then show False by (simp add: new_entry_def bit_simps)
qed

text \<open>
  \<^verbatim>\<open>pageInsert\<close> keeps the invariant, replaces exactly one entry, and leaves every byte outside the
  tables alone. The page mapped must not be free or a table, and must not be the one whose only
  reference is the mapping that is being replaced.
\<close>

definition insertable :: "'z kmem_scheme \<Rightarrow> nat \<Rightarrow> nat list \<Rightarrow> u64 \<Rightarrow> nat \<Rightarrow> bool" where
  "insertable s r F va q \<longleftrightarrow> q < PHYSICAL_PAGE_NUM \<and> q \<notin> set F \<and> q \<notin> tables (pcells s) r \<and> page_ref s q \<noteq> - 1
     \<and> (page_ref s q = 1 \<longrightarrow> (ix va 2, ix va 1, ix va 0) \<notin> maps s r q)"

lemma pageInsert_drop_old:
  "pageInsert (page2pa r) va pa perm s = do {
     (x, s) \<leftarrow> drop_old r (DOWN_ALIGN va PAGE_SIZE) s;
     (pte, s) \<leftarrow> pageWalk (page2pa r) (DOWN_ALIGN va PAGE_SIZE) True s;
     let s = s\<lparr>mem := store64 (mem s) pte (new_entry pa perm)\<rparr>;
     if is_ram (DOWN_ALIGN pa PAGE_SIZE) then do {
       page \<leftarrow> pa2page (DOWN_ALIGN pa PAGE_SIZE);
       Some (0, s\<lparr>page_ref := (page_ref s)(page := page_ref s page + 1)\<rparr>) }
     else Some (0, s) }"
  by (simp add: pageInsert_def drop_old_def new_entry_def Let_def bind_assoc split_def)

lemma insert_walk:
  assumes inv: "pt_inv s r F" and len: "2 \<le> length F"
  shows "\<exists>t F' lf. pageWalk (page2pa r) va True s = Some (page2pa lf + 8 * of_nat (ix va 0), t)
     \<and> grows r F s F' t \<and> node_page (pcells t) r (Leaf (ix va 2) (ix va 1)) = Some lf
     \<and> length F \<le> length F' + 2"
  by (rule pageWalk_True [OF pt_invD(1,2) [OF inv] len])

lemma pageInsert_spec:
  assumes inv: "pt_inv s r F" and len: "2 \<le> length F" and perm: "perm_only perm" and pa: "unat pa < 2 ^ 56"
    and q: "insertable s r F va q" and pq: "is_ram (DOWN_ALIGN pa PAGE_SIZE) \<Longrightarrow> DOWN_ALIGN pa PAGE_SIZE = page2pa q"
  shows "\<exists>t F'. pageInsert (page2pa r) va pa perm s = Some (0, t) \<and> pt_inv t r F' \<and> only_mem s t
     \<and> length F \<le> length F' + 2
     \<and> (\<forall>a < 512. \<forall>b < 512. \<forall>k < 512. entry_at t r a b k =
          (if a = ix va 2 \<and> b = ix va 1 \<and> k = ix va 0 then new_entry pa perm else entry_at s r a b k))
     \<and> (\<forall>a. (\<forall>p \<in> tables (pcells t) r. \<not> in_range a (page2pa p) 4096) \<longrightarrow> mem t a = mem s a)
     \<and> tables (pcells t) r \<subseteq> tables (pcells s) r \<union> set F \<union> {p. page_ref s p = 1 \<and> (ix va 2, ix va 1, ix va 0) \<in> maps s r p}"
proof -
  let ?i = "ix va 2" and ?j = "ix va 1" and ?k = "ix va 0" and ?va = "DOWN_ALIGN va PAGE_SIZE"
  note Q = q [unfolded insertable_def]
  have Q5: "page_ref s q = 1 \<longrightarrow> (ix ?va 2, ix ?va 1, ix ?va 0) \<notin> maps s r q" using Q by simp
  note D = drop_old_spec [OF inv _ _ _ _ Q5, unfolded ix_DOWN_ALIGN, OF Q [THEN conjunct1]
      Q [THEN conjunct2, THEN conjunct1] Q [THEN conjunct2, THEN conjunct2, THEN conjunct1]
      Q [THEN conjunct2, THEN conjunct2, THEN conjunct2, THEN conjunct1]]
  obtain x t1 F1 where 1: "drop_old r ?va s = Some (x, t1)" "pt_inv t1 r F1" "length F \<le> length F1" "only_mem s t1"
    "\<forall>p < PHYSICAL_PAGE_NUM. (?i, ?j, ?k) \<notin> maps t1 r p"
    "\<forall>a < 512. \<forall>b < 512. \<forall>k < 512. (a, b, k) \<noteq> (?i, ?j, ?k) \<longrightarrow> entry_at t1 r a b k = entry_at s r a b k"
    "tables (pcells t1) r = tables (pcells s) r" "q \<notin> set F1" "page_ref t1 q \<noteq> - 1"
    "\<forall>a. (\<forall>p \<in> tables (pcells s) r. \<not> in_range a (page2pa p) 4096) \<longrightarrow> mem t1 a = mem s a"
    "set F1 \<subseteq> set F \<union> {p. page_ref s p = 1 \<and> (?i, ?j, ?k) \<in> maps s r p}"
    using D by (elim exE conjE) (rule that)
  obtain t2 F2 lf where 2: "pageWalk (page2pa r) ?va True t1 = Some (page2pa lf + 8 * of_nat ?k, t2)"
    "grows r F1 t1 F2 t2" "node_page (pcells t2) r (Leaf ?i ?j) = Some lf" "length F1 \<le> length F2 + 2"
    using insert_walk [OF 1(2), of ?va] len 1(3) unfolding ix_DOWN_ALIGN by auto
  have len2: "length F \<le> length F2 + 2" using 1(3) 2(4) by simp
  note inv2 = pt_inv_grows [OF 1(2) 2(2)]
  have sub: "set F2 \<subseteq> set F1" using growsD(2) [OF 2(2)] by auto
  have pv: "PTE2PA (new_entry pa perm) = DOWN_ALIGN pa PAGE_SIZE" by (rule PTE2PA_new_entry [OF pa perm])
  define t where "t = t2\<lparr>mem := store64 (mem t2) (page2pa lf + 8 * of_nat ?k) (new_entry pa perm),
     page_ref := (if is_ram (DOWN_ALIGN pa PAGE_SIZE) then (page_ref t2)(q := page_ref t2 q + 1) else page_ref t2)\<rparr>"
  have run: "pageInsert (page2pa r) va pa perm s = Some (0, t)"
    using 1(1) 2(1) pq pa2page_page2pa Q by (auto simp: pageInsert_drop_old t_def Let_def)
  have m2: "maps t2 r p = maps t1 r p" for p using growsD(5) [OF 2(2)] by (auto simp: maps_def)
  have ref2: "page_ref t2 q = page_ref t1 q" using growsD(8) [OF 2(2), of q] 1(8) by simp
  have qt: "q \<notin> tables (pcells t2) r" using growsD(7) [OF 2(2)] 1(7,8) Q by auto
  have om: "only_mem t2 t" by (simp add: t_def only_mem_def)
  have old: "\<And>p. p < PHYSICAL_PAGE_NUM \<Longrightarrow> (?i, ?j, ?k) \<notin> maps t2 r p" using 1(5) m2 by simp
  have ref: "page_ref t = (if is_ram (PTE2PA (new_entry pa perm)) then (page_ref t2)(q := page_ref t2 q + 1) else page_ref t2)"
    by (simp add: t_def pv)
  have tgt: "is_ram (PTE2PA (new_entry pa perm)) \<Longrightarrow> PTE2PA (new_entry pa perm) = page2pa q \<and> q < PHYSICAL_PAGE_NUM
       \<and> q \<notin> set F2 \<and> q \<notin> tables (pcells t2) r \<and> page_ref t2 q \<noteq> - 1"
    using pq Q sub qt ref2 1(8,9) by (auto simp: pv)
  have mt: "mem t = store64 (mem t2) (page2pa lf + 8 * of_nat ?k) (new_entry pa perm)" "page_links t = page_links t2"
    by (simp_all add: t_def)
  note S = pt_inv_set [OF inv2 2(3) ix_less ix_less ix_less old om mt ref tgt]
  have T: "tables (pcells t) r = tables (pcells t2) r" by (rule S(3)) simp_all
  have lft: "lf \<in> tables (pcells t2) r"
    unfolding tables_def using 2(3) ix_less by (auto simp del: node_page.simps intro!: exI [of _ "Leaf ?i ?j"])
  have lfN: "lf < PHYSICAL_PAGE_NUM" using table_okD(1) [OF pt_invD(2) [OF inv2] _ 2(3)] ix_less by simp
  have "mem t a = mem s a" if a: "\<And>p. p \<in> tables (pcells t) r \<Longrightarrow> \<not> in_range a (page2pa p) 4096" for a
  proof -
    have "mem t a = mem t2 a" using store_cell_other [OF lfN ix_less] a lft T by (simp add: mt)
    also have "\<dots> = mem t1 a" using growsD(9) [OF 2(2)] a T by simp
    also have "\<dots> = mem s a" using 1(7,10) a T grows_tables_mono [OF 2(2)] by blast
    finally show ?thesis .
  qed
  moreover have "entry_at t r a b k = (if a = ?i \<and> b = ?j \<and> k = ?k then new_entry pa perm else entry_at s r a b k)"
    if "a < 512" "b < 512" "k < 512" for a b k
    using S(2) [OF _ _ that] growsD(5) [OF 2(2) that] 1(6) that by auto
  moreover have "only_mem s t" using only_mem_trans [OF 1(4) only_mem_trans [OF growsD(3) [OF 2(2)] om]] .
  moreover have "tables (pcells t) r \<subseteq> tables (pcells s) r \<union> set F \<union> {p. page_ref s p = 1 \<and> (?i, ?j, ?k) \<in> maps s r p}"
    using T growsD(7) [OF 2(2)] 1(7,11) by blast
  ultimately show ?thesis using run S(1) len2 by blast
qed

text \<open>Memory outside the tables may change freely.\<close>

lemma pt_inv_cong:
  assumes inv: "pt_inv s r F" and t: "page_links t = page_links s" "page_ref t = page_ref s"
    and eq: "\<And>a p. p \<in> tables (pcells s) r \<Longrightarrow> in_range a (page2pa p) 4096 \<Longrightarrow> mem t a = mem s a"
  shows "pt_inv t r F" and "tables (pcells t) r = tables (pcells s) r"
    and "a < 512 \<Longrightarrow> b < 512 \<Longrightarrow> k < 512 \<Longrightarrow> entry_at t r a b k = entry_at s r a b k"
proof -
  have "\<forall>p \<in> tables (pcells s) r. \<forall>k < 512. pcells t p k = pcells s p k"
  proof (intro ballI allI impI)
    fix p k assume p: "p \<in> tables (pcells s) r" and k: "k < (512 :: nat)"
    then have "p < PHYSICAL_PAGE_NUM" using table_okD(1) [OF pt_invD(2) [OF inv]] by (auto simp: tables_def)
    then show "pcells t p k = pcells s p k" using eq [OF p] k by (intro cells_cong)
  qed
  note C = table_ok_cong_tables [OF pt_invD(2) [OF inv] this]
  show T: "tables (pcells t) r = tables (pcells s) r" using C(2) by (auto simp: tables_def simp del: node_page.simps)
  show "a < 512 \<Longrightarrow> b < 512 \<Longrightarrow> k < 512 \<Longrightarrow> entry_at t r a b k = entry_at s r a b k" by (rule C(3))
  have "maps t r p = maps s r p" for p using C(3) by (auto simp: maps_def)
  then show "pt_inv t r F" using inv C(1) by (simp add: pt_inv_def T free_ok_cong [OF t(1)] t(2))
qed

text \<open>A page from the free list can be inserted at once.\<close>

lemma pageAlloc_insertable:
  assumes inv: "pt_inv s r (q # F)"
  shows "\<exists>t. pageAlloc s = Some (q, t) \<and> pt_inv t r F \<and> insertable t r F va q \<and> only_mem s t
     \<and> tables (pcells t) r = tables (pcells s) r
     \<and> (\<forall>a < 512. \<forall>b < 512. \<forall>k < 512. entry_at t r a b k = entry_at s r a b k)
     \<and> (\<forall>a. \<not> in_range a (page2pa q) 4096 \<longrightarrow> mem t a = mem s a)"
proof -
  obtain t where t: "pageAlloc s = Some (q, t)" "free_ok t F" "mem t = fill (mem s) (page2pa q) 4096 0"
    "page_ref t = page_ref s" "only_mem s t"
    using pageAlloc_Cons [OF pt_invD(1) [OF inv]] by blast
  have qN: "q < PHYSICAL_PAGE_NUM" and qF: "q \<notin> set F"
    using pt_invD(1) [OF inv] free_ok_distinct [OF pt_invD(1) [OF inv]] by (auto simp: free_ok_def)
  have qt: "q \<notin> tables (pcells s) r" using table_okD(2) [OF pt_invD(2) [OF inv]] by (auto simp: tables_def)
  have out: "mem t a = mem s a" if "\<not> in_range a (page2pa q) 4096" for a using that by (simp add: t(3) fill_def)
  have eq: "mem t a = mem s a" if p: "p \<in> tables (pcells s) r" "in_range a (page2pa p) 4096" for a p
  proof -
    have "p < PHYSICAL_PAGE_NUM" using p(1) table_okD(1) [OF pt_invD(2) [OF inv]] by (auto simp: tables_def)
    moreover have "p \<noteq> q" using p qt by auto
    ultimately have "\<not> in_range a (page2pa q) 4096" using p(2) in_page_iff [of p a] in_page_iff [OF qN, of a] by auto
    then show ?thesis by (rule out)
  qed
  let ?t = "t\<lparr>page_links := page_links s\<rparr>"
  have C: "pt_inv ?t r (q # F)" "tables (pcells ?t) r = tables (pcells s) r"
    "a < 512 \<Longrightarrow> b < 512 \<Longrightarrow> k < 512 \<Longrightarrow> entry_at ?t r a b k = entry_at s r a b k" for a b k
    using pt_inv_cong [OF inv, of ?t] eq t(4) by simp_all
  have m: "maps t r p = maps ?t r p" for p by (simp add: maps_def)
  have "table_ok (pcells t) r (set F)" using pt_invD(2) [OF C(1)] by (auto simp: table_ok_def simp del: node_page.simps)
  then have "pt_inv t r F" using C(1) t(2) by (simp add: pt_inv_def m)
  moreover have "insertable t r F va q"
    using qN qF qt C(2) t(4) pt_invD(3) [OF inv, of q] by (simp add: insertable_def)
  ultimately show ?thesis using t(1,5) C(2,3) out by (intro exI [of _ t]) auto
qed

section \<open>Properties\<close>

text \<open>A memory with an empty table in page \<open>r\<close> and the free pages \<open>F\<close>.\<close>

definition fresh_kmem :: "nat list \<Rightarrow> kmem" where
  "fresh_kmem F = zero_kmem\<lparr>page_links := foldr (LIST_INSERT_HEAD ()) F zero_lists\<rparr>"

lemma fresh_kmem_sel [simp]: "mem (fresh_kmem F) = (\<lambda>_. 0)" "page_ref (fresh_kmem F) = (\<lambda>_. 0)"
  by (simp_all add: fresh_kmem_def)

lemma fresh_links: "distinct F \<Longrightarrow> lists_abs (foldr (LIST_INSERT_HEAD ()) F zero_lists) (\<lambda>_. F)"
proof (induction F)
  case Nil
  show ?case by simp
next
  case (Cons x F)
  then have "lists_abs (LIST_INSERT_HEAD () x (foldr (LIST_INSERT_HEAD ()) F zero_lists)) ((\<lambda>_. F)(() := x # F))"
    by (intro lists_abs_insert_head) (auto simp: on_lists_def)
  then show ?case by (simp add: fun_upd_def)
qed

lemma cells_zero [simp]: "cells (\<lambda>_. 0) p k = 0"
  by (simp add: cells_def load64_def load_le_zero)

lemma fresh_entry [simp]: "pt_entry (cells (\<lambda>_. 0)) r a b k = 0"
  by (simp add: pt_entry_def)

lemma fresh_maps [simp]: "maps (fresh_kmem F) r p = {}"
  by (simp add: maps_def)

lemma fresh_node [simp]: "node_page (cells (\<lambda>_. 0)) r n = (if n = Root then Some r else None)"
  by (cases n) simp_all

lemma pt_inv_fresh:
  assumes "distinct F" "set F \<subseteq> {..<PHYSICAL_PAGE_NUM}" "r < PHYSICAL_PAGE_NUM" "r \<notin> set F"
  shows "pt_inv (fresh_kmem F) r F"
proof -
  have "free_ok (fresh_kmem F) F" using assms fresh_links by (simp add: free_ok_def fresh_kmem_def)
  moreover have "table_ok (cells (\<lambda>_. 0)) r (set F)"
    unfolding table_ok_def using assms by (simp del: node_page.simps split: if_splits)
  ultimately show ?thesis by (simp add: pt_inv_def)
qed

lemma fresh_tables: "tables (pcells (fresh_kmem F)) r = {r}"
  by (auto simp: tables_def simp del: node_page.simps split: if_splits intro!: exI [of _ Root])

lemma insertable_fresh:
  "q < PHYSICAL_PAGE_NUM \<Longrightarrow> q \<noteq> r \<Longrightarrow> q \<notin> set F \<Longrightarrow> insertable (fresh_kmem F) r F va q"
  using fresh_tables [of F r] by (simp add: insertable_def)

text \<open>The address \<^verbatim>\<open>pageLookup\<close> returns, by the entry it reads.\<close>

lemma fst_pageLookup:
  "table_ok (pcells s) r F \<Longrightarrow> fst (pageLookup (page2pa r) va s) =
     (let e = entry_at s r (ix va 2) (ix va 1) (ix va 0) in if e AND PTE_VALID = 0 then 0 else PTE2PA e)"
  by (simp add: pageLookup_eq Let_def)

text \<open>
  C1: \<^verbatim>\<open>pageInsert\<close> of a physical page into a well-formed table succeeds when two pages are free for
  tables and the page is neither free nor a table nor one whose only reference is the mapping that is
  replaced; it keeps the table and the reference counts well formed, makes \<^verbatim>\<open>pageLookup\<close> of the address return that page, leaves the
  translation of every other page and all memory outside the tables alone.
\<close>

theorem pageInsert_correct:
  assumes "pt_inv s r F" and "2 \<le> length F" and "perm_only perm" and "insertable s r F va q"
  shows "\<exists>t F'. pageInsert (page2pa r) va (page2pa q) perm s = Some (0, t) \<and> pt_inv t r F' \<and> only_mem s t
     \<and> fst (pageLookup (page2pa r) va t) = page2pa q
     \<and> (\<forall>va'. (ix va' 2, ix va' 1, ix va' 0) \<noteq> (ix va 2, ix va 1, ix va 0)
          \<longrightarrow> fst (pageLookup (page2pa r) va' t) = fst (pageLookup (page2pa r) va' s))
     \<and> (\<forall>a. (\<forall>p \<in> tables (pcells t) r. \<not> in_range a (page2pa p) 4096) \<longrightarrow> mem t a = mem s a)"
proof -
  have q: "q < PHYSICAL_PAGE_NUM" using assms(4) by (simp add: insertable_def)
  have pa: "unat (page2pa q) < 2 ^ 56" using unat_page2pa [OF q] q by simp
  obtain t F' where t: "pageInsert (page2pa r) va (page2pa q) perm s = Some (0, t)" "pt_inv t r F'" "only_mem s t"
    and e: "\<forall>a < 512. \<forall>b < 512. \<forall>k < 512. entry_at t r a b k =
       (if a = ix va 2 \<and> b = ix va 1 \<and> k = ix va 0 then new_entry (page2pa q) perm else entry_at s r a b k)"
    and m: "\<forall>a. (\<forall>p \<in> tables (pcells t) r. \<not> in_range a (page2pa p) 4096) \<longrightarrow> mem t a = mem s a"
    using pageInsert_spec [OF assms(1-3) pa assms(4) DOWN_ALIGN_page2pa [OF q]] by (elim exE conjE) (rule that)
  have e': "entry_at t r (ix va' 2) (ix va' 1) (ix va' 0) = (if (ix va' 2, ix va' 1, ix va' 0) = (ix va 2, ix va 1, ix va 0)
      then new_entry (page2pa q) perm else entry_at s r (ix va' 2) (ix va' 1) (ix va' 0))" for va'
    using e ix_less by simp
  have "fst (pageLookup (page2pa r) va t) = page2pa q"
    using fst_pageLookup [OF pt_invD(2) [OF t(2)], of va] new_entry_valid [of "page2pa q" perm]
      PTE2PA_new_entry [OF pa assms(3)] q by (simp add: e' Let_def)
  moreover have "fst (pageLookup (page2pa r) va' t) = fst (pageLookup (page2pa r) va' s)"
    if "(ix va' 2, ix va' 1, ix va' 0) \<noteq> (ix va 2, ix va 1, ix va 0)" for va'
    using that fst_pageLookup [OF pt_invD(2) [OF t(2)], of va'] fst_pageLookup [OF pt_invD(2) [OF assms(1)], of va']
    by (simp only: e' if_False)
  ultimately show ?thesis using t m by blast
qed

theorem pageInsert_correct_witness:
  "\<exists>t. pageInsert (page2pa 0) 0x12345000 (page2pa 9) PTE_READ (fresh_kmem [1, 2, 3]) = Some (0, t)
     \<and> fst (pageLookup (page2pa 0) 0x12345000 t) = page2pa 9"
  using pageInsert_correct [OF pt_inv_fresh [of "[1, 2, 3]" 0] _ _ insertable_fresh [of 9 0 "[1, 2, 3]" "0x12345000"], of PTE_READ]
  by auto

text \<open>
  C2: \<^verbatim>\<open>pageRemove\<close> of a mapped page leaves the address unmapped and every other translation alone,
  gives up one reference, returns the page to the free list exactly when that was the last one, and
  keeps the table well formed; of an address that is not mapped it fails and changes nothing.
\<close>

theorem pageRemove_correct:
  assumes "pt_inv s r F" and "entry_at s r (ix va 2) (ix va 1) (ix va 0) = e"
  shows "(e AND PTE_VALID = 0 \<longrightarrow> pageRemove (page2pa r) va s = Some (- 1, s))
    \<and> (\<forall>p < PHYSICAL_PAGE_NUM. e AND PTE_VALID \<noteq> 0 \<longrightarrow> PTE2PA e = page2pa p \<longrightarrow>
        (\<exists>t. pageRemove (page2pa r) va s = Some (0, t) \<and> pt_inv t r (if page_ref s p = 1 then p # F else F)
          \<and> page_ref t = (page_ref s)(p := page_ref s p - 1)
          \<and> fst (pageLookup (page2pa r) va t) = 0
          \<and> (\<forall>va'. (ix va' 2, ix va' 1, ix va' 0) \<noteq> (ix va 2, ix va 1, ix va 0)
               \<longrightarrow> fst (pageLookup (page2pa r) va' t) = fst (pageLookup (page2pa r) va' s))))"
proof (intro conjI impI allI)
  show "pageRemove (page2pa r) va s = Some (- 1, s)" if "e AND PTE_VALID = 0"
    using pageRemove_other [OF pt_invD(2) [OF assms(1)] assms(2)] that by blast
next
  fix p assume p: "p < PHYSICAL_PAGE_NUM" and v: "e AND PTE_VALID \<noteq> 0" and pe: "PTE2PA e = page2pa p"
  obtain t where t: "pageRemove (page2pa r) va s = Some (0, t)" "pt_inv t r (if page_ref s p = 1 then p # F else F)"
    "\<forall>a < 512. \<forall>b < 512. \<forall>x < 512. entry_at t r a b x =
          (if a = ix va 2 \<and> b = ix va 1 \<and> x = ix va 0 then 0 else entry_at s r a b x)"
    "page_ref t = (page_ref s)(p := page_ref s p - 1)"
    using pageRemove_ram [OF assms(1,2) v pe p] by (elim exE conjE) (rule that)
  have e': "entry_at t r (ix va' 2) (ix va' 1) (ix va' 0) = (if (ix va' 2, ix va' 1, ix va' 0) = (ix va 2, ix va 1, ix va 0)
      then 0 else entry_at s r (ix va' 2) (ix va' 1) (ix va' 0))" for va'
    using t(3) ix_less by simp
  have "fst (pageLookup (page2pa r) va t) = 0"
    using fst_pageLookup [OF pt_invD(2) [OF t(2)], of va] by (simp add: e' Let_def)
  moreover have "fst (pageLookup (page2pa r) va' t) = fst (pageLookup (page2pa r) va' s)"
    if "(ix va' 2, ix va' 1, ix va' 0) \<noteq> (ix va 2, ix va 1, ix va 0)" for va'
    using that fst_pageLookup [OF pt_invD(2) [OF t(2)], of va'] fst_pageLookup [OF pt_invD(2) [OF assms(1)], of va']
    by (simp only: e' if_False)
  ultimately show "\<exists>t. pageRemove (page2pa r) va s = Some (0, t) \<and> pt_inv t r (if page_ref s p = 1 then p # F else F)
          \<and> page_ref t = (page_ref s)(p := page_ref s p - 1)
          \<and> fst (pageLookup (page2pa r) va t) = 0
          \<and> (\<forall>va'. (ix va' 2, ix va' 1, ix va' 0) \<noteq> (ix va 2, ix va 1, ix va 0)
               \<longrightarrow> fst (pageLookup (page2pa r) va' t) = fst (pageLookup (page2pa r) va' s))"
    using t by blast
qed

theorem pageRemove_correct_witness:
  "\<exists>t u. pageInsert (page2pa 0) 0x12345000 (page2pa 9) PTE_READ (fresh_kmem [1, 2, 3]) = Some (0, t)
     \<and> pageRemove (page2pa 0) 0x12345000 t = Some (0, u) \<and> fst (pageLookup (page2pa 0) 0x12345000 u) = 0"
proof -
  let ?va = "0x12345000 :: u64" and ?e = "new_entry (page2pa 9) PTE_READ"
  have pa: "unat (page2pa 9) < 2 ^ 56" using unat_page2pa [of 9] by simp
  have inv: "pt_inv (fresh_kmem [1, 2, 3]) 0 [1, 2, 3]" by (rule pt_inv_fresh) simp_all
  obtain t F' where t: "pageInsert (page2pa 0) ?va (page2pa 9) PTE_READ (fresh_kmem [1, 2, 3]) = Some (0, t)"
    "pt_inv t 0 F'" and e: "entry_at t 0 (ix ?va 2) (ix ?va 1) (ix ?va 0) = ?e"
    using pageInsert_spec [OF inv _ perm_only_numeral(2) pa insertable_fresh [of 9], where va = ?va] ix_less by auto
  have "PTE2PA ?e = page2pa 9" using PTE2PA_new_entry [OF pa perm_only_numeral(2)] by simp
  then obtain u where "pageRemove (page2pa 0) ?va t = Some (0, u)" "fst (pageLookup (page2pa 0) ?va u) = 0"
    using pageRemove_correct [OF t(2) e, THEN conjunct2, rule_format, of 9] new_entry_valid by auto
  with t show ?thesis by blast
qed

end
