(* ===== verification/Uaccess.thy ===== *)
theory Uaccess
  imports Page_Map
begin

text \<open>
  Page faults and access to user memory: \<^verbatim>\<open>pageout\<close>, \<^verbatim>\<open>cowHandler\<close>, \<^verbatim>\<open>vir2phy\<close>, \<^verbatim>\<open>copyin\<close>, \<^verbatim>\<open>copyout\<close>,
  \<^verbatim>\<open>memsetOut\<close>, \<^verbatim>\<open>growproc\<close> and \<^verbatim>\<open>sys_sbrk\<close> of \<^verbatim>\<open>src/kernel/memory/Page.c\<close>, the \<^verbatim>\<open>either_\<close> wrappers of
  \<^verbatim>\<open>src/kernel/yield/Process.c\<close>, and \<^verbatim>\<open>copyinstr\<close> of \<^verbatim>\<open>src/kernel/trap/Sysarg.c\<close>.
\<close>

text \<open>
  Reading a file into kernel memory, as \<^verbatim>\<open>pageout\<close> calls it: the entry, the destination, the offset
  and the count.
\<close>

type_synonym 'z file_reader = "nat option \<Rightarrow> u64 \<Rightarrow> u32 \<Rightarrow> u32 \<Rightarrow> 'z kmem_scheme \<Rightarrow> (int \<times> 'z kmem_scheme) option"

section \<open>Kernel virtual addresses\<close>

text \<open>Translation by the kernel's own table; a kernel access to an unmapped address stops the kernel.\<close>

definition kva :: "u64 \<Rightarrow> 'z kmem_scheme \<Rightarrow> u64 option" where
  "kva va s = (let pa = fst (pageLookup (kernelPageDirectory s) va s)
     in if pa = 0 then None else Some (pa + (va AND 0xFFF)))"

section \<open>Demand paging\<close>

text \<open>The loop over the segments that meet the page: the page once it is allocated, and its permissions.\<close>

partial_function (option) pageout_segments ::
  "'z file_reader \<Rightarrow> u64 \<Rightarrow> nat option \<Rightarrow> nat option \<Rightarrow> u64 \<Rightarrow> 'z kmem_scheme \<Rightarrow> ((nat option \<times> u64) \<times> 'z kmem_scheme) option" where
  "pageout_segments er pageStart psm page perm s = (case psm of
     None \<Rightarrow> Some ((page, perm), s)
   | Some m \<Rightarrow>
       (let p = segmentMaps s m;
            start = max (psm_va p) pageStart;
            finish = min (psm_va p + ucast (psm_len p)) (pageStart + PAGE_SIZE)
        in if start < finish then
             Option.bind (case page of None \<Rightarrow> pageAlloc s | Some pg \<Rightarrow> Some (pg, s)) (\<lambda>(pg, s).
             Option.bind (if psm_flag p AND 1 = 0
                then er (sourceFile p) (page2pa pg + PAGE_OFFSET start PAGE_SIZE)
                        (ucast (fileOffset p + start - psm_va p)) (ucast (finish - start)) s
                else Some (0, s)) (\<lambda>(r, s).
             pageout_segments er pageStart (psm_next (segmentMaps s m)) (Some pg)
               (perm OR ucast (psm_flag p AND NOT 1)) s))
           else pageout_segments er pageStart (psm_next p) page perm s))"

definition pageout :: "'z file_reader \<Rightarrow> u64 \<Rightarrow> u64 \<Rightarrow> 'z kmem_scheme \<Rightarrow> (u64 \<times> 'z kmem_scheme) option" where
  "pageout er pgdir badAddr s = do {
     kassert (\<not> badAddr \<le> PAGE_SIZE);
     if USER_STACK_BOTTOM \<le> badAddr \<and> badAddr < USER_STACK_TOP then do {
       (page, s) \<leftarrow> pageAlloc s;
       (r, s) \<leftarrow> pageInsert pgdir badAddr (page2pa page) (PTE_USER OR PTE_READ OR PTE_WRITE) s;
       kassert (\<not> r < 0);
       Some (page2pa page + (badAddr AND 0xFFF), s) }
     else do {
       p \<leftarrow> myProcess s;
       ((page, perm), s) \<leftarrow> pageout_segments er (DOWN_ALIGN badAddr PAGE_SIZE)
          (segmentMapHead (processes s p)) None 0 s;
       page \<leftarrow> page;
       (r, s) \<leftarrow> pageInsert pgdir badAddr (page2pa page) (PTE_USER OR perm) s;
       Some (page2pa page + (badAddr AND 0xFFF), s) } }"

section \<open>Copy on write\<close>

definition cowHandler :: "u64 \<Rightarrow> u64 \<Rightarrow> 'z kmem_scheme \<Rightarrow> (u64 \<times> 'z kmem_scheme) option" where
  "cowHandler pgdir badAddr s = do {
     pte \<leftarrow> snd (pageLookup pgdir badAddr s);
     kassert (load64 (mem s) pte AND PTE_COW \<noteq> 0);
     (page, s) \<leftarrow> pageAlloc s;
     let (pa, pte') = pageLookup pgdir badAddr s;
     let pte = (case pte' of None \<Rightarrow> pte | Some e \<Rightarrow> e);
     let s = s\<lparr>mem := bcopy (mem s) pa (page2pa page) 4096\<rparr>;
     (r, s) \<leftarrow> pageInsert pgdir badAddr (page2pa page)
        ((PTE2PERM (load64 (mem s) pte) OR PTE_WRITE) AND NOT PTE_COW) s;
     Some (page2pa page + (badAddr AND 0xFFF), s) }"

section \<open>Copies between kernel and user memory\<close>

text \<open>
  The physical address, zero when the page is not mapped for the user, and the copy-on-write flag.
  A missing table is dereferenced through a NULL pointer.
\<close>

definition vir2phy :: "u64 \<Rightarrow> u64 \<Rightarrow> 'z kmem_scheme \<Rightarrow> (u64 \<times> bool) option" where
  "vir2phy pagetable va s =
     (if MAXVA \<le> va then Some (0, False)
      else do {
        (pte, s) \<leftarrow> pageWalk pagetable va False s;
        kassert (pte \<noteq> 0);
        let e = load64 (mem s) pte;
        if e AND PTE_VALID = 0 then Some (0, False)
        else if e AND PTE_USER = 0 then Some (0, False)
        else Some (PTE2PA e + (va AND 0xFFF), e AND PTE_COW > 0) })"

definition mem_bytes :: "bytes \<Rightarrow> u64 \<Rightarrow> nat \<Rightarrow> u8 list" where
  "mem_bytes m a n = map (\<lambda>i. m (a + of_nat i)) [0..<n]"

primrec mem_write :: "bytes \<Rightarrow> u64 \<Rightarrow> u8 list \<Rightarrow> bytes" where
  "mem_write m a [] = m"
| "mem_write m a (b # bs) = mem_write (m(a := b)) (a + 1) bs"

text \<open>The number of bytes up to the end of the page, or to the end of the copy.\<close>

definition chunk :: "u64 \<Rightarrow> u64 \<Rightarrow> u64" where
  "chunk va len = (let n = PAGE_SIZE - (va - DOWN_ALIGN va PAGE_SIZE) in if n > len then len else n)"

lemma page_offset_less: "unat (va - DOWN_ALIGN va PAGE_SIZE) < 4096"
proof -
  have "va AND NOT (mask 12) = push_bit 12 (drop_bit 12 va)"
    by (rule bit_word_eqI) (auto simp: bit_simps)
  then have "(va AND NOT (mask 12)) + take_bit 12 va = va"
    by (simp only: bits_ident)
  then have "va - DOWN_ALIGN va PAGE_SIZE = take_bit 12 va"
    unfolding DOWN_ALIGN_page by (metis add_diff_cancel_left')
  then show ?thesis using unat_take_bit [of 12 va] by simp
qed

lemma chunk_bounds:
  "len \<noteq> 0 \<Longrightarrow> 0 < unat (chunk va len)" "unat (chunk va len) \<le> unat len" "unat (chunk va len) \<le> 4096"
proof -
  let ?n = "PAGE_SIZE - (va - DOWN_ALIGN va PAGE_SIZE)"
  have n: "unat ?n = 4096 - unat (va - DOWN_ALIGN va PAGE_SIZE)"
    using page_offset_less [of va] by (subst unat_sub) (simp_all add: word_le_nat_alt)
  show "len \<noteq> 0 \<Longrightarrow> 0 < unat (chunk va len)" "unat (chunk va len) \<le> unat len" "unat (chunk va len) \<le> 4096"
    using n page_offset_less [of va] by (auto simp: chunk_def Let_def word_less_nat_alt not_less unat_gt_0)
qed

lemma unat_minus_chunk: "len \<noteq> 0 \<Longrightarrow> unat (len - chunk va len) < unat len"
  using chunk_bounds(1,2) [where len = len and va = va] by (subst unat_sub) (auto simp: word_le_nat_alt)

function copyin :: "'z file_reader \<Rightarrow> u64 \<Rightarrow> u64 \<Rightarrow> u64 \<Rightarrow> 'z kmem_scheme \<Rightarrow> (u8 list \<times> 'z kmem_scheme) option" where
  "copyin er pagetable srcva len s =
     (if len = 0 then Some ([], s)
      else do {
        (pa0, cow) \<leftarrow> vir2phy pagetable srcva s;
        (pa0, s) \<leftarrow> (if pa0 = 0 then pageout er pagetable srcva s else Some (pa0, s));
        let n = chunk srcva len;
        let bs = mem_bytes (mem s) pa0 (unat n);
        (rest, s) \<leftarrow> copyin er pagetable (DOWN_ALIGN srcva PAGE_SIZE + PAGE_SIZE) (len - n) s;
        Some (bs @ rest, s) })"
  by pat_completeness auto
termination
  by (relation "measure (\<lambda>(er, pagetable, srcva, len, s). unat len)") (auto simp: unat_minus_chunk)

text \<open>\<^verbatim>\<open>copyout\<close> of the bytes of a kernel buffer.\<close>

function copyout :: "'z file_reader \<Rightarrow> u64 \<Rightarrow> u64 \<Rightarrow> u8 list \<Rightarrow> u64 \<Rightarrow> 'z kmem_scheme \<Rightarrow> (int \<times> 'z kmem_scheme) option" where
  "copyout er pagetable dstva src len s =
     (if len = 0 then Some (0, s)
      else do {
        (pa0, cow) \<leftarrow> vir2phy pagetable dstva s;
        (pa0, s) \<leftarrow> (if pa0 = 0 then pageout er pagetable dstva s
                    else if cow then cowHandler pagetable dstva s else Some (pa0, s));
        let n = chunk dstva len;
        let s = s\<lparr>mem := mem_write (mem s) pa0 (take (unat n) src)\<rparr>;
        copyout er pagetable (DOWN_ALIGN dstva PAGE_SIZE + PAGE_SIZE) (drop (unat n) src) (len - n) s })"
  by pat_completeness auto
termination
  by (relation "measure (\<lambda>(er, pagetable, dstva, src, len, s). unat len)") (auto simp: unat_minus_chunk)

function memsetOut :: "'z file_reader \<Rightarrow> u64 \<Rightarrow> u64 \<Rightarrow> u8 \<Rightarrow> u64 \<Rightarrow> 'z kmem_scheme \<Rightarrow> (int \<times> 'z kmem_scheme) option" where
  "memsetOut er pgdir dst value len s =
     (if len = 0 then Some (0, s)
      else do {
        (pa0, cow) \<leftarrow> vir2phy pgdir dst s;
        (pa0, s) \<leftarrow> (if pa0 = 0 then pageout er pgdir dst s
                    else if cow then cowHandler pgdir dst s else Some (pa0, s));
        let n = chunk dst len;
        let s = s\<lparr>mem := memset (mem s) pa0 (uint value) (ucast n)\<rparr>;
        memsetOut er pgdir (DOWN_ALIGN dst PAGE_SIZE + PAGE_SIZE) value (len - n) s })"
  by pat_completeness auto
termination
  by (relation "measure (\<lambda>(er, pgdir, dst, value, len, s). unat len)") (auto simp: unat_minus_chunk)

declare copyin.simps [simp del] copyout.simps [simp del] memsetOut.simps [simp del]

section \<open>System call arguments\<close>

text \<open>The string without its NUL, \<open>None\<close> for the result -1.\<close>

function copyinstr :: "'z file_reader \<Rightarrow> u64 \<Rightarrow> u64 \<Rightarrow> u64 \<Rightarrow> 'z kmem_scheme \<Rightarrow> (u8 list option \<times> 'z kmem_scheme) option" where
  "copyinstr er pagetable srcva mx s =
     (if mx = 0 then Some (None, s)
      else do {
        (pa0, cow) \<leftarrow> vir2phy pagetable srcva s;
        (pa0, s) \<leftarrow> (if pa0 = 0 then pageout er pagetable srcva s else Some (pa0, s));
        let n = chunk srcva mx;
        let bs = mem_bytes (mem s) pa0 (unat n);
        let str = takeWhile (\<lambda>b. b \<noteq> 0) bs;
        if length str < length bs then Some (Some str, s)
        else do {
          (r, s) \<leftarrow> copyinstr er pagetable (DOWN_ALIGN srcva PAGE_SIZE + PAGE_SIZE) (mx - n) s;
          Some (map_option (\<lambda>rest. str @ rest) r, s) } })"
  by pat_completeness auto
termination
  by (relation "measure (\<lambda>(er, pagetable, srcva, mx, s). unat mx)") (auto simp: unat_minus_chunk)

declare copyinstr.simps [simp del]

primrec le_word :: "u8 list \<Rightarrow> u64" where
  "le_word [] = 0"
| "le_word (b # bs) = ucast b OR push_bit 8 (le_word bs)"

definition fetchaddr :: "'z file_reader \<Rightarrow> u64 \<Rightarrow> 'z kmem_scheme \<Rightarrow> (u64 \<times> 'z kmem_scheme) option" where
  "fetchaddr er addr s = do {
     p \<leftarrow> myProcess s;
     (bs, s) \<leftarrow> copyin er (p_pgdir (processes s p)) addr 8 s;
     Some (le_word bs, s) }"

text \<open>The result and the string in the buffer.\<close>

definition fetchstr :: "'z file_reader \<Rightarrow> u64 \<Rightarrow> u64 \<Rightarrow> 'z kmem_scheme \<Rightarrow> ((int \<times> u8 list) \<times> 'z kmem_scheme) option" where
  "fetchstr er uva mx s = do {
     p \<leftarrow> myProcess s;
     (r, s) \<leftarrow> copyinstr er (p_pgdir (processes s p)) uva mx s;
     Some (case r of None \<Rightarrow> (- 1, []) | Some str \<Rightarrow> (int (length str), str), s) }"

definition argraw :: "nat \<Rightarrow> 'z kproc_scheme \<Rightarrow> u64 option" where
  "argraw n s = (if n \<le> 5 then Some (hartTrapframe s (tf_a0 + n)) else None)"

definition argint :: "nat \<Rightarrow> 'z kproc_scheme \<Rightarrow> int option" where
  "argint n s = map_option to_int (argraw n s)"

definition argaddr :: "nat \<Rightarrow> 'z kproc_scheme \<Rightarrow> u64 option" where
  "argaddr n s = argraw n s"

definition argstr :: "'z file_reader \<Rightarrow> nat \<Rightarrow> u64 \<Rightarrow> 'z kmem_scheme \<Rightarrow> ((int \<times> u8 list) \<times> 'z kmem_scheme) option" where
  "argstr er n mx s = do { addr \<leftarrow> argaddr n s; fetchstr er addr mx s }"

section \<open>Either user or kernel memory\<close>

definition either_copyout :: "'z file_reader \<Rightarrow> bool \<Rightarrow> u64 \<Rightarrow> u8 list \<Rightarrow> u64 \<Rightarrow> 'z kmem_scheme \<Rightarrow> (int \<times> 'z kmem_scheme) option" where
  "either_copyout er user_dst dst src len s =
     (if user_dst then do { p \<leftarrow> myProcess s; copyout er (p_pgdir (processes s p)) dst src len s }
      else Some (0, s\<lparr>mem := mem_write (mem s) dst (take (unat len) src)\<rparr>))"

definition either_copyin :: "'z file_reader \<Rightarrow> bool \<Rightarrow> u64 \<Rightarrow> u64 \<Rightarrow> 'z kmem_scheme \<Rightarrow> (u8 list \<times> 'z kmem_scheme) option" where
  "either_copyin er user_src src len s =
     (if user_src then do { p \<leftarrow> myProcess s; copyin er (p_pgdir (processes s p)) src len s }
      else Some (mem_bytes (mem s) src (unat len), s))"

definition either_memset :: "'z file_reader \<Rightarrow> bool \<Rightarrow> u64 \<Rightarrow> u8 \<Rightarrow> u64 \<Rightarrow> 'z kmem_scheme \<Rightarrow> (int \<times> 'z kmem_scheme) option" where
  "either_memset er user dst value len s =
     (if user then do { p \<leftarrow> myProcess s; memsetOut er (p_pgdir (processes s p)) dst value len s }
      else Some (0, s\<lparr>mem := memset (mem s) dst (uint value) (ucast len)\<rparr>))"

section \<open>The heap\<close>

partial_function (option) growproc_pages :: "nat \<Rightarrow> u64 \<Rightarrow> u64 \<Rightarrow> 'z kmem_scheme \<Rightarrow> 'z kmem_scheme option" where
  "growproc_pages p start fin s =
     (if start < fin then
        (let (pa, pte) = pageLookup (p_pgdir (processes s p)) start s
         in Option.bind (if pa > 0 \<and> (case pte of None \<Rightarrow> False | Some e \<Rightarrow> load64 (mem s) e AND PTE_COW \<noteq> 0)
               then map_option snd (cowHandler (p_pgdir (processes s p)) start s) else Some s) (\<lambda>s.
            Option.bind (pageAlloc s) (\<lambda>(page, s).
            Option.bind (pageInsert (p_pgdir (processes s p)) start (page2pa page)
               (PTE_USER OR PTE_READ OR PTE_WRITE OR PTE_EXECUTE) s) (\<lambda>(r, s).
            growproc_pages p (start + PAGE_SIZE) fin s))))
      else Some s)"

definition growproc :: "int \<Rightarrow> 'z kmem_scheme \<Rightarrow> (int \<times> 'z kmem_scheme) option" where
  "growproc n s = do {
     p \<leftarrow> myProcess s;
     let brk = brkHeapBottom (processes s p);
     if USER_BRK_HEAP_TOP \<le> brk + of_int n then Some (- 1, s)
     else do {
       let start = UP_ALIGN brk PAGE_SIZE;
       let fin = UP_ALIGN (brk + of_int n) PAGE_SIZE;
       kassert (fin < USER_STACK_BOTTOM);
       s \<leftarrow> growproc_pages p start fin s;
       Some (0, s\<lparr>processes := (processes s)(p := (processes s p)\<lparr>brkHeapBottom := fin\<rparr>)\<rparr>) } }"

definition sys_sbrk :: "u32 \<Rightarrow> 'z kmem_scheme \<Rightarrow> (u64 \<times> 'z kmem_scheme) option" where
  "sys_sbrk len s = do {
     p \<leftarrow> myProcess s;
     let addr = brkHeapBottom (processes s p);
     (r, s) \<leftarrow> growproc (sint len) s;
     Some (if r < 0 then - 1 else addr, s) }"

end
