(* ===== verification/User_Memory.thy ===== *)
theory User_Memory
  imports Uaccess
begin

text \<open>
  What \<^verbatim>\<open>copyin\<close> and \<^verbatim>\<open>copyout\<close> do on user memory that is mapped: user byte \<open>va\<close> lives at physical
  address \<open>upa\<close>; copying out stores the buffer there page by page and nothing else changes;
  copying in reads it back.
\<close>

declare One_nat_def [simp del]

section \<open>User addresses\<close>

definition uentry :: "'z kmem_scheme \<Rightarrow> nat \<Rightarrow> u64 \<Rightarrow> u64" where
  "uentry s r va = entry_at s r (ix va 2) (ix va 1) (ix va 0)"

definition upa :: "'z kmem_scheme \<Rightarrow> nat \<Rightarrow> u64 \<Rightarrow> u64" where
  "upa s r va = PTE2PA (uentry s r va) + (va AND 0xFFF)"

definition umapped :: "'z kmem_scheme \<Rightarrow> nat \<Rightarrow> u64 \<Rightarrow> bool" where
  "umapped s r va \<longleftrightarrow> va < MAXVA \<and> uentry s r va AND PTE_VALID \<noteq> 0 \<and> uentry s r va AND PTE_USER \<noteq> 0
     \<and> uentry s r va AND PTE_COW = 0
     \<and> (\<exists>p < PHYSICAL_PAGE_NUM. PTE2PA (uentry s r va) = page2pa p \<and> p \<notin> tables (pcells s) r)"

lemma and_fff: "(va :: u64) AND 0xFFF = take_bit 12 va"
  by (simp add: take_bit_eq_mask mask_eq_exp_minus_1)

lemma unat_and_fff: "unat ((va :: u64) AND 0xFFF) = unat va mod 4096"
  unfolding and_fff using unat_take_bit [of 12 va] by simp

lemma unat_upa:
  assumes "PTE2PA (uentry s r va) = page2pa p" "p < PHYSICAL_PAGE_NUM"
  shows "unat (upa s r va) = 0x80000000 + 4096 * p + unat va mod 4096"
  using assms unat_page2pa [OF assms(2)] by (simp add: upa_def unat_add64 unat_and_fff)

lemma upa_in_page:
  assumes "PTE2PA (uentry s r va) = page2pa p" "p < PHYSICAL_PAGE_NUM" "q < PHYSICAL_PAGE_NUM"
  shows "in_range (upa s r va) (page2pa q) 4096 \<longleftrightarrow> q = p"
proof -
  have "unat va mod 4096 < 4096" by simp
  then show ?thesis
    unfolding in_page_iff [OF assms(3)] unat_upa [OF assms(1,2)] by linarith
qed

lemma vir2phy_mapped:
  assumes ok: "table_ok (pcells s) r F" and m: "umapped s r va"
  shows "vir2phy (page2pa r) va s = Some (upa s r va, False)" and "upa s r va \<noteq> 0"
proof -
  let ?i = "ix va 2" and ?j = "ix va 1" and ?k = "ix va 0"
  have "uentry s r va \<noteq> 0" using m by (auto simp: umapped_def)
  then obtain lf where lf: "node_page (pcells s) r (Leaf ?i ?j) = Some lf" "uentry s r va = pcells s lf ?k"
    unfolding uentry_def pt_entry_def by (auto simp del: node_page.simps split: option.splits)
  have "page2pa lf + 8 * of_nat ?k \<noteq> 0"
    using cell_addr_not_0 [OF table_okD(1) [OF ok _ lf(1)] ix_less] ix_less by simp
  then show "vir2phy (page2pa r) va s = Some (upa s r va, False)"
    using m lf unfolding vir2phy_def pageWalk_False [OF ok] umapped_def
    by (auto simp: upa_def cells_def Let_def not_le simp del: node_page.simps)
  from m obtain p where "p < PHYSICAL_PAGE_NUM" "PTE2PA (uentry s r va) = page2pa p" by (auto simp: umapped_def)
  from unat_upa [OF this(2,1)] show "upa s r va \<noteq> 0" by auto
qed

text \<open>Addresses of one page are contiguous.\<close>

lemma DOWN_ALIGN_unat: "unat (DOWN_ALIGN va PAGE_SIZE) = 4096 * (unat va div 4096)"
proof -
  have "DOWN_ALIGN va PAGE_SIZE = push_bit 12 (drop_bit 12 va)"
    unfolding DOWN_ALIGN_page by (rule bit_word_eqI) (auto simp: bit_simps)
  moreover have "push_bit 12 (drop_bit 12 va) + take_bit 12 va = va" by (rule bits_ident)
  ultimately have "va = DOWN_ALIGN va PAGE_SIZE + take_bit 12 va" by simp
  then have "DOWN_ALIGN va PAGE_SIZE = va - take_bit 12 va" by (simp add: eq_diff_eq)
  moreover have t: "unat (take_bit 12 va) = unat va mod 4096" using unat_take_bit [of 12 va] by simp
  ultimately have "unat (DOWN_ALIGN va PAGE_SIZE) = unat va - unat va mod 4096"
    by (simp add: unat_sub word_le_nat_alt)
  then show ?thesis by (simp add: minus_mod_eq_mult_div)
qed

lemma unat_chunk: "unat (chunk va len) = min (4096 - unat va mod 4096) (unat len)"
proof -
  have "unat (va - DOWN_ALIGN va PAGE_SIZE) = unat va - 4096 * (unat va div 4096)"
    using DOWN_ALIGN_unat [of va] unat_DOWN_ALIGN_le [of va] by (simp add: unat_sub word_le_nat_alt)
  then have o: "unat (va - DOWN_ALIGN va PAGE_SIZE) = unat va mod 4096" by (simp add: minus_mult_div_eq_mod)
  have "unat (PAGE_SIZE - (va - DOWN_ALIGN va PAGE_SIZE)) = 4096 - unat va mod 4096"
    using o page_offset_less [of va] by (subst unat_sub) (simp_all add: word_le_nat_alt)
  then show ?thesis by (auto simp: chunk_def Let_def word_less_nat_alt min_def)
qed

lemma unat_va_add: "unat va + i < 2 ^ 64 \<Longrightarrow> unat (va + of_nat i :: u64) = unat va + i"
  by (subst unat_add64) (simp_all add: unat_of_nat)

lemma ix_unat: "ix va l = unat va div 2 ^ (12 + 9 * l) mod 512"
proof -
  have "drop_bit (12 + 9 * l) va AND 0x1FF = take_bit 9 (drop_bit (12 + 9 * l) va)"
    by (simp add: take_bit_eq_mask mask_eq_exp_minus_1)
  then show ?thesis
    using unat_take_bit [of 9 "drop_bit (12 + 9 * l) va"]
    by (simp add: ix_def GET_PAGE_TABLE_INDEX_def unat_drop_bit)
qed

lemma div_split: "(n :: nat) div 2 ^ (12 + 9 * l) = n div 4096 div 2 ^ (9 * l)"
  by (simp add: power_add div_mult2_eq)

lemma page_add:
  fixes a i :: nat
  assumes "a mod 4096 + i < 4096"
  shows "(a + i) div 4096 = a div 4096" and "(a + i) mod 4096 = a mod 4096 + i"
proof -
  have e: "a + i = (a mod 4096 + i) + a div 4096 * 4096" by simp
  have d: "(x + y * 4096) div 4096 = y \<and> (x + y * 4096) mod 4096 = x" if "x < 4096" for x y :: nat
    using that by simp
  show "(a + i) div 4096 = a div 4096" unfolding e using d [OF assms] by blast
  show "(a + i) mod 4096 = a mod 4096 + i" unfolding e using d [OF assms] by blast
qed

lemma same_page:
  assumes "unat va mod 4096 + i < 4096" "unat va + i < 2 ^ 64"
  shows "uentry s r (va + of_nat i) = uentry s r va" and "upa s r (va + of_nat i) = upa s r va + of_nat i"
proof -
  have u: "unat (va + of_nat i) = unat va + i" by (rule unat_va_add [OF assms(2)])
  note pa = page_add [OF assms(1)]
  from pa(1) have "ix (va + of_nat i) l = ix va l" for l by (simp add: ix_unat u div_split)
  then show e: "uentry s r (va + of_nat i) = uentry s r va" by (simp add: uentry_def)
  have m: "unat (va + of_nat i) mod 4096 = unat va mod 4096 + i" unfolding u by (rule pa(2))
  have "(va + of_nat i) AND 0xFFF = (va AND 0xFFF) + of_nat i"
  proof (rule word_unat_eq_iff [THEN iffD2])
    show "unat ((va + of_nat i) AND 0xFFF) = unat ((va AND 0xFFF) + of_nat i)"
      using assms(1) m by (subst unat_va_add) (simp_all only: unat_and_fff, simp)
  qed
  then show "upa s r (va + of_nat i) = upa s r va + of_nat i" by (simp add: upa_def e)
qed

lemma unat_MAXVA: "unat MAXVA = 2 ^ 38"
  by (simp add: MAXVA_def)

lemma next_page:
  assumes "chunk va len \<noteq> len" and "unat va + unat len \<le> 2 ^ 38"
  shows "DOWN_ALIGN va PAGE_SIZE + PAGE_SIZE = va + chunk va len"
    and "unat (va + chunk va len) + unat (len - chunk va len) = unat va + unat len"
proof -
  let ?n = "unat (chunk va len)"
  have n: "?n = 4096 - unat va mod 4096" "?n < unat len"
    using assms(1) unat_chunk [of va len] by (auto simp: word_unat_eq_iff min_def split: if_splits)
  have m: "unat va mod 4096 < 4096" by simp
  have u: "unat (va + chunk va len) = unat va + ?n" using n assms(2) by (subst unat_add64) simp_all
  have "unat (DOWN_ALIGN va PAGE_SIZE + PAGE_SIZE) = 4096 * (unat va div 4096) + 4096"
    using assms(2) unat_DOWN_ALIGN_le [of va] by (subst unat_add64) (simp_all add: DOWN_ALIGN_unat)
  also have "\<dots> = unat va + ?n" using m by (simp only: n(1)) (simp add: minus_mod_eq_mult_div [symmetric])
  finally show "DOWN_ALIGN va PAGE_SIZE + PAGE_SIZE = va + chunk va len" by (simp add: word_unat_eq_iff u)
  have "unat (len - chunk va len) = unat len - ?n" using n(2) by (subst unat_sub) (simp_all add: word_le_nat_alt)
  then show "unat (va + chunk va len) + unat (len - chunk va len) = unat va + unat len" using u n(2) by simp
qed

lemma chunk_upa:
  assumes "i < unat (chunk va len)" and "unat va + unat len \<le> 2 ^ 38"
  shows "upa s r (va + of_nat i) = upa s r va + of_nat i"
  using assms unat_chunk [of va len] by (intro same_page) auto

section \<open>copyin\<close>

definition ubytes :: "'z kmem_scheme \<Rightarrow> nat \<Rightarrow> u64 \<Rightarrow> nat \<Rightarrow> u8 list" where
  "ubytes s r va n = map (\<lambda>i. mem s (upa s r (va + of_nat i))) [0..<n]"

lemma ubytes_add:
  assumes "unat c = n" shows "ubytes s r va n @ ubytes s r (va + c) k = ubytes s r va (n + k)"
proof -
  have c: "c = of_nat n" using assms by auto
  show ?thesis by (rule nth_equalityI) (auto simp: ubytes_def nth_append c add.assoc simp flip: of_nat_add)
qed

lemma copyin_mapped:
  assumes ok: "table_ok (pcells s) r F" and len: "unat va + unat len \<le> 2 ^ 38"
    and um: "\<And>i. i < unat len \<Longrightarrow> umapped s r (va + of_nat i)"
  shows "copyin er (page2pa r) va len s = Some (ubytes s r va (unat len), s)"
  using len um
proof (induction "unat len" arbitrary: va len rule: less_induct)
  case less
  show ?case
  proof (cases "len = 0")
    case True
    then show ?thesis by (simp add: copyin.simps ubytes_def)
  next
    case False
    let ?c = "chunk va len"
    have c: "0 < unat ?c" "unat ?c \<le> unat len" using chunk_bounds(1,2) [where va = va and len = len] False by auto
    have "umapped s r va" using less(3) [of 0] c by simp
    note v = vir2phy_mapped [OF ok this]
    have bs: "mem_bytes (mem s) (upa s r va) (unat ?c) = ubytes s r va (unat ?c)"
      using chunk_upa [where s = s and r = r, OF _ less(2)] by (auto simp: mem_bytes_def ubytes_def)
    have rest: "copyin er (page2pa r) (DOWN_ALIGN va PAGE_SIZE + PAGE_SIZE) (len - ?c) s
        = Some (ubytes s r (va + ?c) (unat len - unat ?c), s)"
    proof (cases "?c = len")
      case True
      then show ?thesis by (simp add: copyin.simps ubytes_def)
    next
      case False
      note np = next_page [OF False less(2)]
      have u: "unat (len - ?c) = unat len - unat ?c" using c by (subst unat_sub) (simp_all add: word_le_nat_alt)
      have um': "umapped s r (va + ?c + of_nat i)" if "i < unat (len - ?c)" for i
      proof -
        have "va + ?c + of_nat i = va + of_nat (unat ?c + i)" by simp
        then show ?thesis using less(3) [of "unat ?c + i"] that u by (simp add: add.assoc)
      qed
      have "unat (len - ?c) < unat len" using u c by simp
      from less(1) [OF this, of "va + ?c"] show ?thesis using np less(2) um' u by simp
    qed
    have "copyin er (page2pa r) va len s = Some (ubytes s r va (unat ?c) @ ubytes s r (va + ?c) (unat len - unat ?c), s)"
      using False v rest bs by (subst copyin.simps) (simp add: Let_def)
    then show ?thesis using c by (simp add: ubytes_add)
  qed
qed

section \<open>copyout\<close>

text \<open>Writing outside the tables leaves the map alone.\<close>

lemma outside_tables:
  assumes ok: "table_ok (pcells s) r F"
    and eq: "\<And>a p. p \<in> tables (pcells s) r \<Longrightarrow> in_range a (page2pa p) 4096 \<Longrightarrow> m a = mem s a"
  shows "table_ok (cells m) r F" and "uentry (s\<lparr>mem := m\<rparr>) r va = uentry s r va"
    and "tables (cells m) r = tables (pcells s) r"
proof -
  have "\<forall>p \<in> tables (pcells s) r. \<forall>k < 512. cells m p k = pcells s p k"
  proof (intro ballI allI impI)
    fix p k assume p: "p \<in> tables (pcells s) r" and k: "k < (512 :: nat)"
    then have "p < PHYSICAL_PAGE_NUM" using table_okD(1) [OF ok] by (auto simp: tables_def)
    then show "cells m p k = pcells s p k" using eq [OF p] k by (intro cells_cong)
  qed
  note C = table_ok_cong_tables [OF ok this]
  show "table_ok (cells m) r F" by (rule C(1))
  show "uentry (s\<lparr>mem := m\<rparr>) r va = uentry s r va" using C(3) ix_less by (simp add: uentry_def)
  show "tables (cells m) r = tables (pcells s) r" using C(2) by (auto simp: tables_def simp del: node_page.simps)
qed

lemma mem_write_eq:
  "length bs \<le> 2 ^ 64 \<Longrightarrow> mem_write m a bs x = (if in_range x a (length bs) then bs ! unat (x - a) else m x)"
proof (induction bs arbitrary: m a)
  case (Cons b bs)
  show ?case
  proof (cases "x = a")
    case True
    then have "\<not> in_range x (a + 1) (length bs)" using in_range_Suc_notin [of "length bs" a] Cons.prems by simp
    with True Cons show ?thesis by (simp add: in_range_def)
  next
    case False
    then have "unat (x - a) = Suc (unat (x - (a + 1)))" by (rule unat_diff_step)
    with False Cons show ?thesis by (simp add: in_range_Suc)
  qed
qed simp

lemma mem_write_at:
  "i < length bs \<Longrightarrow> length bs \<le> 2 ^ 64 \<Longrightarrow> mem_write m a bs (a + of_nat i) = bs ! i"
  by (simp add: mem_write_eq in_range_of_nat unat_of_nat)

lemma mem_write_other:
  "length bs \<le> 2 ^ 64 \<Longrightarrow> (\<And>i. i < length bs \<Longrightarrow> x \<noteq> a + of_nat i) \<Longrightarrow> mem_write m a bs x = m x"
  using in_rangeE [of x a "length bs"] by (auto simp: mem_write_eq)

definition ustored :: "'z kmem_scheme \<Rightarrow> nat \<Rightarrow> u64 \<Rightarrow> u8 list \<Rightarrow> bytes \<Rightarrow> bool" where
  "ustored s r va bs m \<longleftrightarrow> (\<forall>i < length bs. m (upa s r (va + of_nat i)) = bs ! i)
     \<and> (\<forall>a. (\<forall>i < length bs. a \<noteq> upa s r (va + of_nat i)) \<longrightarrow> m a = mem s a)"

lemma ustored_Nil [simp]: "ustored s r va [] (mem s)"
  by (simp add: ustored_def)

lemma umapped_upd:
  assumes ok: "table_ok (pcells s) r F" and st: "ustored s r va bs m"
    and um: "\<forall>i < length bs. umapped s r (va + of_nat i)"
  shows "table_ok (cells m) r F" and "upa (s\<lparr>mem := m\<rparr>) r x = upa s r x"
    and "umapped (s\<lparr>mem := m\<rparr>) r x = umapped s r x"
proof -
  have "m a = mem s a" if p: "p \<in> tables (pcells s) r" "in_range a (page2pa p) 4096" for a p
  proof -
    have "a \<noteq> upa s r (va + of_nat i)" if i: "i < length bs" for i
    proof
      assume a: "a = upa s r (va + of_nat i)"
      obtain q where q: "q < PHYSICAL_PAGE_NUM" "PTE2PA (uentry s r (va + of_nat i)) = page2pa q" "q \<notin> tables (pcells s) r"
        using um i by (auto simp: umapped_def)
      have "p < PHYSICAL_PAGE_NUM" using p(1) table_okD(1) [OF ok] by (auto simp: tables_def)
      from upa_in_page [OF q(2,1) this] p a q(3) show False by auto
    qed
    then show ?thesis using st by (simp add: ustored_def)
  qed
  note O = outside_tables [OF ok this]
  show "table_ok (cells m) r F" by (rule O(1))
  show "upa (s\<lparr>mem := m\<rparr>) r x = upa s r x" using O(2) by (simp add: upa_def)
  show "umapped (s\<lparr>mem := m\<rparr>) r x = umapped s r x" using O(2,3) by (simp add: umapped_def)
qed

text \<open>Storing a first chunk and then the rest.\<close>

lemma ustored_append:
  assumes 1: "ustored s r va bs m" and 2: "ustored (s\<lparr>mem := m\<rparr>) r (va + of_nat (length bs)) cs m'"
    and u: "\<And>x. upa (s\<lparr>mem := m\<rparr>) r x = upa s r x"
    and inj: "inj_on (\<lambda>i. upa s r (va + of_nat i)) {..<length bs + length cs}"
  shows "ustored s r va (bs @ cs) m'"
  unfolding ustored_def
proof (intro conjI allI impI)
  let ?f = "\<lambda>i. upa s r (va + of_nat i)"
  have shift: "upa (s\<lparr>mem := m\<rparr>) r (va + of_nat (length bs) + of_nat j) = ?f (length bs + j)" for j
    by (simp add: u add.assoc)
  fix i assume i: "i < length (bs @ cs)"
  show "m' (?f i) = (bs @ cs) ! i"
  proof (cases "i < length bs")
    case True
    have "?f i \<noteq> ?f (length bs + j)" if "j < length cs" for j
      using inj_onD [OF inj, of i "length bs + j"] True that by auto
    then have "m' (?f i) = m (?f i)" using 2 by (simp add: ustored_def shift)
    then show ?thesis using 1 True by (simp add: ustored_def nth_append)
  next
    case False
    then obtain j where j: "i = length bs + j" "j < length cs" using i by (auto simp: le_Suc_ex dest: less_imp_add_positive) (metis add_diff_inverse_nat add_less_cancel_left)
    then have "m' (?f i) = cs ! j" using 2 unfolding ustored_def by (metis shift)
    then show ?thesis using j by (simp add: nth_append)
  qed
next
  let ?f = "\<lambda>i. upa s r (va + of_nat i)"
  have shift: "upa (s\<lparr>mem := m\<rparr>) r (va + of_nat (length bs) + of_nat j) = ?f (length bs + j)" for j
    by (simp add: u add.assoc)
  fix a assume a: "\<forall>i < length (bs @ cs). a \<noteq> ?f i"
  then have "a \<noteq> ?f (length bs + j)" if "j < length cs" for j using that by (simp del: of_nat_add)
  then have "m' a = m a" using 2 unfolding ustored_def shift by (simp del: of_nat_add)
  moreover have "m a = mem s a" using 1 a by (simp add: ustored_def)
  ultimately show "m' a = mem s a" by simp
qed

lemma copyout_mapped:
  assumes "table_ok (pcells s) r F" and "unat va + unat len \<le> 2 ^ 38" and "length bs = unat len"
    and "\<And>i. i < unat len \<Longrightarrow> umapped s r (va + of_nat i)"
    and "inj_on (\<lambda>i. upa s r (va + of_nat i)) {..<unat len}"
  shows "\<exists>m. copyout er (page2pa r) va bs len s = Some (0, s\<lparr>mem := m\<rparr>) \<and> ustored s r va bs m"
  using assms
proof (induction "unat len" arbitrary: va len bs s rule: less_induct)
  case less
  note ok = less(2) and um = less(5)
  show ?case
  proof (cases "len = 0")
    case True
    then show ?thesis using less by (intro exI [of _ "mem s"]) (simp add: copyout.simps)
  next
    case False
    let ?c = "chunk va len" and ?n = "unat (chunk va len)"
    let ?m = "mem_write (mem s) (upa s r va) (take ?n bs)"
    have c: "0 < ?n" "?n \<le> unat len" "?n \<le> 4096" using chunk_bounds [where va = va and len = len] False by auto
    have "umapped s r va" using um [of 0] c by simp
    note v = vir2phy_mapped [OF ok this]
    have lt: "length (take ?n bs) = ?n" using c less(4) by simp
    have up: "i < ?n \<Longrightarrow> upa s r (va + of_nat i) = upa s r va + of_nat i" for i
      using chunk_upa [OF _ less(3), of i s r] by simp
    have st: "ustored s r va (take ?n bs) ?m"
      unfolding ustored_def lt
    proof (intro conjI allI impI)
      fix i assume "i < ?n"
      then show "?m (upa s r (va + of_nat i)) = take ?n bs ! i" using lt c by (simp add: up mem_write_at)
    next
      fix a assume "\<forall>i < ?n. a \<noteq> upa s r (va + of_nat i)"
      then show "?m a = mem s a" using lt c by (intro mem_write_other) (simp_all add: up)
    qed
    have "\<forall>i < length (take ?n bs). umapped s r (va + of_nat i)" using um c lt by simp
    note U = umapped_upd [OF ok st this]
    let ?s = "s\<lparr>mem := ?m\<rparr>"
    have u: "unat (len - ?c) = unat len - ?n" using c by (subst unat_sub) (simp_all add: word_le_nat_alt)
    have "\<exists>m'. copyout er (page2pa r) (DOWN_ALIGN va PAGE_SIZE + PAGE_SIZE) (drop ?n bs) (len - ?c) ?s = Some (0, ?s\<lparr>mem := m'\<rparr>)
        \<and> ustored ?s r (va + ?c) (drop ?n bs) m'"
    proof (cases "?c = len")
      case True
      then show ?thesis using less(4) by (intro exI [of _ ?m]) (simp add: copyout.simps ustored_def)
    next
      case False
      note np = next_page [OF False less(3)]
      have sh: "va + ?c + of_nat i = va + of_nat (?n + i)" for i by simp
      have um': "umapped ?s r (va + ?c + of_nat i)" if "i < unat (len - ?c)" for i
        using um [of "?n + i"] that u U(3) unfolding sh by (simp del: of_nat_add)
      have inj': "inj_on (\<lambda>i. upa ?s r (va + ?c + of_nat i)) {..<unat (len - ?c)}"
      proof (rule inj_onI)
        fix x y assume "x \<in> {..<unat (len - ?c)}" "y \<in> {..<unat (len - ?c)}"
          "upa ?s r (va + ?c + of_nat x) = upa ?s r (va + ?c + of_nat y)"
        then show "x = y" using inj_onD [OF less(6), of "?n + x" "?n + y"] u unfolding U(2) sh by simp
      qed
      have "unat (len - ?c) < unat len" using u c by simp
      from less(1) [OF this, of ?s "va + ?c" "drop ?n bs"] show ?thesis
        using np U(1) um' inj' u less(3,4) by simp
    qed
    then obtain m' where m': "copyout er (page2pa r) (DOWN_ALIGN va PAGE_SIZE + PAGE_SIZE) (drop ?n bs) (len - ?c) ?s
        = Some (0, ?s\<lparr>mem := m'\<rparr>)" "ustored ?s r (va + ?c) (drop ?n bs) m'" by blast
    have "ustored s r va (take ?n bs @ drop ?n bs) m'"
      using m'(2) U(2) less(4,6) lt by (intro ustored_append [OF st]) simp_all
    moreover have "copyout er (page2pa r) va bs len s = Some (0, s\<lparr>mem := m'\<rparr>)"
      using False v m'(1) by (subst copyout.simps) (simp add: Let_def)
    ultimately show ?thesis by auto
  qed
qed

section \<open>An address space with one user page\<close>

definition one_page :: kmem where
  "one_page = snd (the (pageInsert (page2pa 0) 0x1000 (page2pa 9) (PTE_READ OR PTE_WRITE OR PTE_USER) (fresh_kmem [1, 2, 3])))"

lemma one_page_inv:
  "\<exists>F. pt_inv one_page 0 F" (is ?A) and
  one_page_entry: "entry_at one_page 0 0 0 1 = new_entry (page2pa 9) 0x16" (is ?B)
proof -
  have ix: "ix 0x1000 2 = 0" "ix 0x1000 1 = 0" "ix 0x1000 0 = 1" by code_simp+
  have pa: "unat (page2pa 9) < 2 ^ 56" using unat_page2pa [of 9] by simp
  have inv: "pt_inv (fresh_kmem [1, 2, 3]) 0 [1, 2, 3]" by (rule pt_inv_fresh) simp_all
  have perm: "perm_only (PTE_READ OR PTE_WRITE OR PTE_USER)" by (intro perm_only_or perm_only_numeral)
  obtain t F' where "pageInsert (page2pa 0) 0x1000 (page2pa 9) (PTE_READ OR PTE_WRITE OR PTE_USER) (fresh_kmem [1, 2, 3]) = Some (0, t)"
    "pt_inv t 0 F'" "entry_at t 0 0 0 1 = new_entry (page2pa 9) 0x16"
    using pageInsert_spec [OF inv _ perm pa insertable_fresh [of 9], where va = "0x1000"] by (auto simp: ix)
  then show ?A ?B by (auto simp: one_page_def)
qed

lemma one_page_mapped:
  assumes "ix va 2 = 0" "ix va 1 = 0" "ix va 0 = 1" "va < MAXVA"
  shows "umapped one_page 0 va" and "upa one_page 0 va = page2pa 9 + (va AND 0xFFF)"
proof -
  let ?e = "new_entry (page2pa 9) 0x16"
  obtain F where F: "pt_inv one_page 0 F" using one_page_inv by blast
  have e: "uentry one_page 0 va = ?e" using assms one_page_entry by (simp add: uentry_def)
  have pa: "PTE2PA ?e = page2pa 9"
    using PTE2PA_new_entry [of "page2pa 9" "0x16"] perm_only_or [OF perm_only_numeral(2) perm_only_or [OF perm_only_numeral(3,5)]]
      unat_page2pa [of 9] by simp
  have "(0, 0, 1) \<in> maps one_page 0 9" using pa one_page_entry new_entry_valid [of "page2pa 9" "0x16"] by (simp add: maps_def)
  then have "9 \<notin> tables (pcells one_page) 0" using pt_invD(5) [OF F] by blast
  moreover have "?e AND PTE_VALID \<noteq> 0" "?e AND PTE_USER \<noteq> 0" "?e AND PTE_COW = 0"
    by code_simp+
  ultimately show "umapped one_page 0 va" using assms(4) e pa by (auto simp: umapped_def intro!: exI [of _ 9])
  show "upa one_page 0 va = page2pa 9 + (va AND 0xFFF)" by (simp add: upa_def e pa)
qed

lemma one_page_bytes:
  "umapped one_page 0 0x1000" "umapped one_page 0 0x1001" "umapped one_page 0 0x1002"
  "upa one_page 0 0x1000 = page2pa 9" "upa one_page 0 0x1001 = page2pa 9 + 1"
proof -
  have ix: "ix 0x1000 2 = 0" "ix 0x1000 1 = 0" "ix 0x1000 0 = 1" "0x1000 < MAXVA"
    "ix 0x1001 2 = 0" "ix 0x1001 1 = 0" "ix 0x1001 0 = 1" "0x1001 < MAXVA"
    "ix 0x1002 2 = 0" "ix 0x1002 1 = 0" "ix 0x1002 0 = 1" "0x1002 < MAXVA" by code_simp+
  show "umapped one_page 0 0x1000" "umapped one_page 0 0x1001" "umapped one_page 0 0x1002"
    "upa one_page 0 0x1000 = page2pa 9" "upa one_page 0 0x1001 = page2pa 9 + 1"
    using one_page_mapped [OF ix(1-4)] one_page_mapped [OF ix(5-8)] one_page_mapped [OF ix(9-12)] by simp_all
qed

section \<open>Properties\<close>

text \<open>
  C3: what \<^verbatim>\<open>copyout\<close> writes, page by page, to a user buffer that is mapped, without copy-on-write pages
  and without two addresses for one byte, \<^verbatim>\<open>copyin\<close> of the same range reads back, and \<^verbatim>\<open>copyout\<close> changes
  memory only at the buffer's physical addresses.
\<close>

theorem copyout_copyin_roundtrip:
  assumes "table_ok (pcells s) r F" and "unat va + unat len \<le> 2 ^ 38" and "length bs = unat len"
    and "\<forall>i < unat len. umapped s r (va + of_nat i)"
    and "inj_on (\<lambda>i. upa s r (va + of_nat i)) {..<unat len}"
  shows "\<exists>m. copyout er (page2pa r) va bs len s = Some (0, s\<lparr>mem := m\<rparr>)
    \<and> copyin er (page2pa r) va len (s\<lparr>mem := m\<rparr>) = Some (bs, s\<lparr>mem := m\<rparr>)
    \<and> (\<forall>a. a \<notin> (\<lambda>i. upa s r (va + of_nat i)) ` {..<unat len} \<longrightarrow> m a = mem s a)"
proof -
  obtain m where m: "copyout er (page2pa r) va bs len s = Some (0, s\<lparr>mem := m\<rparr>)" and st: "ustored s r va bs m"
    using copyout_mapped [OF assms(1-3) _ assms(5)] assms(4) by auto
  note U = umapped_upd [OF assms(1) st assms(4) [folded assms(3)]]
  have "ubytes (s\<lparr>mem := m\<rparr>) r va (unat len) = bs"
    using st assms(3) by (intro nth_equalityI) (simp_all add: ubytes_def U(2) ustored_def)
  moreover have "copyin er (page2pa r) va len (s\<lparr>mem := m\<rparr>) = Some (ubytes (s\<lparr>mem := m\<rparr>) r va (unat len), s\<lparr>mem := m\<rparr>)"
    using U(1,3) assms(2,4) by (intro copyin_mapped) simp_all
  moreover have "m a = mem s a" if "a \<notin> (\<lambda>i. upa s r (va + of_nat i)) ` {..<unat len}" for a
    using that st assms(3) by (auto simp: ustored_def)
  ultimately show ?thesis using m by auto
qed

theorem copyout_copyin_roundtrip_witness:
  "\<exists>m. copyout (\<lambda>_ _ _ _ _. None) (page2pa 0) 0x1000 [7, 8] 2 one_page = Some (0, one_page\<lparr>mem := m\<rparr>)
    \<and> copyin (\<lambda>_ _ _ _ _. None) (page2pa 0) 0x1000 2 (one_page\<lparr>mem := m\<rparr>) = Some ([7, 8], one_page\<lparr>mem := m\<rparr>)"
proof -
  obtain F where "pt_inv one_page 0 F" using one_page_inv by blast
  note ok = pt_invD(2) [OF this]
  have "\<forall>i < unat (2 :: u64). umapped one_page 0 (0x1000 + of_nat i)"
    using one_page_bytes by (simp add: less_2_cases_iff)
  moreover have "inj_on (\<lambda>i. upa one_page 0 (0x1000 + of_nat i)) {..<unat (2 :: u64)}"
    using one_page_bytes by (auto simp: inj_on_def less_2_cases_iff)
  ultimately show ?thesis
    using copyout_copyin_roundtrip [OF ok, of "0x1000" 2 "[7, 8]" "\<lambda>_ _ _ _ _. None"] by auto
qed

end
