(* ===== verification/Pipe.thy ===== *)
theory Pipe
  imports User_Memory Sched
begin

text \<open>
  Pipes, \<^verbatim>\<open>src/kernel/fs/Pipe.c\<close>: a ring of 65536 bytes with 64-bit counters. Reading an empty pipe and
  writing a full one put the thread to sleep; the model stops there and hands back the locals
  with which the loop goes on after the switch back. The ring refines a queue of bytes.
\<close>

abbreviation (input) PIPESIZE :: u64 where "PIPESIZE \<equiv> 0x10000"
abbreviation (input) MAX_PIPE :: nat where "MAX_PIPE \<equiv> 128"

record pipe =
  pi_data :: "nat \<Rightarrow> u8"
  nread :: u64
  nwrite :: u64
  readopen :: bool
  writeopen :: bool

record kpipe = kmem +
  pipeBuffer :: "nat \<Rightarrow> pipe"
  pipeBitMap :: "u64 list"

abbreviation upd_pipe :: "nat \<Rightarrow> (pipe \<Rightarrow> pipe) \<Rightarrow> 'z kpipe_scheme \<Rightarrow> 'z kpipe_scheme" where
  "upd_pipe pi f s \<equiv> s\<lparr>pipeBuffer := (pipeBuffer s)(pi := f (pipeBuffer s pi))\<rparr>"

section \<open>Operations\<close>

definition pipeAlloc :: "'z kpipe_scheme \<Rightarrow> (nat \<times> 'z kpipe_scheme) option" where
  "pipeAlloc s = do {
     (pi, bm) \<leftarrow> bitmap_alloc (pipeBitMap s) 0;
     let s = s\<lparr>pipeBitMap := bm\<rparr>;
     Some (pi, upd_pipe pi (\<lambda>p. p\<lparr>nread := 0, nwrite := 0\<rparr>) s) }"

definition pipeFree :: "nat \<Rightarrow> 'z kpipe_scheme \<Rightarrow> 'z kpipe_scheme option" where
  "pipeFree pi s = do {
     bm \<leftarrow> bitmap_free pi (pipeBitMap s);
     Some (s\<lparr>pipeBitMap := bm\<rparr>) }"

definition pipeClose :: "nat \<Rightarrow> bool \<Rightarrow> 'z kpipe_scheme \<Rightarrow> 'z kpipe_scheme option" where
  "pipeClose pi writable s = do {
     s \<leftarrow> (if writable then wakeup (ChanPipeRead pi) (upd_pipe pi (\<lambda>p. p\<lparr>writeopen := False\<rparr>) s)
          else wakeup (ChanPipeWrite pi) (upd_pipe pi (\<lambda>p. p\<lparr>readopen := False\<rparr>) s));
     if \<not> readopen (pipeBuffer s pi) \<and> \<not> writeopen (pipeBuffer s pi) then pipeFree pi s else Some s }"

text \<open>
  An operation that may have to wait returns, stops in \<^verbatim>\<open>sleep\<close> with its locals, or sets the program
  counter back to the system call and yields, so that the call is made again.
\<close>

datatype ('r, 'l) progress = Returns 'r | Blocks "'l blocking" | Retries

text \<open>
  Translation of the user address \<open>va\<close> in \<^verbatim>\<open>pipeWrite\<close>; a copy-on-write page is copied through
  the address \<open>cowva\<close>. \<^verbatim>\<open>pipeRead\<close> does not look at the copy-on-write flag.
\<close>

definition pipe_src_page :: "'z file_reader \<Rightarrow> u64 \<Rightarrow> u64 \<Rightarrow> u64 \<Rightarrow> 'z kmem_scheme \<Rightarrow> (u64 \<times> 'z kmem_scheme) option" where
  "pipe_src_page er pageTable va cowva s = do {
     (pa, cow) \<leftarrow> vir2phy pageTable va s;
     if pa = 0 then pageout er pageTable va s
     else if cow then cowHandler pageTable cowva s else Some (pa, s) }"

definition pipe_dst_page :: "'z file_reader \<Rightarrow> u64 \<Rightarrow> u64 \<Rightarrow> 'z kmem_scheme \<Rightarrow> (u64 \<times> 'z kmem_scheme) option" where
  "pipe_dst_page er pageTable va s = do {
     (pa, cow) \<leftarrow> vir2phy pageTable va s;
     if pa = 0 then pageout er pageTable va s else Some (pa, s) }"

definition pipe_put :: "nat \<Rightarrow> u8 \<Rightarrow> 'z kpipe_scheme \<Rightarrow> 'z kpipe_scheme" where
  "pipe_put pi ch s = upd_pipe pi (\<lambda>p. p\<lparr>pi_data := (pi_data p)(unat (nwrite p AND (PIPESIZE - 1)) := ch),
     nwrite := nwrite p + 1\<rparr>) s"

definition pipe_get :: "nat \<Rightarrow> 'z kpipe_scheme \<Rightarrow> u8 \<times> 'z kpipe_scheme" where
  "pipe_get pi s = (let p = pipeBuffer s pi
     in (pi_data p (unat (nread p AND (PIPESIZE - 1))), upd_pipe pi (\<lambda>p. p\<lparr>nread := nread p + 1\<rparr>) s))"

type_synonym 'z pipe_reader = "nat option \<Rightarrow> u64 \<Rightarrow> u32 \<Rightarrow> u32 \<Rightarrow> 'z kpipe_scheme \<Rightarrow> (int \<times> 'z kpipe_scheme) option"

function pipeWrite_loop :: "'z pipe_reader \<Rightarrow> u64 \<Rightarrow> nat \<Rightarrow> bool \<Rightarrow> u64 \<Rightarrow> int \<Rightarrow> int \<Rightarrow> u64 \<Rightarrow> 'z kpipe_scheme
    \<Rightarrow> ((int, int \<times> u64) progress \<times> 'z kpipe_scheme) option" where
  "pipeWrite_loop er pageTable pi isUser addr n i pa s =
     (if i < n then
        if \<not> readopen (pipeBuffer s pi) then None
        else if nwrite (pipeBuffer s pi) = nread (pipeBuffer s pi) + PIPESIZE then do {
          s \<leftarrow> wakeup (ChanPipeRead pi) s;
          (b, s) \<leftarrow> sleep_begin (ChanPipeWrite pi) (i, pa) s;
          Some (Blocks b, s) }
        else do {
          let s = pipe_put pi (mem s pa) s;
          (pa, s) \<leftarrow> (if isUser \<and> (addr + of_int (i + 1)) AND (PAGE_SIZE - 1) = 0
                     then pipe_src_page er pageTable (addr + of_int (i + 1)) addr s
                     else Some (pa + 1, s));
          pipeWrite_loop er pageTable pi isUser addr n (i + 1) pa s }
      else do {
        s \<leftarrow> wakeup (ChanPipeRead pi) s;
        kassert (i \<noteq> 0);
        Some (Returns i, s) })"
  by pat_completeness auto
termination
  by (relation "measure (\<lambda>(er, pageTable, pi, isUser, addr, n, i, pa, s). nat (n - i))") auto

definition pipeWrite :: "'z pipe_reader \<Rightarrow> nat \<Rightarrow> bool \<Rightarrow> u64 \<Rightarrow> int \<Rightarrow> 'z kpipe_scheme
    \<Rightarrow> ((int, int \<times> u64) progress \<times> 'z kpipe_scheme) option" where
  "pipeWrite er pi isUser addr n s = do {
     p \<leftarrow> myProcess s;
     let pageTable = p_pgdir (processes s p);
     (pa, s) \<leftarrow> (if isUser then pipe_src_page er pageTable addr addr s else Some (addr, s));
     pipeWrite_loop er pageTable pi isUser addr n 0 pa s }"

text \<open>The locals of a sleeping reader are its destination; those of the copy its count and place.\<close>

function pipeRead_loop :: "'z pipe_reader \<Rightarrow> u64 \<Rightarrow> nat \<Rightarrow> bool \<Rightarrow> u64 \<Rightarrow> int \<Rightarrow> int \<Rightarrow> u64 \<Rightarrow> 'z kpipe_scheme
    \<Rightarrow> (int \<times> 'z kpipe_scheme) option" where
  "pipeRead_loop er pageTable pi isUser addr n i pa s =
     (if i < n \<and> nread (pipeBuffer s pi) \<noteq> nwrite (pipeBuffer s pi) then do {
        let (ch, s) = pipe_get pi s;
        let s = s\<lparr>mem := (mem s)(pa := ch)\<rparr>;
        (pa, s) \<leftarrow> (if isUser \<and> (addr + of_int (i + 1)) AND (PAGE_SIZE - 1) = 0
                   then pipe_dst_page er pageTable (addr + of_int (i + 1)) s
                   else Some (pa + 1, s));
        pipeRead_loop er pageTable pi isUser addr n (i + 1) pa s }
      else do {
        s \<leftarrow> wakeup (ChanPipeWrite pi) s;
        Some (i, s) })"
  by pat_completeness auto
termination
  by (relation "measure (\<lambda>(er, pageTable, pi, isUser, addr, n, i, pa, s). nat (n - i))") auto

declare pipeWrite_loop.simps [simp del] pipeRead_loop.simps [simp del]

definition pipeRead_wait :: "'z pipe_reader \<Rightarrow> u64 \<Rightarrow> nat \<Rightarrow> bool \<Rightarrow> u64 \<Rightarrow> int \<Rightarrow> u64 \<Rightarrow> 'z kpipe_scheme
    \<Rightarrow> ((int, u64) progress \<times> 'z kpipe_scheme) option" where
  "pipeRead_wait er pageTable pi isUser addr n pa s =
     (if nread (pipeBuffer s pi) = nwrite (pipeBuffer s pi) \<and> writeopen (pipeBuffer s pi) then do {
        (b, s) \<leftarrow> sleep_begin (ChanPipeRead pi) pa s;
        Some (Blocks b, s) }
      else do {
        (r, s) \<leftarrow> pipeRead_loop er pageTable pi isUser addr n 0 pa s;
        Some (Returns r, s) })"

definition pipeRead :: "'z pipe_reader \<Rightarrow> nat \<Rightarrow> bool \<Rightarrow> u64 \<Rightarrow> int \<Rightarrow> 'z kpipe_scheme
    \<Rightarrow> ((int, u64) progress \<times> 'z kpipe_scheme) option" where
  "pipeRead er pi isUser addr n s = do {
     p \<leftarrow> myProcess s;
     let pageTable = p_pgdir (processes s p);
     (pa, s) \<leftarrow> (if isUser then pipe_dst_page er pageTable addr s else Some (addr, s));
     pipeRead_wait er pageTable pi isUser addr n pa s }"

text \<open>Going on after the switch back.\<close>

definition pipeWrite_resume :: "'z pipe_reader \<Rightarrow> u64 \<Rightarrow> nat \<Rightarrow> bool \<Rightarrow> u64 \<Rightarrow> int \<Rightarrow> int \<times> u64 \<Rightarrow> 'z kpipe_scheme
    \<Rightarrow> ((int, int \<times> u64) progress \<times> 'z kpipe_scheme) option" where
  "pipeWrite_resume er pageTable pi isUser addr n l s = do {
     (b, s) \<leftarrow> sleep_end l s;
     case b of Killed \<Rightarrow> Some (Blocks Killed, s)
     | Sleeps (i, pa) \<Rightarrow> pipeWrite_loop er pageTable pi isUser addr n i pa s }"

definition pipeRead_resume :: "'z pipe_reader \<Rightarrow> u64 \<Rightarrow> nat \<Rightarrow> bool \<Rightarrow> u64 \<Rightarrow> int \<Rightarrow> u64 \<Rightarrow> 'z kpipe_scheme
    \<Rightarrow> ((int, u64) progress \<times> 'z kpipe_scheme) option" where
  "pipeRead_resume er pageTable pi isUser addr n l s = do {
     (b, s) \<leftarrow> sleep_end l s;
     case b of Killed \<Rightarrow> Some (Blocks Killed, s)
     | Sleeps pa \<Rightarrow> pipeRead_wait er pageTable pi isUser addr n pa s }"

text \<open>The single-byte helpers.\<close>

definition pipeOut :: "'z file_reader \<Rightarrow> bool \<Rightarrow> u64 \<Rightarrow> u8 \<Rightarrow> 'z kmem_scheme \<Rightarrow> 'z kmem_scheme option" where
  "pipeOut er isUser dstva src s =
     (if \<not> isUser then Some (s\<lparr>mem := (mem s)(dstva := src)\<rparr>)
      else do {
        p \<leftarrow> myProcess s;
        (pa, s) \<leftarrow> pipe_src_page er (p_pgdir (processes s p)) dstva dstva s;
        Some (s\<lparr>mem := (mem s)(pa := src)\<rparr>) })"

definition pipeIn :: "'z file_reader \<Rightarrow> bool \<Rightarrow> u64 \<Rightarrow> 'z kmem_scheme \<Rightarrow> (u8 \<times> 'z kmem_scheme) option" where
  "pipeIn er isUser srcva s =
     (if \<not> isUser then Some (mem s srcva, s)
      else do {
        p \<leftarrow> myProcess s;
        (pa, s) \<leftarrow> pipe_dst_page er (p_pgdir (processes s p)) srcva s;
        Some (mem s pa, s) })"

section \<open>Initial contents\<close>

definition zero_kpipe :: kpipe where
  "zero_kpipe = kmem.extend zero_kmem (kpipe.fields (\<lambda>_. \<lparr>pi_data = (\<lambda>_. 0), nread = 0, nwrite = 0,
      readopen = False, writeopen = False\<rparr>) [0, 0])"

lemma zero_kpipe_sel [simp]:
  "pipeBuffer zero_kpipe pi = \<lparr>pi_data = (\<lambda>_. 0), nread = 0, nwrite = 0, readopen = False, writeopen = False\<rparr>"
  "pipeBitMap zero_kpipe = [0, 0]" "mem zero_kpipe = (\<lambda>_. 0)" "thread_links zero_kpipe = zero_lists"
  "threads zero_kpipe = (\<lambda>_. zero_thread)" "processes zero_kpipe = (\<lambda>_. zero_process)"
  by (simp_all add: zero_kpipe_def zero_kmem_def zero_kproc_def kproc.defs kmem.defs kpipe.defs)

end
