(* ===== verification/Bio.thy ===== *)
theory Bio
  imports Pipe
begin

text \<open>
  The buffer cache, \<^verbatim>\<open>src/kernel/fs/Bio.c\<close>: 1024 groups of 16 buffers, each group a circular list
  through \<^verbatim>\<open>prev\<close> and \<^verbatim>\<open>next\<close> with a head, ordered by use. The card is what \<^verbatim>\<open>sdRead\<close> delivers;
  the cache never writes to it, since the call in \<^verbatim>\<open>bwrite\<close> is commented out.
\<close>

abbreviation (input) BSIZE :: nat where "BSIZE \<equiv> 512"
abbreviation (input) NBUF :: nat where "NBUF \<equiv> 16"
abbreviation (input) BCACHE_GROUP_NUM :: nat where "BCACHE_GROUP_NUM \<equiv> 1024"

section \<open>Buffers\<close>

record buf =
  b_valid :: bool
  b_dev :: u32
  b_blockno :: u32
  b_lock :: Sleeplock
  b_refcnt :: u32
  b_data :: "u8 list"

text \<open>The nodes of a group's list: its head and its buffers.\<close>

datatype bnode = BHead | B nat

record bgroup =
  g_buf :: "nat \<Rightarrow> buf"
  g_next :: "bnode \<Rightarrow> bnode"
  g_prev :: "bnode \<Rightarrow> bnode"

text \<open>A buffer pointer: its group and its place in the group's array.\<close>

type_synonym bufp = "nat \<times> nat"

record kbio = kpipe +
  bcache :: "nat \<Rightarrow> bgroup"
  sdcard :: "u32 \<Rightarrow> u8 list"

abbreviation upd_group :: "nat \<Rightarrow> (bgroup \<Rightarrow> bgroup) \<Rightarrow> 'z kbio_scheme \<Rightarrow> 'z kbio_scheme" where
  "upd_group i f s \<equiv> s\<lparr>bcache := (bcache s)(i := f (bcache s i))\<rparr>"

abbreviation upd_buf :: "nat \<Rightarrow> (buf \<Rightarrow> buf) \<Rightarrow> bgroup \<Rightarrow> bgroup" where
  "upd_buf b f g \<equiv> g\<lparr>g_buf := (g_buf g)(b := f (g_buf g b))\<rparr>"

abbreviation the_buf :: "bufp \<Rightarrow> 'z kbio_scheme \<Rightarrow> buf" where
  "the_buf h s \<equiv> g_buf (bcache s (fst h)) (snd h)"

section \<open>The list of a group\<close>

text \<open>Insertion behind the head, the most recently used end.\<close>

definition insert_mru :: "nat \<Rightarrow> bgroup \<Rightarrow> bgroup" where
  "insert_mru b g =
     (let g = g\<lparr>g_next := (g_next g)(B b := g_next g BHead)\<rparr>;
          g = g\<lparr>g_prev := (g_prev g)(B b := BHead)\<rparr>;
          g = g\<lparr>g_prev := (g_prev g)(g_next g BHead := B b)\<rparr>
      in g\<lparr>g_next := (g_next g)(BHead := B b)\<rparr>)"

definition unlink :: "nat \<Rightarrow> bgroup \<Rightarrow> bgroup" where
  "unlink b g =
     (let g = g\<lparr>g_prev := (g_prev g)(g_next g (B b) := g_prev g (B b))\<rparr>
      in g\<lparr>g_next := (g_next g)(g_prev g (B b) := g_next g (B b))\<rparr>)"

definition binit_group :: "bgroup \<Rightarrow> bgroup" where
  "binit_group g =
     (let g = g\<lparr>g_prev := (g_prev g)(BHead := BHead)\<rparr>;
          g = g\<lparr>g_next := (g_next g)(BHead := BHead)\<rparr>
      in fold (\<lambda>b g. insert_mru b (upd_buf b (\<lambda>x. x\<lparr>b_lock := initsleeplock (b_lock x)\<rparr>) g)) [0..<NBUF] g)"

definition binit :: "'z kbio_scheme \<Rightarrow> 'z kbio_scheme" where
  "binit s = fold (\<lambda>i. upd_group i binit_group) [0..<BCACHE_GROUP_NUM] s"

text \<open>The two searches, along \<^verbatim>\<open>next\<close> and along \<^verbatim>\<open>prev\<close>.\<close>

partial_function (option) search :: "(bnode \<Rightarrow> bnode) \<Rightarrow> (nat \<Rightarrow> bool) \<Rightarrow> bnode \<Rightarrow> nat option option" where
  "search nx P n = (case n of BHead \<Rightarrow> Some None
     | B b \<Rightarrow> if P b then Some (Some b) else search nx P (nx n))"

section \<open>Operations\<close>

definition bgroup_of :: "u32 \<Rightarrow> nat" where
  "bgroup_of blockno = unat (blockno AND 0x3FF)"

definition buf_is :: "u32 \<Rightarrow> u32 \<Rightarrow> buf \<Rightarrow> bool" where
  "buf_is dev blockno x \<longleftrightarrow> b_dev x = dev \<and> b_blockno x = blockno"

definition bget :: "u32 \<Rightarrow> u32 \<Rightarrow> 'z kbio_scheme \<Rightarrow> (bufp \<times> 'z kbio_scheme) option" where
  "bget dev blockno s = do {
     let i = bgroup_of blockno;
     let g = bcache s i;
     hit \<leftarrow> (if sint dev \<ge> 0 then search (g_next g) (\<lambda>b. buf_is dev blockno (g_buf g b)) (g_next g BHead) else Some None);
     case hit of
       Some b \<Rightarrow> do {
         let s = upd_group i (upd_buf b (\<lambda>x. x\<lparr>b_refcnt := b_refcnt x + 1\<rparr>)) s;
         lk \<leftarrow> acquiresleep (b_lock (the_buf (i, b) s)) s;
         Some ((i, b), upd_group i (upd_buf b (\<lambda>x. x\<lparr>b_lock := lk\<rparr>)) s) }
     | None \<Rightarrow> do {
         old \<leftarrow> search (g_prev g) (\<lambda>b. b_refcnt (g_buf g b) = 0) (g_prev g BHead);
         b \<leftarrow> old;
         let s = upd_group i (upd_buf b (\<lambda>x. x\<lparr>b_dev := dev, b_blockno := blockno, b_valid := False, b_refcnt := 1\<rparr>)) s;
         lk \<leftarrow> acquiresleep (b_lock (the_buf (i, b) s)) s;
         Some ((i, b), upd_group i (upd_buf b (\<lambda>x. x\<lparr>b_lock := lk\<rparr>)) s) } }"

definition bread :: "u32 \<Rightarrow> u32 \<Rightarrow> 'z kbio_scheme \<Rightarrow> (bufp \<times> 'z kbio_scheme) option" where
  "bread dev blockno s = do {
     (h, s) \<leftarrow> bget dev blockno s;
     Some (h, if b_valid (the_buf h s) then s
              else upd_group (fst h) (upd_buf (snd h) (\<lambda>x. x\<lparr>b_data := sdcard s (b_blockno x), b_valid := True\<rparr>)) s) }"

definition bwrite :: "bufp \<Rightarrow> 'z kbio_scheme \<Rightarrow> 'z kbio_scheme option" where
  "bwrite h s = do {
     held \<leftarrow> holdingsleep (b_lock (the_buf h s)) s;
     kassert held;
     Some s }"

text \<open>
  \<^verbatim>\<open>brelse\<close> takes the head of the list from the block number, not from the place of the buffer in the
  array. A buffer whose block belongs to another group would be spliced into that group's list; the
  lists here are per group, so the model ends there. A buffer in use has a block of its own group,
  since only \<^verbatim>\<open>bget\<close> hands buffers out (\<open>cache_abs\<close> of \<open>Bio_Cache\<close>).
\<close>

definition brelse :: "bufp \<Rightarrow> 'z kbio_scheme \<Rightarrow> 'z kbio_scheme option" where
  "brelse h s = do {
     held \<leftarrow> holdingsleep (b_lock (the_buf h s)) s;
     kassert held;
     (lk, s) \<leftarrow> releasesleep (ChanBuf (fst h) (snd h)) (b_lock (the_buf h s)) s;
     let group = bgroup_of (b_blockno (the_buf h s));
     let s = upd_group (fst h) (upd_buf (snd h) (\<lambda>x. x\<lparr>b_lock := lk, b_refcnt := b_refcnt x - 1\<rparr>)) s;
     if b_refcnt (the_buf h s) = 0 then do {
       kassert (group = fst h);
       Some (upd_group group (\<lambda>g. insert_mru (snd h) (unlink (snd h) g)) s) }
     else Some s }"

definition bpin :: "bufp \<Rightarrow> 'z kbio_scheme \<Rightarrow> 'z kbio_scheme" where
  "bpin h s = upd_group (fst h) (upd_buf (snd h) (\<lambda>x. x\<lparr>b_refcnt := b_refcnt x + 1\<rparr>)) s"

definition bunpin :: "bufp \<Rightarrow> 'z kbio_scheme \<Rightarrow> 'z kbio_scheme" where
  "bunpin h s = upd_group (fst h) (upd_buf (snd h) (\<lambda>x. x\<lparr>b_refcnt := b_refcnt x - 1\<rparr>)) s"

end
