(* ===== verification/Fat_Types.thy ===== *)
theory Fat_Types
  imports Bio
begin

text \<open>
  The data of the file system: \<^verbatim>\<open>src/include/{Fat,Dirent,Inode,FileSystem,File}.h\<close>, with the pools of
  \<^verbatim>\<open>src/kernel/fs/{Inode,Dirent}.c\<close>. Directory entries are the cells of the array \<^verbatim>\<open>dirents\<close>; the
  root entry inside \<^verbatim>\<open>fileSystem[f]\<close> has the index \<open>DIRENT_NUM + f\<close>. A kernel buffer on the stack is
  given by its contents.
\<close>

section \<open>Bytes in buffers\<close>

definition get16 :: "u8 list \<Rightarrow> nat \<Rightarrow> u16" where
  "get16 xs k = ucast (le_word (take 2 (drop k xs)))"

definition get32 :: "u8 list \<Rightarrow> nat \<Rightarrow> u32" where
  "get32 xs k = ucast (le_word (take 4 (drop k xs)))"

primrec le_bytes :: "nat \<Rightarrow> u64 \<Rightarrow> u8 list" where
  "le_bytes 0 w = []"
| "le_bytes (Suc n) w = ucast w # le_bytes n (drop_bit 8 w)"

definition put_at :: "nat \<Rightarrow> u8 list \<Rightarrow> u8 list \<Rightarrow> u8 list" where
  "put_at k bs xs = take k xs @ bs @ drop (k + length bs) xs"

text \<open>Comparison of two strings given by their bytes, a missing byte being the NUL.\<close>

definition hd0 :: "u8 list \<Rightarrow> u8" where
  "hd0 xs = (case xs of [] \<Rightarrow> 0 | x # _ \<Rightarrow> x)"

primrec strncmp_bytes :: "nat \<Rightarrow> u8 list \<Rightarrow> u8 list \<Rightarrow> int" where
  "strncmp_bytes 0 p q = 0"
| "strncmp_bytes (Suc n) p q =
     (if hd0 p \<noteq> 0 \<and> hd0 p = hd0 q then strncmp_bytes n (tl p) (tl q) else uint (hd0 p) - uint (hd0 q))"

definition cstr :: "u8 list \<Rightarrow> u8 list" where
  "cstr xs = takeWhile (\<lambda>c. c \<noteq> 0) xs"

section \<open>Structures\<close>

abbreviation (input) INODE_NUM :: nat where "INODE_NUM \<equiv> 1024"
abbreviation (input) INODE_ITEM_NUM :: nat where "INODE_ITEM_NUM \<equiv> 64"
abbreviation (input) INODE_SECOND_ITEM_BASE :: nat where "INODE_SECOND_ITEM_BASE \<equiv> 8"
abbreviation (input) INODE_THIRD_ITEM_BASE :: nat where "INODE_THIRD_ITEM_BASE \<equiv> 24"
abbreviation (input) INODE_SECOND_LEVEL_BOTTOM :: nat where "INODE_SECOND_LEVEL_BOTTOM \<equiv> 8"
abbreviation (input) INODE_THIRD_LEVEL_BOTTOM :: nat where "INODE_THIRD_LEVEL_BOTTOM \<equiv> 1032"
abbreviation (input) INODE_THIRD_LEVEL_TOP :: nat where "INODE_THIRD_LEVEL_TOP \<equiv> 164872"
abbreviation (input) DIRENT_NUM :: nat where "DIRENT_NUM \<equiv> 8192"
abbreviation (input) FAT32_MAX_FILENAME :: nat where "FAT32_MAX_FILENAME \<equiv> 255"
abbreviation (input) FAT32_EOC :: u32 where "FAT32_EOC \<equiv> 0x0ffffff8"
abbreviation (input) ATTR_READ_ONLY :: u8 where "ATTR_READ_ONLY \<equiv> 0x01"
abbreviation (input) ATTR_SYSTEM :: u8 where "ATTR_SYSTEM \<equiv> 0x04"
abbreviation (input) ATTR_DIRECTORY :: u8 where "ATTR_DIRECTORY \<equiv> 0x10"
abbreviation (input) ATTR_ARCHIVE :: u8 where "ATTR_ARCHIVE \<equiv> 0x20"
abbreviation (input) ATTR_LONG_NAME :: u8 where "ATTR_LONG_NAME \<equiv> 0x0F"
abbreviation (input) ATTR_LINK :: u8 where "ATTR_LINK \<equiv> 0x40"
abbreviation (input) ATTR_CHARACTER_DEVICE :: u8 where "ATTR_CHARACTER_DEVICE \<equiv> 0x80"
abbreviation (input) DT_LNK :: u8 where "DT_LNK \<equiv> 10"
abbreviation (input) DEV_ZERO :: u32 where "DEV_ZERO \<equiv> 10"
abbreviation (input) DEV_OSRELEASE :: u32 where "DEV_OSRELEASE \<equiv> 12"
abbreviation (input) DEV_NONE :: u32 where "DEV_NONE \<equiv> 15"

type_synonym Inode = "nat \<Rightarrow> u32"

record Dirent =
  filename :: "u8 list"
  attribute :: u8
  first_clus :: u32
  file_size :: u32
  cur_clus :: u32
  inodeMaxCluster :: u32
  clus_cnt :: u32
  d_inode :: Inode
  nt_res :: u8
  fileSystem_of :: "nat option"
  d_dev :: u32
  d_head :: "nat option"
  d_off :: u32
  d_parent :: "nat option"
  nextBrother :: "nat option"
  firstChild :: "nat option"

record superblock =
  first_data_sec :: u32
  data_sec_cnt :: u32
  data_clus_cnt :: u32
  byts_per_clus :: u32
  byts_per_sec :: u16
  sec_per_clus :: u8
  rsvd_sec_cnt :: u16
  fat_cnt :: u8
  hidd_sec :: u32
  tot_sec :: u32
  fat_sz :: u32
  root_clus :: u32

text \<open>The functions the field \<^verbatim>\<open>read\<close> points to.\<close>

datatype fs_reader = NoRead | BlockRead | MountBlockRead

record FileSystem =
  fs_valid :: bool
  fs_name :: "u8 list"
  superBlock :: superblock
  fs_image :: "nat option"
  fs_next :: "nat option"
  deviceNumber :: u32
  fs_reads :: fs_reader

datatype file_type = FD_NONE | FD_PIPE | FD_ENTRY | FD_DEVICE | FD_SOCKET

record File =
  f_type :: file_type
  f_ref :: int
  f_readable :: bool
  f_writable :: bool
  f_pipe :: nat
  f_ep :: "nat option"
  f_socket :: nat
  f_off :: u32
  f_major :: int
  f_curChild :: "nat option"

text \<open>\<open>root_diff f\<close> is the difference of \<^verbatim>\<open>&fileSystem[f].root\<close> and \<^verbatim>\<open>dirents\<close>, which the linker fixes.\<close>

record kfat = kbio +
  inodes :: "nat \<Rightarrow> Inode"
  inodeBitmap :: "u64 list"
  dirents :: "nat \<Rightarrow> Dirent"
  direntHead :: "nat option"
  fileSystem :: "nat \<Rightarrow> FileSystem"
  rootFileSystem :: "nat option"
  mountList :: "nat option"
  ftable :: "nat \<Rightarrow> File"
  root_diff :: "nat \<Rightarrow> u64"

abbreviation upd_dirent :: "nat \<Rightarrow> (Dirent \<Rightarrow> Dirent) \<Rightarrow> 'z kfat_scheme \<Rightarrow> 'z kfat_scheme" where
  "upd_dirent d f s \<equiv> s\<lparr>dirents := (dirents s)(d := f (dirents s d))\<rparr>"

abbreviation upd_fs :: "nat \<Rightarrow> (FileSystem \<Rightarrow> FileSystem) \<Rightarrow> 'z kfat_scheme \<Rightarrow> 'z kfat_scheme" where
  "upd_fs i f s \<equiv> s\<lparr>fileSystem := (fileSystem s)(i := f (fileSystem s i))\<rparr>"

abbreviation upd_file :: "nat \<Rightarrow> (File \<Rightarrow> File) \<Rightarrow> 'z kfat_scheme \<Rightarrow> 'z kfat_scheme" where
  "upd_file i f s \<equiv> s\<lparr>ftable := (ftable s)(i := f (ftable s i))\<rparr>"

abbreviation upd_item :: "nat \<Rightarrow> nat \<Rightarrow> u32 \<Rightarrow> 'z kfat_scheme \<Rightarrow> 'z kfat_scheme" where
  "upd_item i k v s \<equiv> s\<lparr>inodes := (inodes s)(i := (inodes s i)(k := v))\<rparr>"

abbreviation root_of :: "nat \<Rightarrow> nat" where
  "root_of f \<equiv> DIRENT_NUM + f"

abbreviation sb :: "nat \<Rightarrow> 'z kfat_scheme \<Rightarrow> superblock" where
  "sb f s \<equiv> superBlock (fileSystem s f)"

section \<open>Inode blocks\<close>

text \<open>
  The loop of \<^verbatim>\<open>inodeAlloc\<close> runs to the size of the bitmap in bytes; once all blocks are taken it
  reads past the array. What it finds there is undefined, and this is \<open>None\<close> like every access outside
  of an array.
\<close>

definition inodeAlloc :: "'z kfat_scheme \<Rightarrow> (nat \<times> 'z kfat_scheme) option" where
  "inodeAlloc s = do {
     (i, bm) \<leftarrow> bitmap_alloc (inodeBitmap s) 0;
     Some (i, s\<lparr>inodeBitmap := bm\<rparr>) }"

definition inodeFree :: "u32 \<Rightarrow> 'z kfat_scheme \<Rightarrow> 'z kfat_scheme option" where
  "inodeFree x s = do {
     kassert (unat x < INODE_NUM);
     kassert (bitmap_test (inodeBitmap s) (unat x));
     bm \<leftarrow> bitmap_free (unat x) (inodeBitmap s);
     Some (s\<lparr>inodeBitmap := bm\<rparr>) }"

section \<open>Directory entries\<close>

definition direntAlloc :: "'z kfat_scheme \<Rightarrow> (nat \<times> 'z kfat_scheme) option" where
  "direntAlloc s = do {
     d \<leftarrow> direntHead s;
     Some (d, s\<lparr>direntHead := nextBrother (dirents s d)\<rparr>) }"

definition direntFree :: "nat \<Rightarrow> 'z kfat_scheme \<Rightarrow> 'z kfat_scheme" where
  "direntFree d s = (upd_dirent d (\<lambda>e. e\<lparr>nextBrother := direntHead s\<rparr>) s)\<lparr>direntHead := Some d\<rparr>"

definition direntInit :: "'z kfat_scheme \<Rightarrow> 'z kfat_scheme" where
  "direntInit s = fold (\<lambda>i s. (upd_dirent i (\<lambda>e. e\<lparr>nextBrother := direntHead s\<rparr>) s)\<lparr>direntHead := Some i\<rparr>) [0..<DIRENT_NUM] s"

section \<open>Places a file is read to or written from\<close>

text \<open>User memory, kernel memory, or a buffer of the kernel given by its contents.\<close>

datatype place = UserAt u64 | KernelAt u64 | Local "u8 list"

text \<open>\<^verbatim>\<open>either_copyout\<close> and \<^verbatim>\<open>either_copyin\<close> at a place, with the place after the bytes.\<close>

definition put_place :: "'z file_reader \<Rightarrow> place \<Rightarrow> u8 list \<Rightarrow> 'z kmem_scheme \<Rightarrow> ((int \<times> place) \<times> 'z kmem_scheme) option" where
  "put_place er pl bs s = (case pl of
     UserAt a \<Rightarrow> do { (r, s) \<leftarrow> either_copyout er True a bs (of_nat (length bs)) s; Some ((r, UserAt (a + of_nat (length bs))), s) }
   | KernelAt a \<Rightarrow> do { (r, s) \<leftarrow> either_copyout er False a bs (of_nat (length bs)) s; Some ((r, KernelAt (a + of_nat (length bs))), s) }
   | Local acc \<Rightarrow> Some ((0, Local (acc @ bs)), s))"

definition get_place :: "'z file_reader \<Rightarrow> place \<Rightarrow> u32 \<Rightarrow> 'z kmem_scheme \<Rightarrow> ((u8 list \<times> place) \<times> 'z kmem_scheme) option" where
  "get_place er pl m s = (case pl of
     UserAt a \<Rightarrow> do { (bs, s) \<leftarrow> either_copyin er True a (ucast m) s; Some ((bs, UserAt (a + ucast m)), s) }
   | KernelAt a \<Rightarrow> do { (bs, s) \<leftarrow> either_copyin er False a (ucast m) s; Some ((bs, KernelAt (a + ucast m)), s) }
   | Local bs \<Rightarrow> do { kassert (unat m \<le> length bs); Some ((take (unat m) bs, Local (drop (unat m) bs)), s) })"

definition memset_place :: "'z file_reader \<Rightarrow> place \<Rightarrow> u8 \<Rightarrow> u32 \<Rightarrow> 'z kmem_scheme \<Rightarrow> ((int \<times> place) \<times> 'z kmem_scheme) option" where
  "memset_place er pl v n s = (case pl of
     UserAt a \<Rightarrow> do { (r, s) \<leftarrow> either_memset er True a v (ucast n) s; Some ((r, UserAt (a + ucast n)), s) }
   | KernelAt a \<Rightarrow> do { (r, s) \<leftarrow> either_memset er False a v (ucast n) s; Some ((r, KernelAt (a + ucast n)), s) }
   | Local acc \<Rightarrow> Some ((0, Local (acc @ replicate (unat n) v)), s))"

end
