(* ===== verification/Fat.thy ===== *)
theory Fat
  imports Fat_Types
begin

text \<open>
  Clusters and file contents, \<^verbatim>\<open>src/kernel/fs/Fat.c\<close>: the allocation table, the cluster bitmap in
  kernel memory, the cached position of an entry in its chain, and reading and writing of files.
  The functions that read blocks take the block reader as their argument, because a mounted file
  system reads its blocks through the file that holds its image; \<open>fs_read\<close> ties the knot, one level of
  mounting at a time.
\<close>

section \<open>The clusters an entry remembers\<close>

definition inode_get :: "u32 \<Rightarrow> nat \<Rightarrow> 'z kfat_scheme \<Rightarrow> u32 option" where
  "inode_get i k s = do { kassert (unat i < INODE_NUM); Some (inodes s (unat i) k) }"

definition inode_set :: "u32 \<Rightarrow> nat \<Rightarrow> u32 \<Rightarrow> 'z kfat_scheme \<Rightarrow> 'z kfat_scheme option" where
  "inode_set i k v s = do { kassert (unat i < INODE_NUM); Some (upd_item (unat i) k v s) }"

abbreviation set_item :: "nat \<Rightarrow> nat \<Rightarrow> u32 \<Rightarrow> 'z kfat_scheme \<Rightarrow> 'z kfat_scheme" where
  "set_item ep k v s \<equiv> upd_dirent ep (\<lambda>e. e\<lparr>d_inode := (d_inode e)(k := v)\<rparr>) s"

text \<open>The loops of \<^verbatim>\<open>eFreeInode\<close> stop at the first block that was never used.\<close>

primrec free_second :: "nat \<Rightarrow> nat list \<Rightarrow> 'z kfat_scheme \<Rightarrow> 'z kfat_scheme option" where
  "free_second ep [] s = Some s"
| "free_second ep (i # is) s =
     (if unat (inodeMaxCluster (dirents s ep)) > INODE_SECOND_LEVEL_BOTTOM + (i - INODE_SECOND_ITEM_BASE) * INODE_ITEM_NUM
      then do { s \<leftarrow> inodeFree (d_inode (dirents s ep) i) s; free_second ep is s }
      else Some s)"

primrec free_third_items :: "nat \<Rightarrow> nat \<Rightarrow> nat \<Rightarrow> nat list \<Rightarrow> 'z kfat_scheme \<Rightarrow> 'z kfat_scheme option" where
  "free_third_items ep i base [] s = Some s"
| "free_third_items ep i base (j # js) s =
     (if unat (inodeMaxCluster (dirents s ep)) > base + j * INODE_ITEM_NUM
      then do { x \<leftarrow> inode_get (d_inode (dirents s ep) i) j s; s \<leftarrow> inodeFree x s; free_third_items ep i base js s }
      else Some s)"

primrec free_third :: "nat \<Rightarrow> nat list \<Rightarrow> 'z kfat_scheme \<Rightarrow> 'z kfat_scheme option" where
  "free_third ep [] s = Some s"
| "free_third ep (i # is) s =
     (let base = INODE_THIRD_LEVEL_BOTTOM + (i - INODE_SECOND_ITEM_BASE) * INODE_ITEM_NUM * INODE_ITEM_NUM
      in if unat (inodeMaxCluster (dirents s ep)) > base then do {
           s \<leftarrow> free_third_items ep i base [0..<INODE_ITEM_NUM] s;
           s \<leftarrow> inodeFree (d_inode (dirents s ep) i) s;
           free_third ep is s }
         else Some s)"

definition eFreeInode :: "nat \<Rightarrow> 'z kfat_scheme \<Rightarrow> 'z kfat_scheme option" where
  "eFreeInode ep s = do {
     s \<leftarrow> free_second ep [INODE_SECOND_ITEM_BASE..<INODE_THIRD_ITEM_BASE] s;
     s \<leftarrow> free_third ep [INODE_THIRD_ITEM_BASE..<INODE_ITEM_NUM] s;
     Some (upd_dirent ep (\<lambda>e. e\<lparr>inodeMaxCluster := 0\<rparr>) s) }"

text \<open>The cluster at a position of the chain, through one, two or three levels.\<close>

definition cluster_at :: "nat \<Rightarrow> nat \<Rightarrow> 'z kfat_scheme \<Rightarrow> u32 option" where
  "cluster_at ep pos s =
     (let it = d_inode (dirents s ep)
      in if pos < INODE_SECOND_LEVEL_BOTTOM then Some (it pos)
         else if pos < INODE_THIRD_LEVEL_BOTTOM then
           inode_get (it (INODE_SECOND_ITEM_BASE + (pos - INODE_SECOND_LEVEL_BOTTOM) div INODE_ITEM_NUM))
             ((pos - INODE_SECOND_LEVEL_BOTTOM) mod INODE_ITEM_NUM) s
         else if pos < INODE_THIRD_LEVEL_TOP then do {
           x \<leftarrow> inode_get (it (INODE_THIRD_ITEM_BASE + (pos - INODE_THIRD_LEVEL_BOTTOM) div INODE_ITEM_NUM div INODE_ITEM_NUM))
             ((pos - INODE_THIRD_LEVEL_BOTTOM) div INODE_ITEM_NUM mod INODE_ITEM_NUM) s;
           inode_get x ((pos - INODE_THIRD_LEVEL_BOTTOM) mod INODE_ITEM_NUM) s }
         else None)"

definition eFindInode :: "nat \<Rightarrow> u32 \<Rightarrow> 'z kfat_scheme \<Rightarrow> 'z kfat_scheme option" where
  "eFindInode ep pos s = do {
     kassert (pos < inodeMaxCluster (dirents s ep));
     c \<leftarrow> cluster_at ep (unat pos) s;
     Some (upd_dirent ep (\<lambda>e. e\<lparr>clus_cnt := pos, cur_clus := c\<rparr>) s) }"

section \<open>The allocation table\<close>

type_synonym 'z block_reader = "nat \<Rightarrow> u64 \<Rightarrow> 'z kfat_scheme \<Rightarrow> (bufp \<times> 'z kfat_scheme) option"

abbreviation buf_data :: "bufp \<Rightarrow> 'z kbio_scheme \<Rightarrow> u8 list" where
  "buf_data h s \<equiv> b_data (the_buf h s)"

abbreviation upd_data :: "bufp \<Rightarrow> (u8 list \<Rightarrow> u8 list) \<Rightarrow> 'z kbio_scheme \<Rightarrow> 'z kbio_scheme" where
  "upd_data h f s \<equiv> upd_group (fst h) (upd_buf (snd h) (\<lambda>x. x\<lparr>b_data := f (b_data x)\<rparr>)) s"

definition first_sec_of_clus :: "superblock \<Rightarrow> u32 \<Rightarrow> u32" where
  "first_sec_of_clus b cluster = (cluster - 2) * ucast (sec_per_clus b) + first_data_sec b"

definition fat_sec_of_clus :: "superblock \<Rightarrow> u32 \<Rightarrow> u8 \<Rightarrow> u32" where
  "fat_sec_of_clus b cluster fat_num =
     ucast (rsvd_sec_cnt b) + push_bit 2 cluster div ucast (byts_per_sec b) + fat_sz b * (ucast fat_num - 1)"

definition fat_offset_of_clus :: "superblock \<Rightarrow> u32 \<Rightarrow> u32" where
  "fat_offset_of_clus b cluster = push_bit 2 cluster mod ucast (byts_per_sec b)"

definition read_fat :: "'z block_reader \<Rightarrow> nat \<Rightarrow> u32 \<Rightarrow> 'z kfat_scheme \<Rightarrow> (u32 \<times> 'z kfat_scheme) option" where
  "read_fat rd fs cluster s =
     (if cluster \<ge> FAT32_EOC then Some (cluster, s)
      else if cluster > data_clus_cnt (sb fs s) + 1 then Some (0, s)
      else do {
        let off = unat (fat_offset_of_clus (sb fs s) cluster);
        (h, s) \<leftarrow> rd fs (ucast (fat_sec_of_clus (sb fs s) cluster 1)) s;
        let next_clus = get32 (buf_data h s) off;
        s \<leftarrow> brelse h s;
        Some (next_clus, s) })"

definition write_fat :: "'z block_reader \<Rightarrow> nat \<Rightarrow> u32 \<Rightarrow> u32 \<Rightarrow> 'z kfat_scheme \<Rightarrow> (int \<times> 'z kfat_scheme) option" where
  "write_fat rd fs cluster content s =
     (if cluster > data_clus_cnt (sb fs s) + 1 then Some (- 1, s)
      else do {
        let off = unat (fat_offset_of_clus (sb fs s) cluster);
        (h, s) \<leftarrow> rd fs (ucast (fat_sec_of_clus (sb fs s) cluster 1)) s;
        let s = upd_data h (put_at off (le_bytes 4 (ucast content))) s;
        s \<leftarrow> bwrite h s;
        s \<leftarrow> brelse h s;
        Some (0, s) })"

definition zero_clus :: "'z block_reader \<Rightarrow> nat \<Rightarrow> u32 \<Rightarrow> 'z kfat_scheme \<Rightarrow> 'z kfat_scheme option" where
  "zero_clus rd fs cluster s =
     (let sec = first_sec_of_clus (sb fs s) cluster
      in kfor 0 (unat (sec_per_clus (sb fs s))) (\<lambda>i s. do {
           (h, s) \<leftarrow> rd fs (ucast (sec + of_nat i)) s;
           let s = upd_data h (\<lambda>_. replicate BSIZE 0) s;
           s \<leftarrow> bwrite h s;
           brelse h s }) s)"

section \<open>The cluster bitmap\<close>

definition getFileSystemClusterBitmap :: "nat \<Rightarrow> u64" where
  "getFileSystemClusterBitmap fs = FILE_SYSTEM_CLUSTER_BITMAP_BASE + push_bit 10 (of_nat fs) * PAGE_SIZE"

definition kload64 :: "u64 \<Rightarrow> 'z kmem_scheme \<Rightarrow> u64 option" where
  "kload64 va s = do { pa \<leftarrow> kva va s; Some (load64 (mem s) pa) }"

definition kstore64 :: "u64 \<Rightarrow> u64 \<Rightarrow> 'z kmem_scheme \<Rightarrow> 'z kmem_scheme option" where
  "kstore64 va v s = do { pa \<leftarrow> kva va s; Some (s\<lparr>mem := store64 (mem s) pa v\<rparr>) }"

text \<open>The first word with a zero bit; the kernel stops when there is none.\<close>

primrec free_word :: "u64 \<Rightarrow> nat list \<Rightarrow> 'z kmem_scheme \<Rightarrow> (nat \<times> u64) option" where
  "free_word base [] s = None"
| "free_word base (i # is) s = do {
     w \<leftarrow> kload64 (base + 8 * of_nat i) s;
     if NOT w \<noteq> 0 then Some (i, w) else free_word base is s }"

definition totalClusterNumber :: "superblock \<Rightarrow> nat" where
  "totalClusterNumber b = unat (fat_sz b * ucast (byts_per_sec b)) div 4"

definition alloc_clus :: "'z block_reader \<Rightarrow> nat \<Rightarrow> 'z kfat_scheme \<Rightarrow> (u32 \<times> 'z kfat_scheme) option" where
  "alloc_clus rd fs s = do {
     let base = getFileSystemClusterBitmap fs;
     (i, w) \<leftarrow> free_word base [0..<totalClusterNumber (sb fs s) div 64] s;
     let b = nat (LOW_BIT64 (NOT w));
     s \<leftarrow> kstore64 (base + 8 * of_nat i) (w OR push_bit b 1) s;
     let cluster = push_bit 6 i OR b;
     let ent_per_sec = unat (byts_per_sec (sb fs s)) div 4;
     let sec = (ucast (rsvd_sec_cnt (sb fs s)) + of_nat (cluster div ent_per_sec) :: u32);
     (h, s) \<leftarrow> rd fs (ucast sec) s;
     let s = upd_data h (put_at (4 * (cluster mod ent_per_sec)) (le_bytes 4 (ucast (FAT32_EOC + 7)))) s;
     s \<leftarrow> bwrite h s;
     s \<leftarrow> brelse h s;
     s \<leftarrow> zero_clus rd fs (of_nat cluster) s;
     Some (of_nat cluster, s) }"

definition free_clus :: "'z block_reader \<Rightarrow> nat \<Rightarrow> u32 \<Rightarrow> 'z kfat_scheme \<Rightarrow> 'z kfat_scheme option" where
  "free_clus rd fs cluster s = do {
     (r, s) \<leftarrow> write_fat rd fs cluster 0 s;
     let va = getFileSystemClusterBitmap fs + 8 * ucast (drop_bit 6 cluster);
     w \<leftarrow> kload64 va s;
     kstore64 va (w AND NOT (push_bit (unat (cluster AND 63)) 1)) s }"

section \<open>The position in a chain\<close>

text \<open>One more cluster at the end of what the entry remembers.\<close>

definition add_cluster :: "nat \<Rightarrow> u32 \<Rightarrow> 'z kfat_scheme \<Rightarrow> 'z kfat_scheme option" where
  "add_cluster ep clus s = do {
     let s = upd_dirent ep (\<lambda>e. e\<lparr>cur_clus := clus, clus_cnt := clus_cnt e + 1\<rparr>) s;
     let pos = unat (clus_cnt (dirents s ep));
     kassert (clus_cnt (dirents s ep) = inodeMaxCluster (dirents s ep));
     let s = upd_dirent ep (\<lambda>e. e\<lparr>inodeMaxCluster := inodeMaxCluster e + 1\<rparr>) s;
     if pos < INODE_SECOND_LEVEL_BOTTOM then Some (set_item ep pos clus s)
     else if pos < INODE_THIRD_LEVEL_BOTTOM then do {
       let idx1 = INODE_SECOND_ITEM_BASE + (pos - INODE_SECOND_LEVEL_BOTTOM) div INODE_ITEM_NUM;
       let idx2 = (pos - INODE_SECOND_LEVEL_BOTTOM) mod INODE_ITEM_NUM;
       s \<leftarrow> (if idx2 = 0 then do { (i, s) \<leftarrow> inodeAlloc s; Some (set_item ep idx1 (of_nat i) s) } else Some s);
       inode_set (d_inode (dirents s ep) idx1) idx2 clus s }
     else if pos < INODE_THIRD_LEVEL_TOP then do {
       let idx1 = INODE_THIRD_ITEM_BASE + (pos - INODE_THIRD_LEVEL_BOTTOM) div INODE_ITEM_NUM div INODE_ITEM_NUM;
       let idx2 = (pos - INODE_THIRD_LEVEL_BOTTOM) div INODE_ITEM_NUM mod INODE_ITEM_NUM;
       let idx3 = (pos - INODE_THIRD_LEVEL_BOTTOM) mod INODE_ITEM_NUM;
       s \<leftarrow> (if idx3 = 0 then do {
              s \<leftarrow> (if idx2 = 0 then do { (i, s) \<leftarrow> inodeAlloc s; Some (set_item ep idx1 (of_nat i) s) } else Some s);
              (i, s) \<leftarrow> inodeAlloc s;
              inode_set (d_inode (dirents s ep) idx1) idx2 (of_nat i) s }
            else Some s);
       x \<leftarrow> inode_get (d_inode (dirents s ep) idx1) idx2 s;
       inode_set x idx3 clus s }
     else None }"

text \<open>The walk along the table; false when the chain ends and must not grow.\<close>

partial_function (option) reloc_loop ::
  "'z block_reader \<Rightarrow> nat \<Rightarrow> nat \<Rightarrow> u32 \<Rightarrow> bool \<Rightarrow> 'z kfat_scheme \<Rightarrow> (bool \<times> 'z kfat_scheme) option" where
  "reloc_loop rd fs ep clus_num alloc s =
     (if clus_num > clus_cnt (dirents s ep) then do {
        (clus, s) \<leftarrow> read_fat rd fs (cur_clus (dirents s ep)) s;
        if sint clus \<ge> sint FAT32_EOC then
          if alloc then do {
            (clus, s) \<leftarrow> alloc_clus rd fs s;
            (r, s) \<leftarrow> write_fat rd fs (cur_clus (dirents s ep)) clus s;
            s \<leftarrow> add_cluster ep clus s;
            reloc_loop rd fs ep clus_num alloc s }
          else Some (False, upd_dirent ep (\<lambda>e. e\<lparr>cur_clus := first_clus e, clus_cnt := 0\<rparr>) s)
        else do {
          s \<leftarrow> add_cluster ep clus s;
          reloc_loop rd fs ep clus_num alloc s } }
      else Some (True, s))"

definition reloc_clus :: "'z block_reader \<Rightarrow> nat \<Rightarrow> nat \<Rightarrow> u32 \<Rightarrow> bool \<Rightarrow> 'z kfat_scheme \<Rightarrow> (int \<times> 'z kfat_scheme) option" where
  "reloc_clus rd fs ep off alloc s = do {
     kassert (first_clus (dirents s ep) \<noteq> 0);
     kassert (inodeMaxCluster (dirents s ep) > 0);
     kassert (first_clus (dirents s ep) = d_inode (dirents s ep) 0);
     let clus_num = off div byts_per_clus (sb fs s);
     let ret = sint (off mod byts_per_clus (sb fs s));
     if clus_num < inodeMaxCluster (dirents s ep) then do {
       s \<leftarrow> eFindInode ep clus_num s;
       Some (ret, s) }
     else do {
       s \<leftarrow> eFindInode ep (inodeMaxCluster (dirents s ep) - 1) s;
       (found, s) \<leftarrow> reloc_loop rd fs ep clus_num alloc s;
       Some (if found then ret else - 1, s) } }"

text \<open>A data block of a file as a block of its file system.\<close>

definition getBlockNumber :: "'z block_reader \<Rightarrow> nat \<Rightarrow> u32 \<Rightarrow> 'z kfat_scheme \<Rightarrow> (int \<times> 'z kfat_scheme) option" where
  "getBlockNumber rd ep dataBlockNum s = do {
     let offset = push_bit 9 dataBlockNum;
     if offset > file_size (dirents s ep) then Some (- 1, s)
     else do {
       fs \<leftarrow> fileSystem_of (dirents s ep);
       (r, s) \<leftarrow> reloc_clus rd fs ep offset False s;
       Some (sint (first_sec_of_clus (sb fs s) (cur_clus (dirents s ep))
         + offset mod byts_per_clus (sb fs s) div ucast (byts_per_sec (sb fs s))), s) } }"

section \<open>Blocks of a file system\<close>

definition blockRead :: "'z block_reader" where
  "blockRead fs blockNum s = bread (deviceNumber (fileSystem s fs)) (ucast blockNum) s"

text \<open>\<open>rd\<close> reads the blocks of the file system that holds the image. A NULL result is dereferenced.\<close>

definition mountBlockRead :: "'z block_reader \<Rightarrow> 'z block_reader" where
  "mountBlockRead rd fs blockNum s = do {
     i \<leftarrow> fs_image (fileSystem s fs);
     let file = ftable s i;
     if f_type file = FD_DEVICE then bread (word_of_int (f_major file)) (ucast blockNum) s
     else do {
       kassert (f_type file = FD_ENTRY);
       image \<leftarrow> f_ep file;
       parentFs \<leftarrow> fileSystem_of (dirents s image);
       (parentBlockNum, s) \<leftarrow> getBlockNumber rd image (ucast blockNum) s;
       kassert (\<not> parentBlockNum < 0);
       rd parentFs (word_of_int parentBlockNum) s } }"

primrec fs_read :: "nat \<Rightarrow> 'z block_reader" where
  "fs_read 0 fs blockNum s = None"
| "fs_read (Suc k) fs blockNum s = (case fs_reads (fileSystem s fs) of
     NoRead \<Rightarrow> None
   | BlockRead \<Rightarrow> blockRead fs blockNum s
   | MountBlockRead \<Rightarrow> mountBlockRead (fs_read k) fs blockNum s)"

text \<open>There are 32 file systems, so 32 levels of mounting are all there can be without a cycle.\<close>

definition fsread :: "'z block_reader" where
  "fsread = fs_read 32"

end
