(* ===== verification/Bio_Cache.thy ===== *)
theory Bio_Cache
  imports Fat
begin

text \<open>
  What the buffer cache of \<^verbatim>\<open>src/kernel/fs/Bio.c\<close> promises its users. Each group's circular list is a
  sequence of buffers, most recently used first (\<open>ring\<close>); \<open>block s dev n\<close> is what a reader of the block
  sees, the valid buffer that holds it or else the card. \<open>cache_abs\<close> is the invariant: reading
  delivers \<open>block\<close>, releasing leaves every block alone and makes the buffer the most recently used.
\<close>

section \<open>The list of a group as a sequence\<close>

fun link :: "bgroup \<Rightarrow> bnode \<Rightarrow> nat list \<Rightarrow> bnode \<Rightarrow> bool" where
  "link g x [] y \<longleftrightarrow> g_next g x = y \<and> g_prev g y = x"
| "link g x (b # bs) y \<longleftrightarrow> g_next g x = B b \<and> g_prev g (B b) = x \<and> link g (B b) bs y"

definition ring :: "bgroup \<Rightarrow> nat list \<Rightarrow> bool" where
  "ring g bs \<longleftrightarrow> distinct bs \<and> link g BHead bs BHead"

lemma link_append: "link g x (as @ b # bs) y \<longleftrightarrow> link g x as (B b) \<and> link g (B b) bs y"
  by (induction as arbitrary: x) auto

lemma link_cong:
  assumes "\<And>n. n = x \<or> n \<in> B ` set bs \<Longrightarrow> g_next g n = g_next h n"
    and "\<And>n. n = y \<or> n \<in> B ` set bs \<Longrightarrow> g_prev g n = g_prev h n"
  shows "link g x bs y \<longleftrightarrow> link h x bs y"
  using assms by (induction bs arbitrary: x) auto

lemma link_ends:
  assumes "link g x bs y"
  shows "g_next g x = (case bs of [] \<Rightarrow> y | b # _ \<Rightarrow> B b)"
    and "g_prev g y = (case rev bs of [] \<Rightarrow> x | b # _ \<Rightarrow> B b)"
proof -
  show "g_next g x = (case bs of [] \<Rightarrow> y | b # _ \<Rightarrow> B b)" using assms by (cases bs) auto
  show "g_prev g y = (case rev bs of [] \<Rightarrow> x | b # _ \<Rightarrow> B b)"
    using assms by (cases bs rule: rev_cases) (auto simp: link_append)
qed

lemma link_unlink:
  assumes l: "link g BHead (as @ b # bs) BHead" and d: "distinct (as @ b # bs)"
  shows "link (unlink b g) BHead (as @ bs) BHead"
proof -
  have 1: "link g BHead as (B b)" and 2: "link g (B b) bs BHead" using l by (simp_all add: link_append)
  note p = link_ends(2) [OF 1] and n = link_ends(1) [OF 2]
  have nx: "g_next (unlink b g) = (g_next g)(g_prev g (B b) := g_next g (B b))"
    and pv: "g_prev (unlink b g) = (g_prev g)(g_next g (B b) := g_prev g (B b))"
    using d n p by (auto simp: unlink_def Let_def split: list.splits)
  show ?thesis
  proof (cases bs)
    case Nil
    show ?thesis
    proof (cases as rule: rev_cases)
      case Nil
      then show ?thesis using \<open>bs = []\<close> nx pv n p by simp
    next
      case (snoc as' a)
      have "link (unlink b g) BHead as' (B a)"
        using 1 d by (subst link_cong [of _ _ _ g]) (auto simp: nx pv n p snoc Nil link_append)
      then show ?thesis using Nil nx pv n p by (simp add: snoc link_append)
    qed
  next
    case (Cons c cs)
    have c: "link (unlink b g) (B c) cs BHead"
      using 2 d by (subst link_cong [of _ _ _ g]) (auto simp: nx pv n p Cons split: list.splits)
    show ?thesis
    proof (cases as rule: rev_cases)
      case Nil
      then show ?thesis using c nx pv n p by (simp add: Cons)
    next
      case (snoc as' a)
      have "link (unlink b g) BHead as' (B a)"
        using 1 d by (subst link_cong [of _ _ _ g]) (auto simp: nx pv n p snoc Cons link_append)
      then show ?thesis using c nx pv n p by (simp add: snoc Cons link_append)
    qed
  qed
qed

lemma link_insert_mru:
  assumes l: "link g BHead bs BHead" and b: "b \<notin> set bs" "distinct bs"
  shows "link (insert_mru b g) BHead (b # bs) BHead"
proof -
  note n = link_ends(1) [OF l]
  have nx: "g_next (insert_mru b g) = (g_next g)(B b := g_next g BHead, BHead := B b)"
    and pv: "g_prev (insert_mru b g) = (g_prev g)(B b := BHead, g_next g BHead := B b)"
    by (simp_all add: insert_mru_def Let_def)
  show ?thesis
  proof (cases bs)
    case Nil
    then show ?thesis using n by (simp add: nx pv)
  next
    case (Cons c cs)
    have "link (insert_mru b g) (B c) cs BHead"
      using l b by (subst link_cong [of _ _ _ g]) (auto simp: nx pv n Cons)
    then show ?thesis using b n by (simp add: nx pv Cons)
  qed
qed

lemma ring_touch:
  assumes "ring g bs" and "b \<in> set bs"
  shows "ring (insert_mru b (unlink b g)) (b # remove1 b bs)"
proof -
  obtain as cs where s: "bs = as @ b # cs" "b \<notin> set as" using split_list_first [OF assms(2)] by blast
  have d: "distinct (as @ b # cs)" and l: "link g BHead (as @ b # cs) BHead" using assms(1) by (auto simp: ring_def s)
  have "link (insert_mru b (unlink b g)) BHead (b # as @ cs) BHead"
    by (rule link_insert_mru [OF link_unlink [OF l d]]) (use d in auto)
  then show ?thesis using d s by (simp add: ring_def remove1_append)
qed

lemma ring_bufs [simp]: "ring (g\<lparr>g_buf := f\<rparr>) bs \<longleftrightarrow> ring g bs"
proof -
  have "link (g\<lparr>g_buf := f\<rparr>) x bs y = link g x bs y" for x y by (rule link_cong) simp_all
  then show ?thesis by (simp add: ring_def)
qed

text \<open>The two searches of \<^verbatim>\<open>bget\<close>.\<close>

lemma search_next: "link g x bs BHead \<Longrightarrow> search (g_next g) P (g_next g x) = Some (find P bs)"
  by (induction bs arbitrary: x) (subst search.simps; auto)+

lemma search_prev: "link g BHead bs y \<Longrightarrow> search (g_prev g) P (g_prev g y) = Some (find P (rev bs))"
proof (induction bs arbitrary: y rule: rev_induct)
  case Nil
  then show ?case by (subst search.simps) auto
next
  case (snoc b bs)
  then show ?case by (subst search.simps) (auto simp: link_append)
qed

lemma ring_searches:
  assumes "ring g bs"
  shows "search (g_next g) P (g_next g BHead) = Some (find P bs)"
    and "search (g_prev g) P (g_prev g BHead) = Some (find P (rev bs))"
  using assms search_next [of g BHead bs P] search_prev [of g bs BHead P] by (auto simp: ring_def)

section \<open>The invariant\<close>

text \<open>
  At most one buffer of a group holds a given block. Before the first use all buffers carry the same
  zeroed key, so the uniqueness is that of the first buffer on the list: any later one with its key
  is idle. A buffer is referenced exactly while it is locked, since nothing calls \<^verbatim>\<open>bpin\<close>, and a locked
  buffer holds a block of its own group (\<open>at_home\<close>), whose list \<^verbatim>\<open>brelse\<close> finds through the block number.
\<close>

definition bkey :: "buf \<Rightarrow> u32 \<times> u32" where
  "bkey x = (b_dev x, b_blockno x)"

definition idle :: "buf \<Rightarrow> bool" where
  "idle x \<longleftrightarrow> \<not> b_valid x \<and> \<not> sl_locked (b_lock x)"

definition buffer_ok :: "buf \<Rightarrow> bool" where
  "buffer_ok x \<longleftrightarrow> b_refcnt x = (if sl_locked (b_lock x) then 1 else 0)
     \<and> (b_valid x \<longrightarrow> length (b_data x) = BSIZE)"

definition first_only :: "(nat \<Rightarrow> buf) \<Rightarrow> nat list \<Rightarrow> bool" where
  "first_only f bs \<longleftrightarrow> sorted_wrt (\<lambda>b c. bkey (f b) = bkey (f c) \<longrightarrow> idle (f c)) bs"

definition group_abs :: "bgroup \<Rightarrow> nat list \<Rightarrow> bool" where
  "group_abs g bs \<longleftrightarrow> ring g bs \<and> set bs = {..<NBUF} \<and> (\<forall>b<NBUF. buffer_ok (g_buf g b))
     \<and> first_only (g_buf g) bs"

definition at_home :: "nat \<Rightarrow> bgroup \<Rightarrow> bool" where
  "at_home i g \<longleftrightarrow> (\<forall>b<NBUF. sl_locked (b_lock (g_buf g b)) \<longrightarrow> bgroup_of (b_blockno (g_buf g b)) = i)"

definition cache_abs :: "'z kbio_scheme \<Rightarrow> (nat \<Rightarrow> nat list) \<Rightarrow> bool" where
  "cache_abs s L \<longleftrightarrow> (\<forall>i<BCACHE_GROUP_NUM. group_abs (bcache s i) (L i) \<and> at_home i (bcache s i))
     \<and> (\<forall>n. length (sdcard s n) = BSIZE)"

text \<open>What a reader of a block sees.\<close>

definition cached :: "u32 \<Rightarrow> u32 \<Rightarrow> bgroup \<Rightarrow> nat option" where
  "cached dev n g = find (\<lambda>b. b_valid (g_buf g b) \<and> buf_is dev n (g_buf g b)) [0..<NBUF]"

definition block :: "'z kbio_scheme \<Rightarrow> u32 \<Rightarrow> u32 \<Rightarrow> u8 list" where
  "block s dev n = (case cached dev n (bcache s (bgroup_of n)) of
     None \<Rightarrow> sdcard s n | Some b \<Rightarrow> b_data (g_buf (bcache s (bgroup_of n)) b))"

lemma bgroup_of_less [simp]: "bgroup_of n < BCACHE_GROUP_NUM"
proof -
  have "n AND 0x3FF \<le> 0x3FF" by (rule word_and_le1)
  then show ?thesis unfolding bgroup_of_def by (simp add: word_le_nat_alt)
qed

lemma buf_is_bkey: "buf_is dev n x \<longleftrightarrow> bkey x = (dev, n)"
  by (auto simp: buf_is_def bkey_def)

lemma first_only_unique:
  assumes "first_only f bs" and "b \<in> set bs" "c \<in> set bs" "b \<noteq> c" "bkey (f b) = bkey (f c)" and "\<not> idle (f b)"
  shows "idle (f c)"
proof -
  obtain j k where j: "j < length bs" "b = bs ! j" and k: "k < length bs" "c = bs ! k"
    using assms(2,3) by (auto simp: in_set_conv_nth)
  have "j < k \<or> k < j" using assms(4) j k by (cases j k rule: linorder_cases) auto
  then show ?thesis using assms(1,5,6) j k
    by (auto simp: first_only_def sorted_wrt_iff_nth_less)
qed

lemma cached_Some:
  assumes "group_abs g bs" and "b < NBUF" "b_valid (g_buf g b)" "buf_is dev n (g_buf g b)"
  shows "cached dev n g = Some b"
proof -
  have u: "c = b" if c: "c < NBUF" "b_valid (g_buf g c)" "buf_is dev n (g_buf g c)" for c
    using first_only_unique [of "g_buf g" bs c b] assms c
    by (auto simp: group_abs_def idle_def buf_is_bkey)
  have "cached dev n g \<noteq> None" using assms(2-4) by (auto simp: cached_def find_None_iff)
  then obtain c where c: "cached dev n g = Some c" by blast
  then have "c < NBUF \<and> b_valid (g_buf g c) \<and> buf_is dev n (g_buf g c)"
    unfolding cached_def by (auto simp: find_Some_iff)
  with u c show ?thesis by auto
qed

lemma cached_None: "cached dev n g = None \<longleftrightarrow> (\<forall>b<NBUF. b_valid (g_buf g b) \<longrightarrow> \<not> buf_is dev n (g_buf g b))"
  by (auto simp: cached_def find_None_iff)

lemma cache_absD: "cache_abs s L \<Longrightarrow> i < BCACHE_GROUP_NUM \<Longrightarrow> group_abs (bcache s i) (L i)"
  by (simp add: cache_abs_def)

lemma cache_abs_home: "cache_abs s L \<Longrightarrow> i < BCACHE_GROUP_NUM \<Longrightarrow> at_home i (bcache s i)"
  by (simp add: cache_abs_def)

lemma touch_bufs [simp]: "g_buf (insert_mru b (unlink b g)) = g_buf g"
  by (simp add: insert_mru_def unlink_def Let_def)

lemma at_home_upd:
  assumes "at_home i g" and "sl_locked (b_lock (f (g_buf g b))) \<Longrightarrow> bgroup_of (b_blockno (f (g_buf g b))) = i"
  shows "at_home i (upd_buf b f g)"
  using assms by (simp add: at_home_def)

text \<open>The effect of a change to one buffer on the block it holds and on the others.\<close>

lemma block_upd:
  assumes s: "cache_abs s L" and t: "cache_abs t L'" "bcache t = (bcache s)(i := g)" "sdcard t = sdcard s"
    and g: "g_buf g = (g_buf (bcache s i))(b := x)" and b: "b < NBUF" and i: "i = bgroup_of (b_blockno x)" and v: "b_valid x"
  shows "block t dev n = (if bkey x = (dev, n) then b_data x
    else if b_valid (g_buf (bcache s i) b) \<and> bkey (g_buf (bcache s i) b) = (dev, n) \<and> bgroup_of n = i
    then sdcard s n else block s dev n)"
proof (cases "bgroup_of n = i")
  case False
  then have "bkey x \<noteq> (dev, n)" using i by (auto simp: bkey_def)
  then show ?thesis using False t by (simp add: block_def split: option.split)
next
  case True
  have gs: "group_abs (bcache s i) (L i)" using cache_absD [OF s, of i] True by auto
  have gt: "group_abs g (L' i)" using cache_absD [OF t(1), of i] True t(2) by auto
  let ?y = "g_buf (bcache s i) b"
  consider (new) "bkey x = (dev, n)" | (old) "bkey x \<noteq> (dev, n)" "b_valid ?y" "bkey ?y = (dev, n)"
    | (other) "bkey x \<noteq> (dev, n)" "b_valid ?y \<longrightarrow> bkey ?y \<noteq> (dev, n)" by blast
  then show ?thesis
  proof cases
    case new
    have "cached dev n g = Some b" by (rule cached_Some [OF gt b]) (use new v in \<open>auto simp: g buf_is_bkey\<close>)
    then show ?thesis using new True t by (simp add: block_def g)
  next
    case old
    have "\<not> buf_is dev n (g_buf g c)" if c: "c < NBUF" "b_valid (g_buf g c)" for c
    proof
      assume k: "buf_is dev n (g_buf g c)"
      then have cb: "c \<noteq> b" using old by (auto simp: g buf_is_bkey)
      then have "cached dev n (bcache s i) = Some c" using c k by (intro cached_Some [OF gs]) (auto simp: g)
      moreover have "cached dev n (bcache s i) = Some b"
        using old by (intro cached_Some [OF gs b]) (auto simp: buf_is_bkey)
      ultimately show False using cb by simp
    qed
    then have "cached dev n g = None" by (simp add: cached_None)
    then show ?thesis using old True t by (simp add: block_def)
  next
    case other
    have "cached dev n g = cached dev n (bcache s i)"
      unfolding cached_def by (rule find_cong) (use other in \<open>auto simp: g buf_is_bkey\<close>)
    moreover have "g_buf g c = g_buf (bcache s i) c" if "cached dev n (bcache s i) = Some c" for c
      using that other unfolding cached_def by (auto simp: g find_Some_iff buf_is_bkey)
    ultimately show ?thesis using other True t by (auto simp: block_def split: option.splits)
  qed
qed

lemma length_block: "cache_abs s L \<Longrightarrow> length (block s dev n) = BSIZE"
  using cache_absD [of s L "bgroup_of n"]
  by (auto simp: block_def cached_def find_Some_iff cache_abs_def group_abs_def buffer_ok_def split: option.split)

section \<open>Reading\<close>

text \<open>The buffer \<^verbatim>\<open>bget\<close> settles on, and what \<^verbatim>\<open>bread\<close> makes of it.\<close>

definition pick :: "u32 \<Rightarrow> u32 \<Rightarrow> bgroup \<Rightarrow> nat list \<Rightarrow> nat option" where
  "pick dev n g bs = (case find (\<lambda>b. buf_is dev n (g_buf g b)) bs of
     Some b \<Rightarrow> Some b | None \<Rightarrow> find (\<lambda>b. b_refcnt (g_buf g b) = 0) (rev bs))"

definition loaded :: "u32 \<Rightarrow> u32 \<Rightarrow> u32 \<Rightarrow> u8 list \<Rightarrow> buf \<Rightarrow> buf" where
  "loaded dev n tid disk x = x\<lparr>b_dev := dev, b_blockno := n, b_refcnt := 1, b_lock := \<lparr>sl_locked = True, sl_tid = tid\<rparr>,
     b_data := (if buf_is dev n x \<and> b_valid x then b_data x else disk), b_valid := True\<rparr>"

lemma find_in_set: "find P xs = Some x \<Longrightarrow> x \<in> set xs \<and> P x"
  by (auto simp: find_Some_iff)

lemma pick_cases:
  assumes "pick dev n g bs = Some b"
  obtains (hit) "find (\<lambda>b. buf_is dev n (g_buf g b)) bs = Some b" "b \<in> set bs" "buf_is dev n (g_buf g b)"
  | (miss) "find (\<lambda>b. buf_is dev n (g_buf g b)) bs = None" "find (\<lambda>b. b_refcnt (g_buf g b) = 0) (rev bs) = Some b" "b \<in> set bs"
      "\<And>c. c \<in> set bs \<Longrightarrow> \<not> buf_is dev n (g_buf g c)"
proof (cases "find (\<lambda>b. buf_is dev n (g_buf g b)) bs")
  case None
  then have f: "find (\<lambda>b. b_refcnt (g_buf g b) = 0) (rev bs) = Some b" using assms by (simp add: pick_def)
  show thesis by (rule miss [OF None f]) (use None find_in_set [OF f] in \<open>auto simp: find_None_iff\<close>)
next
  case (Some c)
  then have "c = b" using assms by (simp add: pick_def)
  with Some show thesis using find_in_set [OF Some] by (intro hit) simp_all
qed

lemma loaded_hit:
  "buf_is dev n x \<Longrightarrow> loaded dev n tid disk x
     = (if b_valid x then x\<lparr>b_refcnt := 1, b_lock := (b_lock x)\<lparr>sl_locked := True, sl_tid := tid\<rparr>\<rparr>
        else x\<lparr>b_refcnt := 1, b_lock := (b_lock x)\<lparr>sl_locked := True, sl_tid := tid\<rparr>, b_data := disk, b_valid := True\<rparr>)"
  by (cases x) (simp add: loaded_def buf_is_def)

lemma loaded_miss:
  "\<not> buf_is dev n x \<Longrightarrow> loaded dev n tid disk x
     = x\<lparr>b_dev := dev, b_blockno := n, b_refcnt := 1, b_lock := (b_lock x)\<lparr>sl_locked := True, sl_tid := tid\<rparr>, b_data := disk, b_valid := True\<rparr>"
  by (cases x) (auto simp: loaded_def)

lemma bread_eq:
  assumes g: "group_abs (bcache s (bgroup_of n)) bs" and th: "currentThread s = Some th" and d: "0 \<le> sint dev"
    and b: "pick dev n (bcache s (bgroup_of n)) bs = Some b"
    and u: "\<not> sl_locked (b_lock (g_buf (bcache s (bgroup_of n)) b))"
  shows "bread dev n s = Some ((bgroup_of n, b),
    upd_group (bgroup_of n) (upd_buf b (loaded dev n (th_id (threads s th)) (sdcard s n))) s)"
  using b
proof (cases rule: pick_cases)
  have r: "ring (bcache s (bgroup_of n)) bs" using g by (simp add: group_abs_def)
  note run = bread_def bget_def Let_def ring_searches [OF r] acquiresleep_def myThread_def th d u
  {
    case hit
    then have "b_refcnt (g_buf (bcache s (bgroup_of n)) b) = 0" using g u by (simp add: group_abs_def buffer_ok_def)
    moreover have "b_blockno (g_buf (bcache s (bgroup_of n)) b) = n" using hit(3) by (simp add: buf_is_def)
    ultimately show ?thesis using hit(1,3) by (simp add: run loaded_hit)
  next
    case miss
    then show ?thesis using miss(4) [OF miss(3)] by (simp add: run loaded_miss)
  }
qed

lemma bkey_loaded [simp]: "bkey (loaded dev n tid disk x) = (dev, n)"
  by (simp add: loaded_def bkey_def)

lemma first_only_loaded:
  assumes f: "first_only (g_buf g) bs" and d: "distinct bs" and b: "pick dev n g bs = Some b"
    and x: "bkey x = (dev, n)"
  shows "first_only ((g_buf g)(b := x)) bs"
  unfolding first_only_def sorted_wrt_iff_nth_less
proof (intro allI impI)
  fix j k
  assume jk: "j < k" "k < length bs" and eq: "bkey (((g_buf g)(b := x)) (bs ! j)) = bkey (((g_buf g)(b := x)) (bs ! k))"
  have old: "bkey (g_buf g (bs ! j)) = bkey (g_buf g (bs ! k)) \<Longrightarrow> idle (g_buf g (bs ! k))"
    using f jk by (simp add: first_only_def sorted_wrt_iff_nth_less)
  have ne: "bs ! j \<noteq> bs ! k" using d jk by (simp add: nth_eq_iff_index_eq)
  show "idle (((g_buf g)(b := x)) (bs ! k))"
    using b
  proof (cases rule: pick_cases)
    case hit
    then obtain i where i: "i < length bs" "b = bs ! i" "\<And>l. l < i \<Longrightarrow> bkey (g_buf g (bs ! l)) \<noteq> (dev, n)"
      by (auto simp: find_Some_iff buf_is_bkey)
    have "bkey (g_buf g b) = (dev, n)" using hit by (simp add: buf_is_bkey)
    moreover have "bs ! k \<noteq> b"
    proof
      assume "bs ! k = b"
      then have "k = i" using d jk i by (simp add: nth_eq_iff_index_eq)
      with i(3) [of j] jk eq ne \<open>bs ! k = b\<close> x show False by simp
    qed
    ultimately show ?thesis using old eq ne x by (auto split: if_splits)
  next
    case miss
    have "bkey (g_buf g c) \<noteq> (dev, n)" if "c \<in> set bs" for c using miss(4) [OF that] by (simp add: buf_is_bkey)
    then have "bkey (g_buf g (bs ! j)) \<noteq> (dev, n)" "bkey (g_buf g (bs ! k)) \<noteq> (dev, n)" using jk by simp_all
    then show ?thesis using old eq ne x by (auto split: if_splits)
  qed
qed

lemma group_abs_loaded:
  assumes g: "group_abs g bs" and b: "pick dev n g bs = Some b" and len: "length disk = BSIZE"
  shows "group_abs (upd_buf b (loaded dev n tid disk) g) bs"
proof -
  have "first_only ((g_buf g)(b := loaded dev n tid disk (g_buf g b))) bs"
    by (rule first_only_loaded [OF _ _ b]) (use g in \<open>auto simp: group_abs_def ring_def\<close>)
  moreover have "buffer_ok (loaded dev n tid disk x)" if "buffer_ok x" for x
    using that len by (simp add: buffer_ok_def loaded_def)
  ultimately show ?thesis using g by (simp add: group_abs_def)
qed

lemma cache_abs_upd:
  assumes "cache_abs s L" and "i < BCACHE_GROUP_NUM \<Longrightarrow> group_abs (f (bcache s i)) bs"
    and "i < BCACHE_GROUP_NUM \<Longrightarrow> at_home i (f (bcache s i))"
  shows "cache_abs (upd_group i f s) (L(i := bs))"
  using assms by (simp add: cache_abs_def)

text \<open>A read finds a buffer unless the block is locked already or all buffers of the group are.\<close>

definition readable :: "u32 \<Rightarrow> u32 \<Rightarrow> 'z kbio_scheme \<Rightarrow> bool" where
  "readable dev n s \<longleftrightarrow> (\<forall>b<NBUF. buf_is dev n (g_buf (bcache s (bgroup_of n)) b) \<longrightarrow> \<not> sl_locked (b_lock (g_buf (bcache s (bgroup_of n)) b)))
     \<and> (\<exists>b<NBUF. \<not> sl_locked (b_lock (g_buf (bcache s (bgroup_of n)) b)))"

lemma readable_pick:
  assumes g: "group_abs (bcache s (bgroup_of n)) bs" and r: "readable dev n s"
  obtains b where "pick dev n (bcache s (bgroup_of n)) bs = Some b" "b < NBUF"
    "\<not> sl_locked (b_lock (g_buf (bcache s (bgroup_of n)) b))"
proof -
  let ?g = "bcache s (bgroup_of n)"
  have bs: "set bs = {..<NBUF}" and ok: "\<And>b. b < NBUF \<Longrightarrow> b_refcnt (g_buf ?g b) = 0 \<longleftrightarrow> \<not> sl_locked (b_lock (g_buf ?g b))"
    using g by (auto simp: group_abs_def buffer_ok_def)
  have "pick dev n ?g bs \<noteq> None"
  proof
    assume "pick dev n ?g bs = None"
    then have "find (\<lambda>b. b_refcnt (g_buf ?g b) = 0) (rev bs) = None" by (simp add: pick_def split: option.splits)
    then show False using r bs ok by (auto simp: find_None_iff readable_def)
  qed
  then obtain b where b: "pick dev n ?g bs = Some b" by blast
  then show thesis
  proof (cases rule: pick_cases)
    case hit
    then show thesis using that [OF b] bs r by (auto simp: readable_def)
  next
    case miss
    then show thesis using that [OF b] bs ok find_in_set [OF miss(2)] by auto
  qed
qed

text \<open>The run of \<^verbatim>\<open>bread\<close> on a well-formed cache.\<close>

lemma bread_run:
  assumes s: "cache_abs s L" and r: "readable dev n s" and th: "currentThread s = Some th" and d: "0 \<le> sint dev"
  obtains b where "pick dev n (bcache s (bgroup_of n)) (L (bgroup_of n)) = Some b" "b < NBUF"
    "bread dev n s = Some ((bgroup_of n, b),
       upd_group (bgroup_of n) (upd_buf b (loaded dev n (th_id (threads s th)) (sdcard s n))) s)"
    "cache_abs (upd_group (bgroup_of n) (upd_buf b (loaded dev n (th_id (threads s th)) (sdcard s n))) s) L"
proof -
  let ?g = "bcache s (bgroup_of n)"
  have g: "group_abs ?g (L (bgroup_of n))" using cache_absD [OF s] by simp
  obtain b where b: "pick dev n ?g (L (bgroup_of n)) = Some b" "b < NBUF" "\<not> sl_locked (b_lock (g_buf ?g b))"
    by (rule readable_pick [OF g r])
  have "length (sdcard s n) = BSIZE" using s by (simp add: cache_abs_def)
  note ga = group_abs_loaded [OF g b(1) this, of "th_id (threads s th)"]
  have "at_home (bgroup_of n) (upd_buf b (loaded dev n (th_id (threads s th)) (sdcard s n)) ?g)"
    by (rule at_home_upd) (use cache_abs_home [OF s] in \<open>simp_all add: loaded_def\<close>)
  then have "cache_abs (upd_group (bgroup_of n) (upd_buf b (loaded dev n (th_id (threads s th)) (sdcard s n))) s)
      (L(bgroup_of n := L (bgroup_of n)))"
    by (intro cache_abs_upd [OF s, where f = "upd_buf b (loaded dev n (th_id (threads s th)) (sdcard s n))", OF ga])
  then show thesis using that [OF b(1,2) bread_eq [OF g th d b(1,3)]] by simp
qed

section \<open>Changing the data of a buffer\<close>

text \<open>A holder of a buffer writes to its data, with as many bytes as before.\<close>

lemma group_abs_data:
  assumes g: "group_abs g bs" and len: "length (f (b_data (g_buf g b))) = length (b_data (g_buf g b))"
  shows "group_abs (upd_buf b (\<lambda>x. x\<lparr>b_data := f (b_data x)\<rparr>) g) bs"
proof -
  have "first_only ((g_buf g)(b := x)) bs" if "bkey x = bkey (g_buf g b)" "idle x = idle (g_buf g b)" for x
    using g that by (auto simp: group_abs_def first_only_def elim!: sorted_wrt_mono_rel [rotated] split: if_splits)
  moreover have "bkey (x\<lparr>b_data := v\<rparr>) = bkey x" "idle (x\<lparr>b_data := v\<rparr>) = idle x" for x v
    by (simp_all add: bkey_def idle_def)
  ultimately show ?thesis using g len by (auto simp: group_abs_def buffer_ok_def)
qed

lemma cache_abs_data:
  assumes "cache_abs s L" and "length (f (buf_data h s)) = length (buf_data h s)"
  shows "cache_abs (upd_data h f s) L"
proof -
  have "cache_abs (upd_data h f s) (L(fst h := L (fst h)))"
    by (rule cache_abs_upd [OF assms(1), where f = "upd_buf (snd h) (\<lambda>x. x\<lparr>b_data := f (b_data x)\<rparr>)"])
      (rule group_abs_data [OF cache_absD [OF assms(1)]] at_home_upd [OF cache_abs_home [OF assms(1)]],
        use assms(2) cache_abs_home [OF assms(1)] in \<open>auto simp: at_home_def\<close>)+
  then show ?thesis by simp
qed

lemma block_data:
  assumes s: "cache_abs s L" and len: "length (f (buf_data (i, b) s)) = length (buf_data (i, b) s)"
    and b: "b < NBUF" and i: "i = bgroup_of (b_blockno (the_buf (i, b) s))" and v: "b_valid (the_buf (i, b) s)"
  shows "block (upd_data (i, b) f s) dev n
    = (if bkey (the_buf (i, b) s) = (dev, n) then f (block s dev n) else block s dev n)"
proof -
  have t: "cache_abs (upd_data (i, b) f s) L" by (rule cache_abs_data [OF s, of f "(i, b)", OF len])
  have "block s dev n = buf_data (i, b) s" if "bkey (the_buf (i, b) s) = (dev, n)"
  proof -
    have n: "bgroup_of n = i" using that i by (simp add: bkey_def)
    then have "cached dev n (bcache s i) = Some b"
      using that v b by (intro cached_Some [OF cache_absD [OF s]]) (auto simp: buf_is_bkey)
    then show ?thesis by (simp add: block_def n)
  qed
  moreover have "block (upd_data (i, b) f s) dev n = (if bkey (the_buf (i, b) s) = (dev, n) then f (buf_data (i, b) s)
    else if b_valid (g_buf (bcache s i) b) \<and> bkey (g_buf (bcache s i) b) = (dev, n) \<and> bgroup_of n = i
    then sdcard s n else block s dev n)"
    using block_upd [OF s t, where i = i and b = b and x = "(the_buf (i, b) s)\<lparr>b_data := f (buf_data (i, b) s)\<rparr>" and dev = dev and n = n] b i v
    by (simp add: bkey_def)
  ultimately show ?thesis using v by simp
qed

section \<open>Releasing\<close>

lemma group_abs_release:
  assumes g: "group_abs g bs" and b: "b < NBUF" and l: "sl_locked (b_lock (g_buf g b))"
  shows "group_abs (insert_mru b (unlink b (upd_buf b (\<lambda>x. x\<lparr>b_lock := \<lparr>sl_locked = False, sl_tid = 0\<rparr>, b_refcnt := 0\<rparr>) g))) (b # remove1 b bs)"
proof -
  let ?x = "(g_buf g b)\<lparr>b_lock := \<lparr>sl_locked = False, sl_tid = 0\<rparr>, b_refcnt := 0\<rparr>"
  let ?g = "g\<lparr>g_buf := (g_buf g)(b := ?x)\<rparr>"
  have bufs: "g_buf (insert_mru b (unlink b h)) = g_buf h" for h by (simp add: insert_mru_def unlink_def Let_def)
  have d: "distinct bs" and bs: "set bs = {..<NBUF}" and f: "first_only (g_buf g) bs" and r: "ring g bs" and ok: "\<forall>c<NBUF. buffer_ok (g_buf g c)"
    using g by (auto simp: group_abs_def ring_def)
  have k: "bkey ?x = bkey (g_buf g b)" by (simp add: bkey_def)
  have "ring (insert_mru b (unlink b ?g)) (b # remove1 b bs)" by (rule ring_touch) (use r b bs in simp_all)
  moreover have "set (b # remove1 b bs) = {..<NBUF}" using d bs b by auto
  moreover have "buffer_ok ?x" using ok b by (auto simp: buffer_ok_def)
  moreover have "first_only ((g_buf g)(b := ?x)) (b # remove1 b bs)"
  proof -
    have "sorted_wrt (\<lambda>b c. bkey (g_buf g b) = bkey (g_buf g c) \<longrightarrow> idle (g_buf g c)) (remove1 b bs)"
      using f d by (simp add: first_only_def distinct_remove1_removeAll removeAll_filter_not_eq sorted_wrt_filter)
    then have "sorted_wrt (\<lambda>c e. bkey (((g_buf g)(b := ?x)) c) = bkey (((g_buf g)(b := ?x)) e) \<longrightarrow> idle (((g_buf g)(b := ?x)) e)) (remove1 b bs)"
      by (rule sorted_wrt_mono_rel [rotated]) (use d in auto)
    moreover have "idle (g_buf g c)" if "c \<in> set bs" "c \<noteq> b" "bkey (g_buf g b) = bkey (g_buf g c)" for c
      using first_only_unique [OF f, of b c] that b bs l by (auto simp: idle_def)
    ultimately show ?thesis using d k by (auto simp: first_only_def)
  qed
  ultimately show ?thesis using ok by (simp add: group_abs_def bufs)
qed

lemma block_cong:
  assumes "sdcard t = sdcard s"
    and "\<And>i b. b < NBUF \<Longrightarrow> bkey (g_buf (bcache t i) b) = bkey (g_buf (bcache s i) b)
       \<and> b_valid (g_buf (bcache t i) b) = b_valid (g_buf (bcache s i) b) \<and> b_data (g_buf (bcache t i) b) = b_data (g_buf (bcache s i) b)"
  shows "block t dev n = block s dev n"
proof -
  have "cached dev n (bcache t i) = cached dev n (bcache s i)" for i
    unfolding cached_def using assms(2) by (intro find_cong) (auto simp: buf_is_bkey)
  moreover have "b < NBUF" if "cached dev n (bcache s i) = Some b" for b i
    using that unfolding cached_def by (auto simp: find_Some_iff)
  ultimately show ?thesis using assms by (auto simp: block_def split: option.split)
qed

text \<open>The state after the release of a buffer.\<close>

definition released :: "nat \<Rightarrow> nat \<Rightarrow> nat set \<Rightarrow> 'z kbio_scheme \<Rightarrow> 'z kbio_scheme" where
  "released i b T s = upd_group i (\<lambda>g. insert_mru b (unlink b (upd_buf b (\<lambda>x. x\<lparr>b_lock := \<lparr>sl_locked = False, sl_tid = 0\<rparr>, b_refcnt := 0\<rparr>) g)))
     (s\<lparr>threads := woken (ChanBuf i b) T (threads s)\<rparr>)"

lemma released_bufs:
  "g_buf (bcache (released i b T s) j) c = (if j = i \<and> c = b
     then (g_buf (bcache s i) b)\<lparr>b_lock := \<lparr>sl_locked = False, sl_tid = 0\<rparr>, b_refcnt := 0\<rparr> else g_buf (bcache s j) c)"
  by (simp add: released_def insert_mru_def unlink_def Let_def)

lemma released_frame [simp]:
  "sdcard (released i b T s) = sdcard s" "currentThread (released i b T s) = currentThread s"
  "thread_links (released i b T s) = thread_links s"
  "th_id (threads (released i b T s) th) = th_id (threads s th)"
  by (simp_all add: released_def woken_def)

lemma block_released [simp]: "block (released i b T s) dev n = block s dev n"
  by (rule block_cong) (auto simp: released_bufs bkey_def)

lemma sleeplock_upd: "(l :: Sleeplock)\<lparr>sl_locked := a, sl_tid := t\<rparr> = \<lparr>sl_locked = a, sl_tid = t\<rparr>"
  by (cases l) simp

lemma brelse_run:
  assumes s: "cache_abs s L" and th: "currentThread s = Some th" and T: "lists_abs (thread_links s) T"
    and i: "i < BCACHE_GROUP_NUM" and b: "b < NBUF" and l: "sl_locked (b_lock (the_buf (i, b) s))" "sl_tid (b_lock (the_buf (i, b) s)) = th_id (threads s th)"
  shows "brelse (i, b) s = Some (released i b (set (T Used)) s)"
    and "cache_abs (released i b (set (T Used)) s) (L(i := b # remove1 b (L i)))"
proof -
  have g: "group_abs (bcache s i) (L i)" using cache_absD [OF s i] .
  have lk: "sl_locked (b_lock (g_buf (bcache s i) b))" using l(1) by simp
  have "b_refcnt (the_buf (i, b) s) = 1" using g b l by (simp add: group_abs_def buffer_ok_def)
  moreover have "bgroup_of (b_blockno (the_buf (i, b) s)) = i" using cache_abs_home [OF s i] b l by (simp add: at_home_def)
  ultimately show "brelse (i, b) s = Some (released i b (set (T Used)) s)"
    using th l by (simp add: brelse_def holdingsleep_def myThread_def releasesleep_def wakeup_eq [OF T] Let_def released_def sleeplock_upd)
  show "cache_abs (released i b (set (T Used)) s) (L(i := b # remove1 b (L i)))"
    unfolding released_def
  proof (rule cache_abs_upd)
    let ?f = "\<lambda>g. insert_mru b (unlink b (upd_buf b (\<lambda>x. x\<lparr>b_lock := \<lparr>sl_locked = False, sl_tid = 0\<rparr>, b_refcnt := 0\<rparr>) g))"
    let ?s = "s\<lparr>threads := woken (ChanBuf i b) (set (T Used)) (threads s)\<rparr>"
    show "cache_abs ?s L" using s by (simp add: cache_abs_def)
    have "bcache ?s i = bcache s i" by simp
    then show "group_abs (?f (bcache ?s i)) (b # remove1 b (L i))" by (simp only: group_abs_release [OF g b lk])
    show "at_home i (?f (bcache ?s i))" using cache_abs_home [OF s i] by (simp add: at_home_def)
  qed
qed

section \<open>Properties\<close>

text \<open>The first buffer on the list with the key is the only one that can hold the block.\<close>

lemma pick_valid:
  assumes g: "group_abs g bs" and b: "pick dev n g bs = Some b"
    and c: "c < NBUF" "b_valid (g_buf g c)" "buf_is dev n (g_buf g c)"
  shows "c = b"
  using b
proof (cases rule: pick_cases)
  case hit
  obtain j where j: "j < length bs" "b = bs ! j" "\<And>l. l < j \<Longrightarrow> \<not> buf_is dev n (g_buf g (bs ! l))"
    using hit(1) by (auto simp: find_Some_iff)
  have "c \<in> set bs" using g c(1) by (simp add: group_abs_def)
  then obtain l where l: "l < length bs" "c = bs ! l" by (auto simp: in_set_conv_nth)
  show ?thesis
  proof (rule ccontr)
    assume "c \<noteq> b"
    then have "j < l" using j l c(3) by (cases j l rule: linorder_cases) auto
    then have "idle (g_buf g c)"
      using g j(2) l c(3) hit(3) by (simp add: group_abs_def first_only_def sorted_wrt_iff_nth_less buf_is_bkey)
    then show False using c(2) by (simp add: idle_def)
  qed
next
  case miss
  then show ?thesis using c g by (auto simp: group_abs_def)
qed

lemma loaded_data:
  assumes g: "group_abs (bcache s (bgroup_of n)) bs" and b: "pick dev n (bcache s (bgroup_of n)) bs = Some b" "b < NBUF"
  shows "b_data (loaded dev n tid (sdcard s n) (g_buf (bcache s (bgroup_of n)) b)) = block s dev n"
proof (cases "buf_is dev n (g_buf (bcache s (bgroup_of n)) b) \<and> b_valid (g_buf (bcache s (bgroup_of n)) b)")
  case True
  then have "cached dev n (bcache s (bgroup_of n)) = Some b" using b(2) by (intro cached_Some [OF g]) auto
  then show ?thesis using True by (simp add: block_def loaded_def)
next
  case False
  then have "cached dev n (bcache s (bgroup_of n)) = None"
    unfolding cached_None using pick_valid [OF g b(1)] by blast
  then show ?thesis using False by (auto simp: block_def loaded_def)
qed

lemma block_loaded:
  assumes s: "cache_abs s L" and b: "pick dev n (bcache s (bgroup_of n)) (L (bgroup_of n)) = Some b" "b < NBUF"
    and t: "cache_abs (upd_group (bgroup_of n) (upd_buf b (loaded dev n tid (sdcard s n))) s) L"
  shows "block (upd_group (bgroup_of n) (upd_buf b (loaded dev n tid (sdcard s n))) s) d m
    = (if (d, m) \<noteq> (dev, n) \<and> b_valid (the_buf (bgroup_of n, b) s) \<and> bkey (the_buf (bgroup_of n, b) s) = (d, m) \<and> bgroup_of m = bgroup_of n
       then sdcard s m else block s d m)"
proof -
  let ?x = "loaded dev n tid (sdcard s n) (the_buf (bgroup_of n, b) s)"
  have x: "bgroup_of n = bgroup_of (b_blockno ?x)" "b_valid ?x" by (simp_all add: loaded_def)
  have data: "b_data ?x = block s dev n" using loaded_data [OF cache_absD [OF s] b] by simp
  have "block (upd_group (bgroup_of n) (upd_buf b (loaded dev n tid (sdcard s n))) s) d m
    = (if bkey ?x = (d, m) then b_data ?x
       else if b_valid (g_buf (bcache s (bgroup_of n)) b) \<and> bkey (g_buf (bcache s (bgroup_of n)) b) = (d, m) \<and> bgroup_of m = bgroup_of n
       then sdcard s m else block s d m)"
    by (rule block_upd [OF s t, where g = "upd_buf b (loaded dev n tid (sdcard s n)) (bcache s (bgroup_of n))"])
      (use b(2) x in simp_all)
  then show ?thesis unfolding bkey_loaded data by (cases "(d, m) = (dev, n)") (simp_all only: if_True if_False fst_conv snd_conv, auto)
qed

lemma bread_result:
  assumes s: "cache_abs s L" and r: "readable dev n s" and th: "currentThread s = Some th" and d: "0 \<le> sint dev"
  obtains b s' where "pick dev n (bcache s (bgroup_of n)) (L (bgroup_of n)) = Some b" "b < NBUF"
    "bread dev n s = Some ((bgroup_of n, b), s')" "cache_abs s' L" "s' = s\<lparr>bcache := bcache s'\<rparr>"
    "the_buf (bgroup_of n, b) s' = loaded dev n (th_id (threads s th)) (sdcard s n) (the_buf (bgroup_of n, b) s)"
    "\<And>j c. (j, c) \<noteq> (bgroup_of n, b) \<Longrightarrow> the_buf (j, c) s' = the_buf (j, c) s"
    "buf_data (bgroup_of n, b) s' = block s dev n"
    "\<And>d m. block s' d m = (if (d, m) \<noteq> (dev, n) \<and> b_valid (the_buf (bgroup_of n, b) s)
         \<and> bkey (the_buf (bgroup_of n, b) s) = (d, m) \<and> bgroup_of m = bgroup_of n then sdcard s m else block s d m)"
proof -
  let ?t = "\<lambda>b. upd_group (bgroup_of n) (upd_buf b (loaded dev n (th_id (threads s th)) (sdcard s n))) s"
  obtain b where b: "pick dev n (bcache s (bgroup_of n)) (L (bgroup_of n)) = Some b" "b < NBUF"
    and run: "bread dev n s = Some ((bgroup_of n, b), ?t b)" and t: "cache_abs (?t b) L"
    by (rule bread_run [OF s r th d])
  have data: "b_data (loaded dev n (th_id (threads s th)) (sdcard s n) (the_buf (bgroup_of n, b) s)) = block s dev n"
    using loaded_data [OF cache_absD [OF s] b] by simp
  show thesis
    by (rule that [OF b run t _ _ _ _ block_loaded [OF s b t]]) (simp_all add: data [simplified])
qed

lemma bread_gives:
  assumes "cache_abs s L" "readable dev n s" "currentThread s = Some th" "0 \<le> sint dev"
  shows "\<exists>b s'. bread dev n s = Some ((bgroup_of n, b), s') \<and> buf_data (bgroup_of n, b) s' = block s dev n"
  by (rule bread_result [OF assms]) blast

text \<open>Initialisation builds the list of each group, the last buffer first.\<close>

lemma binit_bufs:
  "g_buf (binit_group g) b = (if b < NBUF then (g_buf g b)\<lparr>b_lock := initsleeplock (b_lock (g_buf g b))\<rparr> else g_buf g b)"
proof -
  have "g_buf (fold (\<lambda>b g. insert_mru b (upd_buf b (\<lambda>x. x\<lparr>b_lock := initsleeplock (b_lock x)\<rparr>) g)) [0..<k] h) b
      = (if b < k then (g_buf h b)\<lparr>b_lock := initsleeplock (b_lock (g_buf h b))\<rparr> else g_buf h b)" for k h
    by (induction k) (auto simp: insert_mru_def Let_def)
  then show ?thesis by (simp add: binit_group_def Let_def)
qed

lemma binit_ring: "ring (binit_group g) (rev [0..<NBUF])"
proof -
  let ?f = "\<lambda>b g. insert_mru b (upd_buf b (\<lambda>x. x\<lparr>b_lock := initsleeplock (b_lock x)\<rparr>) g)"
  have "ring (fold ?f [0..<k] h) (rev [0..<k])" if "ring h []" for k h
  proof (induction k)
    case (Suc k)
    have "ring (insert_mru k g') (k # rev [0..<k])" if "ring g' (rev [0..<k])" for g'
      using link_insert_mru [of g' "rev [0..<k]" k] that by (simp add: ring_def)
    with Suc show ?case by simp
  qed (use that in simp)
  then show ?thesis unfolding binit_group_def Let_def by (simp add: ring_def)
qed

lemma binit_group_abs:
  assumes "\<And>b. b < NBUF \<Longrightarrow> \<not> b_valid (g_buf g b) \<and> b_refcnt (g_buf g b) = 0"
  shows "group_abs (binit_group g) (rev [0..<NBUF])"
proof -
  have i: "idle (g_buf (binit_group g) b) \<and> buffer_ok (g_buf (binit_group g) b)" if "b < NBUF" for b
    using assms that by (simp add: binit_bufs idle_def buffer_ok_def initsleeplock_def)
  then have "first_only (g_buf (binit_group g)) (rev [0..<NBUF])"
    unfolding first_only_def by (intro sorted_wrt_iff_nth_less [THEN iffD2]) (simp add: rev_nth)
  then show ?thesis using i binit_ring by (auto simp: group_abs_def)
qed

lemma binit_eq: "binit s = s\<lparr>bcache := \<lambda>i. if i < BCACHE_GROUP_NUM then binit_group (bcache s i) else bcache s i\<rparr>"
proof -
  have "fold (\<lambda>i. upd_group i f) [0..<k] s = s\<lparr>bcache := \<lambda>i. if i < k then f (bcache s i) else bcache s i\<rparr>" for k f
  proof (induction k)
    case (Suc k)
    have "(\<lambda>i. if i < k then f (bcache s i) else bcache s i)(k := f (bcache s k))
        = (\<lambda>i. if i < Suc k then f (bcache s i) else bcache s i)" by (auto simp: fun_eq_iff less_Suc_eq)
    then show ?case unfolding upt_Suc_append [OF le0] fold_append fold.simps comp_def id_def Suc by simp
  qed simp
  then show ?thesis unfolding binit_def by blast
qed

lemma binit_abs:
  assumes "\<And>i b. i < BCACHE_GROUP_NUM \<Longrightarrow> b < NBUF \<Longrightarrow> \<not> b_valid (the_buf (i, b) s) \<and> b_refcnt (the_buf (i, b) s) = 0"
    and "\<And>n. length (sdcard s n) = BSIZE"
  shows "cache_abs (binit s) (\<lambda>_. rev [0..<NBUF])"
proof -
  have "group_abs (binit_group (bcache s i)) (rev [0..<NBUF])" if "i < BCACHE_GROUP_NUM" for i
    using assms(1) [OF that] by (intro binit_group_abs) simp
  moreover have "at_home i (binit_group g)" for i g by (simp add: at_home_def binit_bufs initsleeplock_def)
  ultimately show ?thesis using assms(2) by (simp add: cache_abs_def binit_eq)
qed

text \<open>Zeroed memory and a zeroed card.\<close>

definition zero_kbio :: kbio where
  "zero_kbio = kpipe.extend zero_kpipe (kbio.fields (\<lambda>_. \<lparr>g_buf = (\<lambda>_. \<lparr>b_valid = False, b_dev = 0, b_blockno = 0,
     b_lock = zero_sleeplock, b_refcnt = 0, b_data = replicate BSIZE 0\<rparr>), g_next = (\<lambda>_. BHead), g_prev = (\<lambda>_. BHead)\<rparr>)
     (\<lambda>_. replicate BSIZE 0))"

definition fresh_cache :: kbio where
  "fresh_cache = binit (zero_kbio\<lparr>currentThread := Some 0\<rparr>)"

lemma zero_kbio_sel [simp]:
  "thread_links zero_kbio = zero_lists" "threads zero_kbio = (\<lambda>_. zero_thread)" "sdcard zero_kbio = (\<lambda>_. replicate BSIZE 0)"
  "g_buf (bcache zero_kbio i) = (\<lambda>_. \<lparr>b_valid = False, b_dev = 0, b_blockno = 0, b_lock = zero_sleeplock, b_refcnt = 0,
     b_data = replicate BSIZE 0\<rparr>)"
  by (simp_all add: zero_kbio_def zero_kpipe_def zero_kmem_def zero_kproc_def kproc.defs kmem.defs kpipe.defs kbio.defs)

lemma fresh_cache_sel [simp]:
  "thread_links fresh_cache = zero_lists" "threads fresh_cache = (\<lambda>_. zero_thread)" "sdcard fresh_cache = (\<lambda>_. replicate BSIZE 0)"
  "currentThread fresh_cache = Some 0"
  "b < NBUF \<Longrightarrow> i < BCACHE_GROUP_NUM \<Longrightarrow> g_buf (bcache fresh_cache i) b = \<lparr>b_valid = False, b_dev = 0, b_blockno = 0,
     b_lock = zero_sleeplock, b_refcnt = 0, b_data = replicate BSIZE 0\<rparr>"
  by (simp_all add: fresh_cache_def binit_eq binit_bufs initsleeplock_def zero_sleeplock_def)

lemma fresh_cache_abs: "cache_abs fresh_cache (\<lambda>_. rev [0..<NBUF])"
  unfolding fresh_cache_def by (rule binit_abs) simp_all

lemma fresh_cache_readable: "readable dev n fresh_cache"
  using bgroup_of_less [of n] by (auto simp: readable_def zero_sleeplock_def intro!: exI [of _ 0])

text \<open>
  C14: \<^verbatim>\<open>binit\<close> on zeroed buffers builds a well-formed cache: in each of the 1024 groups the sixteen buffers
  are on the circular list once each, none is valid or held, and every block reads as the card has it.
\<close>

theorem binit_wellformed:
  assumes "\<forall>i b. i < BCACHE_GROUP_NUM \<and> b < NBUF \<longrightarrow> \<not> b_valid (the_buf (i, b) s) \<and> b_refcnt (the_buf (i, b) s) = 0"
    and "\<forall>n. length (sdcard s n) = BSIZE"
  shows "cache_abs (binit s) (\<lambda>_. rev [0..<NBUF]) \<and> binit s = s\<lparr>bcache := bcache (binit s)\<rparr>
    \<and> (\<forall>dev n. block (binit s) dev n = sdcard s n)"
proof -
  have "cache_abs (binit s) (\<lambda>_. rev [0..<NBUF])" by (rule binit_abs) (use assms in auto)
  moreover have "cached dev n (bcache (binit s) (bgroup_of n)) = None" for dev n
    using assms(1) by (simp add: cached_None binit_eq binit_bufs)
  ultimately show ?thesis by (auto simp: block_def binit_eq)
qed

theorem binit_wellformed_witness: "block (binit zero_kbio) 0 7 = replicate BSIZE 0"
  using binit_wellformed [of zero_kbio] by simp

text \<open>
  C10: \<^verbatim>\<open>bread\<close> on a well-formed cache comes back with a valid, locked buffer of the requested block whose
  data is what a reader of the block should see: the cached copy, or the card's. It takes the buffer
  that holds the block, or else the least recently used one nobody holds. The order of use does not
  change, the invariant is kept, and so is every other block except the one whose buffer was
  recycled, which is back to what the card has.
\<close>

theorem bread_refines:
  assumes "cache_abs s L" and "readable dev n s" and "currentThread s = Some th" and "0 \<le> sint dev"
  shows "\<exists>b s'. bread dev n s = Some ((bgroup_of n, b), s') \<and> cache_abs s' L \<and> s' = s\<lparr>bcache := bcache s'\<rparr>
    \<and> pick dev n (bcache s (bgroup_of n)) (L (bgroup_of n)) = Some b
    \<and> b_valid (the_buf (bgroup_of n, b) s') \<and> buf_is dev n (the_buf (bgroup_of n, b) s')
    \<and> b_lock (the_buf (bgroup_of n, b) s') = \<lparr>sl_locked = True, sl_tid = th_id (threads s th)\<rparr>
    \<and> b_data (the_buf (bgroup_of n, b) s') = block s dev n
    \<and> (\<forall>d m. block s' d m = (if (d, m) \<noteq> (dev, n) \<and> b_valid (the_buf (bgroup_of n, b) s)
         \<and> bkey (the_buf (bgroup_of n, b) s) = (d, m) \<and> bgroup_of m = bgroup_of n then sdcard s m else block s d m))"
proof -
  obtain b s' where b: "pick dev n (bcache s (bgroup_of n)) (L (bgroup_of n)) = Some b"
    and run: "bread dev n s = Some ((bgroup_of n, b), s')" "cache_abs s' L" "s' = s\<lparr>bcache := bcache s'\<rparr>"
    and x: "the_buf (bgroup_of n, b) s' = loaded dev n (th_id (threads s th)) (sdcard s n) (the_buf (bgroup_of n, b) s)"
    and data: "buf_data (bgroup_of n, b) s' = block s dev n"
    and blk: "\<And>d m. block s' d m = (if (d, m) \<noteq> (dev, n) \<and> b_valid (the_buf (bgroup_of n, b) s)
         \<and> bkey (the_buf (bgroup_of n, b) s) = (d, m) \<and> bgroup_of m = bgroup_of n then sdcard s m else block s d m)"
    by (rule bread_result [OF assms]) blast
  have "b_valid (the_buf (bgroup_of n, b) s') \<and> buf_is dev n (the_buf (bgroup_of n, b) s')
    \<and> b_lock (the_buf (bgroup_of n, b) s') = \<lparr>sl_locked = True, sl_tid = th_id (threads s th)\<rparr>"
    unfolding x by (simp add: loaded_def buf_is_def)
  with b run data blk show ?thesis by blast
qed

theorem bread_refines_witness:
  "\<exists>b s'. bread 0 5 fresh_cache = Some ((bgroup_of 5, b), s') \<and> buf_data (bgroup_of 5, b) s' = block fresh_cache 0 5"
  using bread_refines [OF fresh_cache_abs fresh_cache_readable, of 0 0 5] by auto

text \<open>
  C15: \<^verbatim>\<open>brelse\<close> of a buffer the thread holds unlocks it, makes it the most recently used of its group,
  keeps the invariant and changes no block.
\<close>

theorem brelse_refines:
  assumes "cache_abs s L" and "currentThread s = Some th" and "lists_abs (thread_links s) T"
    and "i < BCACHE_GROUP_NUM" and "b < NBUF"
    and "b_lock (the_buf (i, b) s) = \<lparr>sl_locked = True, sl_tid = th_id (threads s th)\<rparr>"
  shows "\<exists>s'. brelse (i, b) s = Some s' \<and> cache_abs s' (L(i := b # remove1 b (L i)))
    \<and> s' = s\<lparr>bcache := bcache s', threads := threads s'\<rparr>
    \<and> \<not> sl_locked (b_lock (the_buf (i, b) s')) \<and> b_refcnt (the_buf (i, b) s') = 0
    \<and> (\<forall>d m. block s' d m = block s d m)"
proof -
  note r = brelse_run [OF assms(1-5)]
  have "released i b (set (T Used)) s = s\<lparr>bcache := bcache (released i b (set (T Used)) s), threads := threads (released i b (set (T Used)) s)\<rparr>"
    by (simp add: released_def)
  then show ?thesis using r assms(6) released_bufs [of i b "set (T Used)" s i b] by auto
qed

theorem brelse_refines_witness:
  "\<exists>b s1 s2. bread 0 5 fresh_cache = Some ((bgroup_of 5, b), s1) \<and> brelse (bgroup_of 5, b) s1 = Some s2
     \<and> \<not> sl_locked (b_lock (the_buf (bgroup_of 5, b) s2))"
proof -
  obtain b s1 where b: "b < NBUF" "bread 0 5 fresh_cache = Some ((bgroup_of 5, b), s1)" "cache_abs s1 (\<lambda>_. rev [0..<NBUF])"
    and s1: "s1 = fresh_cache\<lparr>bcache := bcache s1\<rparr>"
    and x: "the_buf (bgroup_of 5, b) s1 = loaded 0 5 (th_id (threads fresh_cache 0)) (sdcard fresh_cache 5) (the_buf (bgroup_of 5, b) fresh_cache)"
    by (rule bread_result [OF fresh_cache_abs fresh_cache_readable, of 0 0 5]) auto
  have "currentThread s1 = Some 0" "lists_abs (thread_links s1) (\<lambda>_. [])" "threads s1 = threads fresh_cache"
    by (subst s1, simp add: lists_abs_zero)+
  moreover have "b_lock (the_buf (bgroup_of 5, b) s1) = \<lparr>sl_locked = True, sl_tid = th_id (threads fresh_cache 0)\<rparr>"
    unfolding x by (simp add: loaded_def)
  ultimately show ?thesis using brelse_refines [OF b(3), of 0 "\<lambda>_. []" "bgroup_of 5" b] b by auto
qed

text \<open>
  C29: a write does not survive its buffer. \<^verbatim>\<open>bwrite\<close> changes nothing, so when the least recently used
  buffer of a group holds a block with data the card does not have, reading another block of the
  group, releasing it, and reading the first block again delivers the card's data.
\<close>

theorem evicted_write_lost:
  assumes s: "cache_abs s L" and th: "currentThread s = Some th" and T: "lists_abs (thread_links s) T"
    and dev: "0 \<le> sint dev" "0 \<le> sint d" and i: "bgroup_of n = i" "bgroup_of m = i"
    and u: "\<forall>c<NBUF. \<not> sl_locked (b_lock (the_buf (i, c) s)) \<and> \<not> buf_is dev n (the_buf (i, c) s)"
    and b: "L i = bs @ [b]" "b_valid (the_buf (i, b) s)" "buf_is d m (the_buf (i, b) s)"
  shows "(\<forall>h t. bwrite h s = Some t \<longrightarrow> t = s)
    \<and> (\<exists>h s1 s2 h' s3. bread dev n s = Some (h, s1) \<and> brelse h s1 = Some s2
         \<and> bread d m s2 = Some (h', s3) \<and> buf_data h' s3 = sdcard s m)"
proof (rule conjI)
  show "\<forall>h t. bwrite h s = Some t \<longrightarrow> t = s" by (auto simp: bwrite_def bind_simps)
  have r: "readable dev n s" using u i by (auto simp: readable_def intro!: exI [of _ 0])
  have g: "group_abs (bcache s i) (L i)" using cache_absD [OF s, of i] i by auto
  then have bn: "b < NBUF" and z: "b_refcnt (the_buf (i, b) s) = 0" using u b by (auto simp: group_abs_def buffer_ok_def)
  have miss: "find (\<lambda>c. buf_is dev n (g_buf (bcache s i) c)) (L i) = None" using g u by (auto simp: group_abs_def find_None_iff)
  obtain b1 s1 where pk: "pick dev n (bcache s i) (L i) = Some b1"
    and b1: "b1 < NBUF" and run: "bread dev n s = Some ((i, b1), s1)" and s1: "cache_abs s1 L" "s1 = s\<lparr>bcache := bcache s1\<rparr>"
    and x: "the_buf (i, b1) s1 = loaded dev n (th_id (threads s th)) (sdcard s n) (the_buf (i, b1) s)"
    and y: "\<And>j c. (j, c) \<noteq> (i, b1) \<Longrightarrow> the_buf (j, c) s1 = the_buf (j, c) s"
    and "buf_data (i, b1) s1 = block s dev n"
    and blk: "\<And>d m. block s1 d m = (if (d, m) \<noteq> (dev, n) \<and> b_valid (the_buf (i, b1) s)
         \<and> bkey (the_buf (i, b1) s) = (d, m) \<and> bgroup_of m = i then sdcard s m else block s d m)"
    by (rule bread_result [OF s r th dev(1), unfolded i(1)]) (rule that)
  have "b1 = b" using pk miss b(1) z by (simp add: pick_def)
  moreover have "(d, m) \<noteq> (dev, n)" using u b bn by (auto simp: buf_is_bkey)
  ultimately have lost: "block s1 d m = sdcard s m" using blk [of d m] b i by (simp add: buf_is_bkey)
  have f: "currentThread s1 = Some th" "thread_links s1 = thread_links s" "threads s1 = threads s" by (subst s1(2), simp add: th)+
  have i': "i < BCACHE_GROUP_NUM" using i bgroup_of_less [of n] by simp
  have lk: "sl_locked (b_lock (the_buf (i, b1) s1))" "sl_tid (b_lock (the_buf (i, b1) s1)) = th_id (threads s1 th)"
    unfolding x by (simp_all add: loaded_def f)
  note rel = brelse_run [OF s1(1) f(1) _ i' b1 lk, unfolded f, OF T]
  let ?s2 = "released i b1 (set (T Used)) s1"
  have "\<not> sl_locked (b_lock (the_buf (i, c) ?s2))" if "c < NBUF" for c
    using u y [of i c] that by (simp add: released_bufs)
  then have "readable d m ?s2" by (auto simp: readable_def i(2) intro!: exI [of _ 0])
  moreover have "currentThread ?s2 = Some th" using f(1) by simp
  ultimately obtain b2 s3 where "bread d m ?s2 = Some ((bgroup_of m, b2), s3)" "buf_data (bgroup_of m, b2) s3 = block ?s2 d m"
    using bread_gives [OF rel(2) _ _ dev(2)] by blast
  then show "\<exists>h s1 s2 h' s3. bread dev n s = Some (h, s1) \<and> brelse h s1 = Some s2
         \<and> bread d m s2 = Some (h', s3) \<and> buf_data h' s3 = sdcard s m"
    using run rel(1) lost by auto
qed

theorem evicted_write_lost_witness:
  "\<exists>s :: kbio. block s 0 1024 = replicate BSIZE 1
     \<and> (\<exists>h s1 s2 h' s3. bread 0 2048 s = Some (h, s1) \<and> brelse h s1 = Some s2
         \<and> bread 0 1024 s2 = Some (h', s3) \<and> buf_data h' s3 = replicate BSIZE 0)"
proof -
  let ?x = "\<lparr>b_valid = True, b_dev = 0, b_blockno = 1024, b_lock = zero_sleeplock, b_refcnt = 0, b_data = replicate BSIZE 1\<rparr>"
  let ?s = "upd_group 0 (upd_buf 0 (\<lambda>_. ?x)) fresh_cache"
  have g: "group_abs (bcache fresh_cache 0) (rev [0..<NBUF])" using cache_absD [OF fresh_cache_abs, of 0] by simp
  have n: "bgroup_of 1024 = 0" "bgroup_of 2048 = 0" by (simp_all add: bgroup_of_def)
  have "first_only ((g_buf (bcache fresh_cache 0))(0 := ?x)) (rev [0..<NBUF])"
    by (auto simp: first_only_def sorted_wrt_iff_nth_less rev_nth idle_def zero_sleeplock_def bkey_def)
  moreover have "buffer_ok ?x" "\<forall>b<NBUF. buffer_ok (g_buf (bcache fresh_cache 0) b)" by (simp_all add: buffer_ok_def zero_sleeplock_def)
  ultimately have "group_abs (upd_buf 0 (\<lambda>_. ?x) (bcache fresh_cache 0)) (rev [0..<NBUF])"
    using g unfolding group_abs_def by (simp del: fresh_cache_sel)
  then have s: "cache_abs ?s (\<lambda>_. rev [0..<NBUF])" using fresh_cache_abs by (simp add: cache_abs_def at_home_def zero_sleeplock_def)
  have "cached 0 1024 (bcache ?s 0) = Some 0"
    using cache_absD [OF s, of 0] by (intro cached_Some) (auto simp: buf_is_def)
  then have "block ?s 0 1024 = replicate BSIZE 1" by (simp add: block_def n)
  moreover have "\<exists>h s1 s2 h' s3. bread 0 2048 ?s = Some (h, s1) \<and> brelse h s1 = Some s2
         \<and> bread 0 1024 s2 = Some (h', s3) \<and> buf_data h' s3 = sdcard ?s 1024"
    using evicted_write_lost [OF s, of 0 "\<lambda>_. []" 0 0 2048 0 1024 "rev [1..<NBUF]" 0] n
    by (auto simp: lists_abs_zero zero_sleeplock_def buf_is_def upt_rec)
  ultimately show ?thesis by (intro exI [of _ ?s]) simp
qed

end
