(* ===== verification/Fat_Table.thy ===== *)
theory Fat_Table
  imports Bio_Cache
begin

text \<open>
  The allocation table of \<^verbatim>\<open>src/kernel/fs/Fat.c\<close> over the buffer cache: what \<^verbatim>\<open>write_fat\<close> stores
  is what \<^verbatim>\<open>read_fat\<close> finds.
\<close>

section \<open>Little-endian fields of a buffer\<close>

lemma le_word_le_bytes: "n \<le> 8 \<Longrightarrow> le_word (le_bytes n w) = take_bit (8 * n) w"
proof (induction n arbitrary: w)
  case (Suc n)
  have "ucast (ucast w :: u8) OR push_bit 8 (take_bit (8 * n) (drop_bit 8 w)) = take_bit (8 * Suc n) w"
  proof (rule bit_word_eqI)
    fix k assume "k < LENGTH(64)"
    then show "bit (ucast (ucast w :: u8) OR push_bit 8 (take_bit (8 * n) (drop_bit 8 w))) k = bit (take_bit (8 * Suc n) w) k"
      by (auto simp: bit_or_iff bit_push_bit_iff bit_take_bit_iff bit_drop_bit_eq bit_ucast_iff not_less)
  qed
  with Suc show ?case by simp
qed simp

lemma length_le_bytes [simp]: "length (le_bytes n w) = n"
  by (induction n arbitrary: w) auto

lemma length_put_at: "k + length bs \<le> length xs \<Longrightarrow> length (put_at k bs xs) = length xs"
  by (simp add: put_at_def)

lemma get32_put_same: "k + 4 \<le> length xs \<Longrightarrow> get32 (put_at k (le_bytes 4 (ucast v)) xs) k = v"
proof -
  assume "k + 4 \<le> length xs"
  then have "take 4 (drop k (put_at k (le_bytes 4 (ucast v)) xs)) = le_bytes 4 (ucast v)"
    by (simp add: put_at_def)
  then have "get32 (put_at k (le_bytes 4 (ucast v)) xs) k = ucast (take_bit 32 (ucast v :: u64))"
    unfolding get32_def by (simp add: le_word_le_bytes)
  also have "\<dots> = v" by (rule bit_word_eqI) (simp add: bit_ucast_iff bit_take_bit_iff)
  finally show ?thesis .
qed

lemma get32_put_other:
  assumes "k + 4 \<le> length xs" "length bs = 4" "j + 4 \<le> k \<or> k + 4 \<le> j"
  shows "get32 (put_at k bs xs) j = get32 xs j"
proof -
  have "take 4 (drop j (put_at k bs xs)) = take 4 (drop j xs)"
    using assms by (auto simp: put_at_def drop_take min_def intro!: nth_equalityI simp: nth_append)
  then show ?thesis by (simp add: get32_def)
qed

section \<open>One block of the cache\<close>

text \<open>Reading a block, changing its data, and giving the buffer back.\<close>

lemma modify_block:
  assumes s: "cache_abs s L" and r: "readable dev n s" and th: "currentThread s = Some th"
    and T: "lists_abs (thread_links s) T" and dev: "0 \<le> sint dev"
    and len: "\<And>xs. length xs = BSIZE \<Longrightarrow> length (f xs) = BSIZE"
  obtains b s1 s3 L' where "bread dev n s = Some ((bgroup_of n, b), s1)" "s1 = s\<lparr>bcache := bcache s1\<rparr>"
    "buf_data (bgroup_of n, b) s1 = block s dev n"
    "bwrite (bgroup_of n, b) (upd_data (bgroup_of n, b) f s1) = Some (upd_data (bgroup_of n, b) f s1)"
    "brelse (bgroup_of n, b) (upd_data (bgroup_of n, b) f s1) = Some s3" "cache_abs s3 L'"
    "s3 = s\<lparr>bcache := bcache s3, threads := threads s3\<rparr>" "readable dev n s3"
    "block s3 dev n = f (block s dev n)"
    "\<And>d m. (d, m) \<noteq> (dev, n) \<Longrightarrow> block s3 d m = block s d m \<or> block s3 d m = sdcard s m"
proof -
  let ?i = "bgroup_of n"
  obtain b s1 where "pick dev n (bcache s ?i) (L ?i) = Some b"
    and b: "b < NBUF" and run: "bread dev n s = Some ((?i, b), s1)" and s1: "cache_abs s1 L" "s1 = s\<lparr>bcache := bcache s1\<rparr>"
    and x: "the_buf (?i, b) s1 = loaded dev n (th_id (threads s th)) (sdcard s n) (the_buf (?i, b) s)"
    and y: "\<And>j c. (j, c) \<noteq> (?i, b) \<Longrightarrow> the_buf (j, c) s1 = the_buf (j, c) s"
    and data: "buf_data (?i, b) s1 = block s dev n"
    and blk: "\<And>d m. block s1 d m = (if (d, m) \<noteq> (dev, n) \<and> b_valid (the_buf (?i, b) s)
         \<and> bkey (the_buf (?i, b) s) = (d, m) \<and> bgroup_of m = ?i then sdcard s m else block s d m)"
    by (rule bread_result [OF s r th dev]) (rule that)
  have f1: "currentThread s1 = Some th" "thread_links s1 = thread_links s" "threads s1 = threads s" by (subst s1(2), simp add: th)+
  let ?s2 = "upd_data (?i, b) f s1"
  have v: "b_valid (the_buf (?i, b) s1)" "bkey (the_buf (?i, b) s1) = (dev, n)"
    "b_lock (the_buf (?i, b) s1) = \<lparr>sl_locked = True, sl_tid = th_id (threads s th)\<rparr>"
    unfolding x by (simp_all add: loaded_def bkey_def)
  have "group_abs (bcache s1 ?i) (L ?i)" using cache_absD [OF s1(1)] by simp
  then have "length (buf_data (?i, b) s1) = BSIZE" using b v by (auto simp: group_abs_def buffer_ok_def)
  then have l: "length (f (buf_data (?i, b) s1)) = length (buf_data (?i, b) s1)" using len by simp
  have i: "?i = bgroup_of (b_blockno (the_buf (?i, b) s1))" using v(2) by (simp add: bkey_def)
  have s2: "cache_abs ?s2 L" by (rule cache_abs_data [OF s1(1), of f "(?i, b)", OF l])
  have lk: "sl_locked (b_lock (the_buf (?i, b) ?s2))" "sl_tid (b_lock (the_buf (?i, b) ?s2)) = th_id (threads ?s2 th)"
    using v f1 by simp_all
  have f2: "currentThread ?s2 = Some th" "lists_abs (thread_links ?s2) T" using f1 T by simp_all
  note rel = brelse_run [OF s2 f2 bgroup_of_less b lk]
  let ?s3 = "released ?i b (set (T Used)) ?s2"
  have w: "bwrite (?i, b) ?s2 = Some ?s2" using lk f2 by (simp add: bwrite_def holdingsleep_def myThread_def)
  have fr: "?s3 = s\<lparr>bcache := bcache ?s3, threads := threads ?s3\<rparr>" 
  proof -
    have "s1\<lparr>threads := X, bcache := Y\<rparr> = s\<lparr>bcache := Y, threads := X\<rparr>" for X Y by (subst s1(2)) simp
    then show ?thesis by (simp add: released_def)
  qed
  have bl: "block ?s3 d m = (if (d, m) = (dev, n) then f (block s1 d m) else block s1 d m)" for d m
    using block_data [OF s1(1), of f ?i b, OF l b i v(1), of d m] v(2) by simp
  have rd: "readable dev n ?s3"
    using r y b unfolding readable_def by (auto simp: released_bufs)
  have b1: "block ?s3 dev n = f (block s dev n)" unfolding bl blk by simp
  have b2: "block ?s3 d m = block s d m \<or> block ?s3 d m = sdcard s m" if "(d, m) \<noteq> (dev, n)" for d m
    unfolding bl blk using that by auto
  show thesis by (rule that [OF run s1(2) data w rel(1) rel(2) fr rd b1 b2])
qed

section \<open>The allocation table\<close>

text \<open>The entry of a cluster in the first copy of the table, as a reader sees it.\<close>

definition fat_entry :: "nat \<Rightarrow> u32 \<Rightarrow> 'z kfat_scheme \<Rightarrow> u32" where
  "fat_entry fs c s = get32 (block s (deviceNumber (fileSystem s fs)) (fat_sec_of_clus (sb fs s) c 1))
     (unat (fat_offset_of_clus (sb fs s) c))"

text \<open>A cluster of a FAT32 file system on the card, with its sector free for reading.\<close>

definition fat_ready :: "nat \<Rightarrow> u32 \<Rightarrow> 'z kfat_scheme \<Rightarrow> bool" where
  "fat_ready fs c s \<longleftrightarrow> (\<exists>L. cache_abs s L) \<and> currentThread s \<noteq> None \<and> (\<exists>T. lists_abs (thread_links s) T)
     \<and> fs_reads (fileSystem s fs) = BlockRead \<and> 0 \<le> sint (deviceNumber (fileSystem s fs))
     \<and> byts_per_sec (sb fs s) = 512 \<and> c < FAT32_EOC \<and> c \<le> data_clus_cnt (sb fs s) + 1
     \<and> readable (deviceNumber (fileSystem s fs)) (fat_sec_of_clus (sb fs s) c 1) s"

lemma fsread_card:
  "fs_reads (fileSystem s fs) = BlockRead \<Longrightarrow> fsread fs (ucast n) s = bread (deviceNumber (fileSystem s fs)) (n :: u32) s"
proof -
  have "ucast (ucast n :: u64) = n" by (rule bit_word_eqI) (simp add: bit_ucast_iff)
  then show "fs_reads (fileSystem s fs) = BlockRead \<Longrightarrow> fsread fs (ucast n) s = bread (deviceNumber (fileSystem s fs)) n s"
    by (simp add: fsread_def numeral_eq_Suc blockRead_def)
qed

lemma fat_offset_bound: "byts_per_sec b = 512 \<Longrightarrow> unat (fat_offset_of_clus b c) + 4 \<le> BSIZE \<and> 4 dvd unat (fat_offset_of_clus b c)"
proof -
  assume "byts_per_sec b = 512"
  then have o: "unat (fat_offset_of_clus b c) = unat (push_bit 2 c) mod 512"
    by (simp add: fat_offset_of_clus_def unat_mod_distrib unsigned_ucast_eq take_bit_eq_mod)
  have "unat (push_bit 2 c) = 4 * (unat c mod 2 ^ 30)"
    using mod_mult_mult1 [of 4 "unat c" "2 ^ 30"] by (simp add: push_bit_eq_mult unat_word_ariths mult.commute)
  then have "4 dvd unat (fat_offset_of_clus b c)" unfolding o by (simp add: dvd_mod)
  moreover have "unat (fat_offset_of_clus b c) < 512" unfolding o by simp
  ultimately show ?thesis by (auto elim!: dvdE)
qed

lemma fat_step:
  assumes r: "fat_ready fs c s" and len: "\<And>xs. length xs = BSIZE \<Longrightarrow> length (f xs) = BSIZE"
  defines "dev \<equiv> deviceNumber (fileSystem s fs)" and "n \<equiv> fat_sec_of_clus (sb fs s) c 1"
  obtains h s1 s3 where "fsread fs (ucast n) s = Some (h, s1)" "s1 = s\<lparr>bcache := bcache s1\<rparr>"
    "buf_data h s1 = block s dev n" "bwrite h (upd_data h f s1) = Some (upd_data h f s1)"
    "brelse h (upd_data h f s1) = Some s3" "fat_ready fs c s3" "s3 = s\<lparr>bcache := bcache s3, threads := threads s3\<rparr>"
    "block s3 dev n = f (block s dev n)"
    "\<And>d m. (d, m) \<noteq> (dev, n) \<Longrightarrow> block s3 d m = block s d m \<or> block s3 d m = sdcard s m"
proof -
  obtain L T th where L: "cache_abs s L" "readable dev n s" "currentThread s = Some th" "lists_abs (thread_links s) T" "0 \<le> sint dev"
    and fs: "fs_reads (fileSystem s fs) = BlockRead"
    using r unfolding fat_ready_def dev_def n_def by blast
  obtain b s1 s3 L' where run: "bread dev n s = Some ((bgroup_of n, b), s1)" "s1 = s\<lparr>bcache := bcache s1\<rparr>"
      "buf_data (bgroup_of n, b) s1 = block s dev n"
      "bwrite (bgroup_of n, b) (upd_data (bgroup_of n, b) f s1) = Some (upd_data (bgroup_of n, b) f s1)"
      "brelse (bgroup_of n, b) (upd_data (bgroup_of n, b) f s1) = Some s3"
    and s3: "cache_abs s3 L'" "s3 = s\<lparr>bcache := bcache s3, threads := threads s3\<rparr>" "readable dev n s3"
    and bl: "block s3 dev n = f (block s dev n)"
      "\<And>d m. (d, m) \<noteq> (dev, n) \<Longrightarrow> block s3 d m = block s d m \<or> block s3 d m = sdcard s m"
    by (rule modify_block [OF L, of f]) (rule len, assumption, rule that)
  have "currentThread s3 = currentThread s" "thread_links s3 = thread_links s" "fileSystem s3 = fileSystem s" by (subst s3(2), simp)+
  then have rd: "fat_ready fs c s3" using r s3 unfolding fat_ready_def dev_def n_def by auto
  have fr: "fsread fs (ucast n) s = Some ((bgroup_of n, b), s1)" using run(1) fsread_card [OF fs, of n] unfolding dev_def by simp
  show thesis by (rule that [OF fr run(2-5) rd s3(2) bl])
qed

lemma upd_data_id: "upd_data h (\<lambda>x. x) s = s"
  by (simp add: fun_upd_idem)

lemma read_fat_eq:
  assumes "fat_ready fs c s"
  shows "\<exists>s'. read_fat fsread fs c s = Some (fat_entry fs c s, s')"
proof -
  obtain h s1 s3 where run: "fsread fs (ucast (fat_sec_of_clus (sb fs s) c 1)) s = Some (h, s1)" "s1 = s\<lparr>bcache := bcache s1\<rparr>"
    "buf_data h s1 = block s (deviceNumber (fileSystem s fs)) (fat_sec_of_clus (sb fs s) c 1)"
    "brelse h (upd_data h (\<lambda>x. x) s1) = Some s3"
    by (rule fat_step [OF assms, of "\<lambda>x. x"]) auto
  moreover have "c < FAT32_EOC" "c \<le> data_clus_cnt (sb fs s) + 1" using assms by (auto simp: fat_ready_def)
  ultimately show ?thesis unfolding upd_data_id
    by (simp add: read_fat_def fat_entry_def not_le [symmetric] del: not_le)
qed

lemma write_fat_run:
  assumes r: "fat_ready fs c s"
  obtains s' where "write_fat fsread fs c v s = Some (0, s')" "fat_ready fs c s'" "fileSystem s' = fileSystem s"
    "block s' (deviceNumber (fileSystem s fs)) (fat_sec_of_clus (sb fs s) c 1)
       = put_at (unat (fat_offset_of_clus (sb fs s) c)) (le_bytes 4 (ucast v)) (block s (deviceNumber (fileSystem s fs)) (fat_sec_of_clus (sb fs s) c 1))"
    "\<And>d m. (d, m) \<noteq> (deviceNumber (fileSystem s fs), fat_sec_of_clus (sb fs s) c 1) \<Longrightarrow> block s' d m = block s d m \<or> block s' d m = sdcard s m"
proof -
  let ?f = "put_at (unat (fat_offset_of_clus (sb fs s) c)) (le_bytes 4 (ucast v))"
  let ?d = "deviceNumber (fileSystem s fs)" and ?n = "fat_sec_of_clus (sb fs s) c 1"
  have b: "byts_per_sec (sb fs s) = 512" "c \<le> data_clus_cnt (sb fs s) + 1" using r by (auto simp: fat_ready_def)
  have len: "length (?f xs) = BSIZE" if "length xs = BSIZE" for xs
    using length_put_at [of "unat (fat_offset_of_clus (sb fs s) c)" "le_bytes 4 (ucast v)" xs] fat_offset_bound [OF b(1)] that by simp
  obtain h s1 s3 where run: "fsread fs (ucast ?n) s = Some (h, s1)" "s1 = s\<lparr>bcache := bcache s1\<rparr>"
    "bwrite h (upd_data h ?f s1) = Some (upd_data h ?f s1)" "brelse h (upd_data h ?f s1) = Some s3"
    and s3: "fat_ready fs c s3" "s3 = s\<lparr>bcache := bcache s3, threads := threads s3\<rparr>"
    and bl: "block s3 ?d ?n = ?f (block s ?d ?n)" "\<And>d m. (d, m) \<noteq> (?d, ?n) \<Longrightarrow> block s3 d m = block s d m \<or> block s3 d m = sdcard s m"
    by (rule fat_step [OF r, of ?f]) (rule len, assumption, rule that)
  have "write_fat fsread fs c v s = Some (0, s3)" using run b by (simp add: write_fat_def Let_def)
  moreover have "fileSystem s3 = fileSystem s" by (subst s3(2)) simp
  ultimately show thesis using that s3(1) bl by blast
qed

text \<open>Two clusters whose entries are in one sector have their entries in different places.\<close>

lemma fat_offset_distinct:
  assumes b: "byts_per_sec b = 512" and c: "c < FAT32_EOC" "c' < FAT32_EOC" and ne: "c \<noteq> c'"
    and sec: "fat_sec_of_clus b c 1 = fat_sec_of_clus b c' 1"
  shows "unat (fat_offset_of_clus b c) + 4 \<le> unat (fat_offset_of_clus b c') \<or> unat (fat_offset_of_clus b c') + 4 \<le> unat (fat_offset_of_clus b c)"
proof -
  have u: "unat x < 0x0ffffff8" if "x < FAT32_EOC" for x :: u32 using that by (simp add: word_less_nat_alt)
  have p: "unat (push_bit 2 x) = 4 * unat x" if "x < FAT32_EOC" for x :: u32
    using u [OF that] by (simp add: push_bit_eq_mult unat_word_ariths)
  have o: "unat (fat_offset_of_clus b x) = 4 * unat x mod 512" if "x < FAT32_EOC" for x
    using p [OF that] b by (simp add: fat_offset_of_clus_def unat_mod_distrib unsigned_ucast_eq take_bit_eq_mod)
  have "push_bit 2 c div 512 = push_bit 2 c' div 512" using sec b by (simp add: fat_sec_of_clus_def)
  then have "unat (push_bit 2 c div 512) = unat (push_bit 2 c' div 512)" by simp
  then have "4 * unat c div 512 = 4 * unat c' div 512" using p c by (simp add: unat_div_distrib)
  moreover have "unat c \<noteq> unat c'" using ne by (simp add: word_unat_eq_iff)
  ultimately have "4 * unat c mod 512 \<noteq> 4 * unat c' mod 512" by (metis div_mult_mod_eq mult_left_cancel zero_neq_numeral)
  then show ?thesis using o [OF c(1)] o [OF c(2)] fat_offset_bound [OF b, of c] fat_offset_bound [OF b, of c']
    by (auto elim!: dvdE)
qed

section \<open>Properties\<close>

text \<open>
  C13: what \<^verbatim>\<open>write_fat\<close> stores for a cluster is what \<^verbatim>\<open>read_fat\<close> finds there, the entries of the other
  clusters in the same sector stay as they were, and every other block keeps its contents or, if its
  buffer was recycled, has the card's.
\<close>

theorem write_read_fat:
  assumes r: "fat_ready fs c s"
  shows "\<exists>s'. write_fat fsread fs c v s = Some (0, s')
    \<and> (\<exists>s''. read_fat fsread fs c s' = Some (v, s''))
    \<and> (\<forall>c'. c' \<noteq> c \<and> c' < FAT32_EOC \<and> c' \<le> data_clus_cnt (sb fs s) + 1
          \<and> fat_sec_of_clus (sb fs s) c' 1 = fat_sec_of_clus (sb fs s) c 1
          \<longrightarrow> (\<exists>s''. read_fat fsread fs c' s' = Some (fat_entry fs c' s, s'')))
    \<and> (\<forall>d m. (d, m) \<noteq> (deviceNumber (fileSystem s fs), fat_sec_of_clus (sb fs s) c 1)
          \<longrightarrow> block s' d m = block s d m \<or> block s' d m = sdcard s m)"
proof -
  let ?d = "deviceNumber (fileSystem s fs)" and ?n = "fat_sec_of_clus (sb fs s) c 1"
  obtain s' where w: "write_fat fsread fs c v s = Some (0, s')" and s': "fat_ready fs c s'" "fileSystem s' = fileSystem s"
    and blk: "block s' ?d ?n = put_at (unat (fat_offset_of_clus (sb fs s) c)) (le_bytes 4 (ucast v)) (block s ?d ?n)"
      "\<And>d m. (d, m) \<noteq> (?d, ?n) \<Longrightarrow> block s' d m = block s d m \<or> block s' d m = sdcard s m"
    by (rule write_fat_run [OF r]) (rule that)
  have b: "byts_per_sec (sb fs s) = 512" "c < FAT32_EOC" using r by (auto simp: fat_ready_def)
  have len: "length (block s ?d ?n) = BSIZE" using r length_block by (auto simp: fat_ready_def)
  have "fat_entry fs c s' = v"
    using get32_put_same [of "unat (fat_offset_of_clus (sb fs s) c)" "block s ?d ?n" v] fat_offset_bound [OF b(1), of c] len
    by (simp add: fat_entry_def s'(2) blk(1))
  then have 1: "\<exists>s''. read_fat fsread fs c s' = Some (v, s'')" using read_fat_eq [OF s'(1)] by simp
  have 2: "\<exists>s''. read_fat fsread fs c' s' = Some (fat_entry fs c' s, s'')"
    if c': "c' \<noteq> c" "c' < FAT32_EOC" "c' \<le> data_clus_cnt (sb fs s) + 1" "fat_sec_of_clus (sb fs s) c' 1 = ?n" for c'
  proof -
    have rd: "fat_ready fs c' s'" using s' c' by (simp add: fat_ready_def)
    have "fat_entry fs c' s' = fat_entry fs c' s"
      using get32_put_other [of "unat (fat_offset_of_clus (sb fs s) c)" "block s ?d ?n" "le_bytes 4 (ucast v)" "unat (fat_offset_of_clus (sb fs s) c')"]
        fat_offset_bound [OF b(1), of c] fat_offset_distinct [OF b(1) b(2) c'(2)] c' len
      by (auto simp: fat_entry_def s'(2) blk(1))
    then show ?thesis using read_fat_eq [OF rd] by simp
  qed
  show ?thesis using w 1 2 blk(2) by blast
qed

text \<open>A zeroed kernel with one file system on the card.\<close>

definition blank_dirent :: Dirent where
  "blank_dirent = \<lparr>filename = [], attribute = 0, first_clus = 0, file_size = 0, cur_clus = 0, inodeMaxCluster = 0, clus_cnt = 0,
     d_inode = (\<lambda>_. 0), nt_res = 0, fileSystem_of = None, d_dev = 0, d_head = None, d_off = 0, d_parent = None,
     nextBrother = None, firstChild = None\<rparr>"

definition blank_file :: File where
  "blank_file = \<lparr>f_type = FD_NONE, f_ref = 0, f_readable = False, f_writable = False, f_pipe = 0, f_ep = None, f_socket = 0,
     f_off = 0, f_major = 0, f_curChild = None\<rparr>"

definition small_fs :: FileSystem where
  "small_fs = \<lparr>fs_valid = True, fs_name = [], superBlock = \<lparr>first_data_sec = 64, data_sec_cnt = 1000, data_clus_cnt = 1000,
     byts_per_clus = 512, byts_per_sec = 512, sec_per_clus = 1, rsvd_sec_cnt = 32, fat_cnt = 2, hidd_sec = 0, tot_sec = 1064,
     fat_sz = 16, root_clus = 2\<rparr>, fs_image = None, fs_next = None, deviceNumber = 0, fs_reads = BlockRead\<rparr>"

definition small_kfat :: kfat where
  "small_kfat = kbio.extend fresh_cache (kfat.fields (\<lambda>_ _. 0) (replicate 16 0) (\<lambda>_. blank_dirent) None (\<lambda>_. small_fs) (Some 0) None
     (\<lambda>_. blank_file) (\<lambda>_. 0))"

lemma small_kfat_sel [simp]:
  "bcache small_kfat = bcache fresh_cache" "sdcard small_kfat = sdcard fresh_cache" "currentThread small_kfat = Some 0"
  "thread_links small_kfat = zero_lists" "threads small_kfat = (\<lambda>_. zero_thread)" "fileSystem small_kfat = (\<lambda>_. small_fs)"
  "inodes small_kfat = (\<lambda>_ _. 0)" "inodeBitmap small_kfat = replicate 16 0" "dirents small_kfat = (\<lambda>_. blank_dirent)"
  "direntHead small_kfat = None" "ftable small_kfat = (\<lambda>_. blank_file)"
proof -
  have "kbio.truncate small_kfat = fresh_cache" by (simp add: small_kfat_def kbio.defs kfat.defs)
  moreover have "bcache s = bcache (kbio.truncate s)" "sdcard s = sdcard (kbio.truncate s)" "currentThread s = currentThread (kbio.truncate s)"
    "thread_links s = thread_links (kbio.truncate s)" "threads s = threads (kbio.truncate s)" for s :: kfat
    by (simp_all add: kbio.defs)
  ultimately show "bcache small_kfat = bcache fresh_cache" "sdcard small_kfat = sdcard fresh_cache" "currentThread small_kfat = Some 0"
    "thread_links small_kfat = zero_lists" "threads small_kfat = (\<lambda>_. zero_thread)" by simp_all
  show "fileSystem small_kfat = (\<lambda>_. small_fs)" "inodes small_kfat = (\<lambda>_ _. 0)" "inodeBitmap small_kfat = replicate 16 0"
    "dirents small_kfat = (\<lambda>_. blank_dirent)" "direntHead small_kfat = None" "ftable small_kfat = (\<lambda>_. blank_file)"
    by (simp_all add: small_kfat_def kbio.defs kfat.defs)
qed

lemma small_kfat_ready: "fat_ready 0 9 small_kfat"
proof -
  have "cache_abs small_kfat (\<lambda>_. rev [0..<NBUF])" using fresh_cache_abs by (simp add: cache_abs_def)
  moreover have "readable 0 n small_kfat" for n using fresh_cache_readable by (simp add: readable_def)
  ultimately show ?thesis by (auto simp: fat_ready_def small_fs_def intro!: lists_abs_zero exI)
qed

theorem write_read_fat_witness:
  "\<exists>s' s''. write_fat fsread 0 9 77 small_kfat = Some (0, s') \<and> read_fat fsread 0 9 s' = Some (77, s'')"
  using write_read_fat [OF small_kfat_ready, of 77] by blast

end
