(* ===== verification/Fat_Index.thy ===== *)
theory Fat_Index
  imports Fat_Table
begin

text \<open>
  The index of a directory entry, through which \<^verbatim>\<open>src/kernel/fs/Fat.c\<close> finds the cluster at a position
  without walking the chain: eight clusters in the entry, sixteen leaf blocks of 64, and forty blocks
  that point at 64 leaf blocks each. All leaf blocks are numbered in one sequence here, the first
  sixteen reached from the entry, the others through a block of the middle level.
\<close>

section \<open>Shape of an index\<close>

definition mid :: "Inode \<Rightarrow> nat \<Rightarrow> nat" where
  "mid it j = unat (it (24 + j))"

definition leaf :: "Inode \<Rightarrow> (nat \<Rightarrow> Inode) \<Rightarrow> nat \<Rightarrow> nat" where
  "leaf it ino q = unat (if q < 16 then it (8 + q) else ino (mid it ((q - 16) div 64)) ((q - 16) mod 64))"

definition nleaf :: "nat \<Rightarrow> nat" where
  "nleaf k = (k - 8 + 63) div 64"

definition nmid :: "nat \<Rightarrow> nat" where
  "nmid n = (n - 16 + 63) div 64"

definition item :: "Inode \<Rightarrow> (nat \<Rightarrow> Inode) \<Rightarrow> nat \<Rightarrow> u32" where
  "item it ino k = (if k < 8 then it k else ino (leaf it ino ((k - 8) div 64)) ((k - 8) mod 64))"

text \<open>The blocks of an index with \<open>n\<close> leaves: all different, and all taken from the pool.\<close>

definition iblocks :: "Inode \<Rightarrow> (nat \<Rightarrow> Inode) \<Rightarrow> nat \<Rightarrow> nat set" where
  "iblocks it ino n = leaf it ino ` {..<n} \<union> mid it ` {..<nmid n}"

definition shape_ok :: "Inode \<Rightarrow> (nat \<Rightarrow> Inode) \<Rightarrow> nat set \<Rightarrow> nat \<Rightarrow> bool" where
  "shape_ok it ino U n \<longleftrightarrow> inj_on (leaf it ino) {..<n} \<and> inj_on (mid it) {..<nmid n}
     \<and> leaf it ino ` {..<n} \<inter> mid it ` {..<nmid n} = {} \<and> iblocks it ino n \<subseteq> U \<and> U \<subseteq> {..<INODE_NUM}"

lemma nleaf_pos: "k < n \<Longrightarrow> 8 \<le> k \<Longrightarrow> (k - 8) div 64 < nleaf n"
  unfolding nleaf_def by linarith

lemma nmid_pos: "q < n \<Longrightarrow> 16 \<le> q \<Longrightarrow> (q - 16) div 64 < nmid n"
  unfolding nmid_def by linarith

lemma shape_okD:
  assumes "shape_ok it ino U n"
  shows "\<And>q. q < n \<Longrightarrow> leaf it ino q \<in> U" "\<And>j. j < nmid n \<Longrightarrow> mid it j \<in> U"
    "\<And>q q'. leaf it ino q = leaf it ino q' \<Longrightarrow> q < n \<Longrightarrow> q' < n \<Longrightarrow> q = q'"
    "\<And>j j'. mid it j = mid it j' \<Longrightarrow> j < nmid n \<Longrightarrow> j' < nmid n \<Longrightarrow> j = j'"
    "\<And>q j. q < n \<Longrightarrow> j < nmid n \<Longrightarrow> leaf it ino q \<noteq> mid it j" "\<And>b. b \<in> U \<Longrightarrow> b < INODE_NUM"
proof -
  have inj: "inj_on (leaf it ino) {..<n}" "inj_on (mid it) {..<nmid n}" and d: "leaf it ino ` {..<n} \<inter> mid it ` {..<nmid n} = {}"
    and U: "leaf it ino ` {..<n} \<subseteq> U" "mid it ` {..<nmid n} \<subseteq> U" "U \<subseteq> {..<INODE_NUM}"
    using assms unfolding shape_ok_def iblocks_def by blast+
  show "\<And>q. q < n \<Longrightarrow> leaf it ino q \<in> U" using U(1) by blast
  show "\<And>j. j < nmid n \<Longrightarrow> mid it j \<in> U" using U(2) by blast
  show "\<And>q q'. leaf it ino q = leaf it ino q' \<Longrightarrow> q < n \<Longrightarrow> q' < n \<Longrightarrow> q = q'" using inj(1) by (blast dest: inj_onD)
  show "\<And>j j'. mid it j = mid it j' \<Longrightarrow> j < nmid n \<Longrightarrow> j' < nmid n \<Longrightarrow> j = j'" using inj(2) by (blast dest: inj_onD)
  show "\<And>q j. q < n \<Longrightarrow> j < nmid n \<Longrightarrow> leaf it ino q \<noteq> mid it j" using d by blast
  show "\<And>b. b \<in> U \<Longrightarrow> b < INODE_NUM" using U(3) by blast
qed

lemma shape_lt:
  assumes "shape_ok it ino U n"
  shows "q < n \<Longrightarrow> leaf it ino q < INODE_NUM" "j < nmid n \<Longrightarrow> mid it j < INODE_NUM"
  using shape_okD(1,2,6) [OF assms] by blast+

lemma shape_okI:
  assumes "\<And>q. q < n \<Longrightarrow> leaf it ino q \<in> U" "\<And>j. j < nmid n \<Longrightarrow> mid it j \<in> U"
    "\<And>q q'. q < n \<Longrightarrow> q' < n \<Longrightarrow> leaf it ino q = leaf it ino q' \<Longrightarrow> q = q'"
    "\<And>j j'. j < nmid n \<Longrightarrow> j' < nmid n \<Longrightarrow> mid it j = mid it j' \<Longrightarrow> j = j'"
    "\<And>q j. q < n \<Longrightarrow> j < nmid n \<Longrightarrow> leaf it ino q \<noteq> mid it j" "U \<subseteq> {..<INODE_NUM}"
  shows "shape_ok it ino U n"
  using assms unfolding shape_ok_def iblocks_def inj_on_def by auto

lemma shape_cong:
  assumes l: "\<And>q. q < n \<Longrightarrow> leaf it' ino' q = leaf it ino q" and m: "\<And>j. j < nmid n \<Longrightarrow> mid it' j = mid it j"
  shows "shape_ok it' ino' U n = shape_ok it ino U n"
proof -
  have "leaf it' ino' ` {..<n} = leaf it ino ` {..<n}" "mid it' ` {..<nmid n} = mid it ` {..<nmid n}"
    using l m by (auto intro!: image_cong)
  moreover have "inj_on (leaf it' ino') {..<n} = inj_on (leaf it ino) {..<n}" "inj_on (mid it') {..<nmid n} = inj_on (mid it) {..<nmid n}"
    using l m by (auto intro!: inj_on_cong)
  ultimately show ?thesis by (simp add: shape_ok_def iblocks_def)
qed

text \<open>The position of an entry's cluster, as the code computes it.\<close>

lemma cluster_at_item:
  assumes s: "shape_ok (d_inode (dirents s ep)) (inodes s) U (nleaf k)" and p: "pos < k" "k \<le> INODE_THIRD_LEVEL_TOP"
  shows "cluster_at ep pos s = Some (item (d_inode (dirents s ep)) (inodes s) pos)"
proof -
  let ?it = "d_inode (dirents s ep)" and ?q = "(pos - 8) div 64"
  have lt: "leaf ?it (inodes s) q < INODE_NUM" if "q < nleaf k" for q using shape_okD(1,6) [OF s] that by blast
  have mt: "mid ?it j < INODE_NUM" if "j < nmid (nleaf k)" for j using shape_okD(2,6) [OF s] that by blast
  consider "pos < 8" | "8 \<le> pos" "pos < 1032" | t where "pos = 1032 + t" using le_Suc_ex [of 1032 pos] not_le by blast
  then show ?thesis
  proof cases
    case 1
    then show ?thesis by (simp add: cluster_at_def item_def)
  next
    case 2
    have "?q < 16" using 2 by linarith
    then show ?thesis using 2 lt [of ?q] nleaf_pos [OF p(1) 2(1)]
      by (simp add: cluster_at_def item_def leaf_def inode_get_def Let_def)
  next
    case 3
    have q: "?q = 16 + t div 64" "(pos - 8) mod 64 = t mod 64" using div_mult_self1 [of 64 t 16] mod_mult_self1 [of t 16 64] 3 by (simp_all add: add.commute)
    have "16 + t div 64 < nleaf k" using nleaf_pos [OF p(1)] q(1) 3 by simp
    then show ?thesis using lt [of "16 + t div 64"] mt [of "t div 64 div 64"] nmid_pos [of "16 + t div 64" "nleaf k"] p q 3
      by (simp add: cluster_at_def item_def leaf_def mid_def inode_get_def Let_def)
  qed
qed

section \<open>Writing and growing\<close>

lemma unat_of_small [simp]: "i < INODE_NUM \<Longrightarrow> unat (of_nat i :: u32) = i"
  by (simp add: unat_of_nat)

text \<open>The positions below \<open>64 n + 8\<close> are in the entry or in one of \<open>n\<close> leaves.\<close>

definition in_leaves :: "nat \<Rightarrow> nat \<Rightarrow> bool" where
  "in_leaves n k \<longleftrightarrow> k < 8 \<or> (k - 8) div 64 < n"

lemma in_leaves_nleaf: "k < n \<Longrightarrow> in_leaves (nleaf n) k"
  using nleaf_pos [of k n] by (cases "k < 8") (simp_all add: in_leaves_def)

lemma item_direct: "pos < 8 \<Longrightarrow> item (it(pos := c)) ino k = (if k = pos then c else item it ino k)"
  and shape_direct: "pos < 8 \<Longrightarrow> shape_ok (it(pos := c)) ino U n = shape_ok it ino U n"
proof -
  assume p: "pos < 8"
  have m: "mid (it(pos := c)) = mid it" using p by (auto simp: mid_def fun_eq_iff)
  have l: "leaf (it(pos := c)) ino = leaf it ino" using p m by (auto simp: leaf_def fun_eq_iff)
  show "item (it(pos := c)) ino k = (if k = pos then c else item it ino k)" using p l by (simp add: item_def)
  show "shape_ok (it(pos := c)) ino U n = shape_ok it ino U n" by (simp add: shape_ok_def iblocks_def m l)
qed

lemma leaf_write:
  assumes s: "shape_ok it ino U n" and q: "q0 < n" "q < n"
  shows "leaf it (ino(leaf it ino q0 := f)) q = leaf it ino q"
proof (cases "q < 16")
  case False
  have "leaf it ino q0 \<noteq> mid it ((q - 16) div 64)" using shape_okD(5) [OF s q(1) nmid_pos [OF q(2)]] False by simp
  then show ?thesis using False by (simp add: leaf_def)
qed (simp add: leaf_def)

lemma shape_write:
  assumes s: "shape_ok it ino U n" and q: "q0 < n"
  shows "shape_ok it (ino(leaf it ino q0 := f)) U n"
  using s leaf_write [OF s q] by (subst shape_cong [of _ it _ it ino]) simp_all

lemma item_write:
  assumes s: "shape_ok it ino U n" and q: "q0 < n" and x: "x < 64" and k: "in_leaves n k"
  shows "item it (ino(leaf it ino q0 := (ino (leaf it ino q0))(x := c))) k = (if k = 8 + 64 * q0 + x then c else item it ino k)"
proof (cases "k < 8")
  case False
  let ?q = "(k - 8) div 64"
  have q': "?q < n" using k False by (simp add: in_leaves_def)
  have "k = 8 + 64 * ?q + (k - 8) mod 64" using False by (simp add: mult.commute)
  then have e: "k = 8 + 64 * q0 + x \<longleftrightarrow> ?q = q0 \<and> (k - 8) mod 64 = x" using x by auto
  show ?thesis
    using False leaf_write [OF s q q'] shape_okD(3) [OF s, of ?q q0] q q' e by (auto simp: item_def)
qed (simp add: item_def)

lemma nmid_le16 [simp]: "n \<le> 16 \<Longrightarrow> nmid n = 0"
  by (simp add: nmid_def)

lemma nmid_Suc: "nmid (Suc n) = nmid n \<or> nmid (Suc n) = Suc (nmid n)"
  unfolding nmid_def by linarith

text \<open>One more leaf, with or without one more block of the middle level.\<close>

lemma shape_add:
  assumes s: "shape_ok it ino U n" and l: "\<And>q. q < n \<Longrightarrow> leaf it' ino' q = leaf it ino q" "leaf it' ino' n = i"
    and m: "\<And>j. j < nmid n \<Longrightarrow> mid it' j = mid it j"
    and w: "nmid (Suc n) = nmid n \<or> mid it' (nmid n) \<notin> U \<and> mid it' (nmid n) \<in> U'"
    and U: "U \<subseteq> U'" "i \<notin> U'" "i < INODE_NUM" "U' \<subseteq> {..<INODE_NUM}"
  shows "shape_ok it' ino' (insert i U') (Suc n)"
proof -
  have s': "shape_ok it' ino' U n" using s shape_cong [of n it' ino' it ino] l(1) m by simp
  then have inj: "inj_on (leaf it' ino') {..<n}" "inj_on (mid it') {..<nmid n}" and d: "leaf it' ino' ` {..<n} \<inter> mid it' ` {..<nmid n} = {}"
    and sub: "leaf it' ino' ` {..<n} \<subseteq> U" "mid it' ` {..<nmid n} \<subseteq> U"
    by (auto simp: shape_ok_def iblocks_def)
  have L: "leaf it' ino' ` {..<Suc n} = insert i (leaf it' ino' ` {..<n})" using l(2) by (simp add: lessThan_Suc)
  have iL: "inj_on (leaf it' ino') {..<Suc n}" using inj(1) sub(1) U l(2) by (auto simp: lessThan_Suc inj_on_insert)
  have M: "inj_on (mid it') {..<nmid (Suc n)} \<and> mid it' ` {..<nmid (Suc n)} \<subseteq> U'
    \<and> leaf it' ino' ` {..<n} \<inter> mid it' ` {..<nmid (Suc n)} = {}"
  proof (cases "nmid (Suc n) = nmid n")
    case True
    then show ?thesis using inj(2) sub(2) U(1) d by auto
  next
    case False
    then have e: "nmid (Suc n) = Suc (nmid n)" and "mid it' (nmid n) \<notin> U" "mid it' (nmid n) \<in> U'" using nmid_Suc [of n] w by auto
    then show ?thesis using inj(2) sub U(1) d by (auto simp: e lessThan_Suc inj_on_insert)
  qed
  show ?thesis
    unfolding shape_ok_def iblocks_def L using iL M sub(1) U by auto
qed

lemma item_cong:
  assumes "in_leaves n k" and "\<And>q. q < n \<Longrightarrow> leaf it' ino' q = leaf it ino q" and "\<And>q. q < n \<Longrightarrow> ino' (leaf it ino q) = ino (leaf it ino q)"
    and "\<And>j. j < 8 \<Longrightarrow> it' j = it j"
  shows "item it' ino' k = item it ino k"
  using assms by (auto simp: item_def in_leaves_def)

lemma grow_second:
  assumes s: "shape_ok it ino U n" and n: "n < 16" and i: "i < INODE_NUM" "i \<notin> U"
  defines "it' \<equiv> it(8 + n := of_nat i)"
  shows "shape_ok it' ino (insert i U) (Suc n)" "leaf it' ino n = i" "in_leaves n k \<Longrightarrow> item it' ino k = item it ino k"
proof -
  have l: "leaf it' ino q = (if q = n then i else leaf it ino q)" if "q \<le> n" for q
    using n i that by (auto simp: leaf_def it'_def)
  have U: "U \<subseteq> {..<INODE_NUM}" using s by (simp add: shape_ok_def)
  show "shape_ok it' ino (insert i U) (Suc n)"
    by (rule shape_add [OF s]) (use l n i U in auto)
  show "leaf it' ino n = i" using l by simp
  show "item it' ino k = item it ino k" if "in_leaves n k"
    by (rule item_cong [OF that]) (use l in \<open>auto simp: it'_def\<close>)
qed

text \<open>One more leaf reached through the middle level: its place is \<open>t\<close> in block \<open>m\<close>.\<close>

lemma grow_third:
  assumes s: "shape_ok it ino U n" and n: "n = 16 + 64 * m + t" "t < 64"
    and it: "\<And>j. j < 24 \<Longrightarrow> it' j = it j" "\<And>j. j < nmid n \<Longrightarrow> it' (24 + j) = it (24 + j)"
    and w: "t \<noteq> 0 \<or> mid it' m \<notin> U \<and> mid it' m \<in> U'" and U: "U \<subseteq> U'" "i \<notin> U'" "i < INODE_NUM" "U' \<subseteq> {..<INODE_NUM}"
  defines "ino' \<equiv> ino(mid it' m := (ino (mid it' m))(t := of_nat i))"
  shows "shape_ok it' ino' (insert i U') (Suc n)" "leaf it' ino' n = i" "in_leaves n k \<Longrightarrow> item it' ino' k = item it ino k"
proof -
  have nm: "nmid n = (if t = 0 then m else Suc m)" "nmid (Suc n) = Suc m" using n by (auto simp: nmid_def)
  have mid: "mid it' j = mid it j" if "j < nmid n" for j using it(2) [OF that] by (simp add: mid_def)
  have ne: "mid it' m \<noteq> mid it' j" if "j < nmid n" "j \<noteq> m" for j
  proof (cases "t = 0")
    case True
    then show ?thesis using w mid [OF that(1)] shape_okD(2) [OF s that(1)] by auto
  next
    case False
    then show ?thesis using mid [of m] mid [OF that(1)] shape_okD(4) [OF s, of m j] that nm by auto
  qed
  have l: "leaf it' ino' q = leaf it ino q" if q: "q < n" for q
  proof (cases "q < 16")
    case True
    then show ?thesis using it(1) [of "8 + q"] by (simp add: leaf_def)
  next
    case False
    let ?j = "(q - 16) div 64"
    have j: "?j < nmid n" using nmid_pos [OF q] False by simp
    have "?j \<noteq> m \<or> (q - 16) mod 64 \<noteq> t" using q n False by (metis add.commute diff_add leI less_irrefl mult_div_mod_eq add.assoc)
    then show ?thesis using False mid [OF j] ne [OF j] by (auto simp: leaf_def ino'_def)
  qed
  show ln: "leaf it' ino' n = i" using n U(3) by (simp add: leaf_def ino'_def)
  show "shape_ok it' ino' (insert i U') (Suc n)"
    by (rule shape_add [OF s l ln mid _ U]) (use w nm in auto)
  show "item it' ino' k = item it ino k" if "in_leaves n k"
  proof (rule item_cong [OF that l])
    fix q assume q: "q < n"
    have "leaf it ino q \<noteq> mid it' m"
    proof (cases "t = 0")
      case True
      then show ?thesis using w shape_okD(1) [OF s q] by auto
    next
      case False
      then show ?thesis using shape_okD(5) [OF s q, of m] mid [of m] nm by auto
    qed
    then show "ino' (leaf it ino q) = ino (leaf it ino q)" by (simp add: ino'_def)
  qed (use it(1) in auto)
qed

section \<open>Appending a cluster\<close>

lemma inodeAlloc_pool:
  "slot_pool (\<lambda>s :: 'z kfat_scheme. bm_used (inodeBitmap s)) INODE_NUM inodeAlloc (\<lambda>n. inodeFree (of_nat n)) (\<lambda>s. length (inodeBitmap s) = 16)"
proof
  fix s s' :: "'z kfat_scheme" and n
  assume ok: "length (inodeBitmap s) = 16"
  show b: "bm_used (inodeBitmap s) \<subseteq> {..<INODE_NUM}" using ok bm_used_bound [of _ "inodeBitmap s"] by auto
  show "n < INODE_NUM \<and> n \<notin> bm_used (inodeBitmap s)" if "inodeAlloc s = Some (n, s')"
    using that bitmap_alloc_Some [of "inodeBitmap s" 0] ok by (fastforce simp: inodeAlloc_def bind_simps)
  show "bm_used (inodeBitmap s') = insert n (bm_used (inodeBitmap s)) \<and> length (inodeBitmap s') = 16" if "inodeAlloc s = Some (n, s')"
    using that bitmap_alloc_Some [of "inodeBitmap s" 0] ok by (fastforce simp: inodeAlloc_def bind_simps)
  show "bm_used (inodeBitmap s) = {..<INODE_NUM}" if "inodeAlloc s = None"
    using that ok b bitmap_alloc_None [of "inodeBitmap s" 0] by (auto simp: inodeAlloc_def bind_simps)
  show "\<exists>s'. inodeFree (of_nat n) s = Some s' \<and> bm_used (inodeBitmap s') = bm_used (inodeBitmap s) - {n} \<and> length (inodeBitmap s') = 16"
    if n: "n \<in> bm_used (inodeBitmap s)"
  proof -
    have "n < INODE_NUM" using b n by auto
    moreover from this have "bitmap_test (inodeBitmap s) n" using n ok bitmap_test_used [of n "inodeBitmap s"] by simp
    ultimately show ?thesis using bitmap_free_Some [of n "inodeBitmap s"] ok by (auto simp: inodeFree_def)
  qed
qed

interpretation inode_pool: slot_pool "\<lambda>s :: 'z kfat_scheme. bm_used (inodeBitmap s)" INODE_NUM inodeAlloc
    "\<lambda>n. inodeFree (of_nat n)" "\<lambda>s. length (inodeBitmap s) = 16"
  by (rule inodeAlloc_pool)

lemma inodeAlloc_run:
  fixes s :: "'z kfat_scheme"
  assumes l: "length (inodeBitmap s) = 16" and c: "card (bm_used (inodeBitmap s)) < INODE_NUM"
  obtains i bm where "bitmap_alloc (inodeBitmap s) 0 = Some (i, bm)" "i < INODE_NUM" "i \<notin> bm_used (inodeBitmap s)"
    "bm_used bm = insert i (bm_used (inodeBitmap s))" "length bm = 16"
proof -
  obtain i s' where a: "inodeAlloc s = Some (i, s')" using inode_pool.alloc_succeeds [OF l c] by auto
  then have "bitmap_alloc (inodeBitmap s) 0 = Some (i, inodeBitmap s')" by (auto simp: inodeAlloc_def bind_simps)
  then show thesis using that [of i "inodeBitmap s'"] a inode_pool.alloc_fresh [OF l a] inode_pool.alloc_used [OF l a] by simp
qed

text \<open>The clusters the index of an entry holds.\<close>

abbreviation items :: "nat \<Rightarrow> 'z kfat_scheme \<Rightarrow> Inode" where
  "items ep s \<equiv> d_inode (dirents s ep)"

definition index_abs :: "nat \<Rightarrow> u32 list \<Rightarrow> 'z kfat_scheme \<Rightarrow> bool" where
  "index_abs ep cs s \<longleftrightarrow> unat (inodeMaxCluster (dirents s ep)) = length cs \<and> length cs \<le> INODE_THIRD_LEVEL_TOP
     \<and> length (inodeBitmap s) = 16
     \<and> shape_ok (items ep s) (inodes s) (bm_used (inodeBitmap s)) (nleaf (length cs))
     \<and> (\<forall>k<length cs. item (items ep s) (inodes s) k = cs ! k)"

lemma nleaf_eqs:
  "k < 8 \<Longrightarrow> nleaf (Suc k) = 0 \<and> nleaf k = 0"
  "x < 64 \<Longrightarrow> nleaf (Suc (8 + 64 * q + x)) = Suc q"
  "x < 64 \<Longrightarrow> nleaf (8 + 64 * q + x) = (if x = 0 then q else Suc q)"
  unfolding nleaf_def by auto

text \<open>The position after the last, with its leaf in place, is filled.\<close>

lemma index_write:
  fixes c :: u32
  assumes s: "shape_ok it ino U (Suc q)" and x: "x < 64" and k: "length cs = 8 + 64 * q + x"
    and old: "\<And>j. j < length cs \<Longrightarrow> item it ino j = cs ! j"
  defines "ino' \<equiv> ino(leaf it ino q := (ino (leaf it ino q))(x := c))"
  shows "shape_ok it ino' U (nleaf (length (cs @ [c])))" "\<forall>j<length (cs @ [c]). item it ino' j = (cs @ [c]) ! j"
proof -
  have n: "nleaf (length (cs @ [c])) = Suc q" using nleaf_eqs(2) [OF x] k by simp
  show "shape_ok it ino' U (nleaf (length (cs @ [c])))" unfolding n ino'_def by (rule shape_write [OF s]) simp
  show "\<forall>j<length (cs @ [c]). item it ino' j = (cs @ [c]) ! j"
  proof (intro allI impI)
    fix j assume j: "j < length (cs @ [c])"
    then have "in_leaves (Suc q) j" using in_leaves_nleaf [of j "length (cs @ [c])"] n by simp
    then show "item it ino' j = (cs @ [c]) ! j"
      using item_write [OF s _ x, of q j c] old [of j] j k by (auto simp: ino'_def nth_append less_Suc_eq)
  qed
qed

abbreviation grown :: "u32 \<Rightarrow> Inode \<Rightarrow> Dirent \<Rightarrow> Dirent" where
  "grown c it e \<equiv> e\<lparr>cur_clus := c, clus_cnt := clus_cnt e + 1, inodeMaxCluster := inodeMaxCluster e + 1, d_inode := it\<rparr>"

lemma index_finish:
  assumes "index_abs ep cs s" "length cs < INODE_THIRD_LEVEL_TOP" "dirents s' ep = grown c it (dirents s ep)" "length (inodeBitmap s') = 16"
    and "shape_ok it (inodes s') (bm_used (inodeBitmap s')) (nleaf (length (cs @ [c])))"
    and "\<forall>j<length (cs @ [c]). item it (inodes s') j = (cs @ [c]) ! j"
  shows "index_abs ep (cs @ [c]) s'"
proof -
  have "unat (inodeMaxCluster (dirents s ep)) = length cs" using assms(1) by (simp add: index_abs_def)
  then have "unat (inodeMaxCluster (dirents s ep) + 1) = Suc (length cs)"
    using assms(2) unat_add_lem [of "inodeMaxCluster (dirents s ep)" 1] by simp
  then show ?thesis using assms by (simp add: index_abs_def)
qed

text \<open>The runs of \<^verbatim>\<open>add_cluster\<close>: a direct item, a leaf in place, a new leaf of the entry, a new leaf of a block in the middle, and both new.\<close>

lemma add_direct:
  assumes "clus_cnt (dirents s ep) + 1 = inodeMaxCluster (dirents s ep)" "unat (inodeMaxCluster (dirents s ep)) = pos" "pos < 8"
  shows "add_cluster ep c s = Some (s\<lparr>dirents := (dirents s)(ep := grown c ((items ep s)(pos := c)) (dirents s ep))\<rparr>)"
  using assms by (simp add: add_cluster_def Let_def)

lemma add_second_old:
  assumes "clus_cnt (dirents s ep) + 1 = inodeMaxCluster (dirents s ep)" "unat (inodeMaxCluster (dirents s ep)) = pos"
    and "\<not> pos < 8" "pos < 1032" "(pos - 8) mod 64 = x" "x \<noteq> 0" "unat (items ep s (8 + (pos - 8) div 64)) = l" "l < INODE_NUM"
  shows "add_cluster ep c s = Some (s\<lparr>dirents := (dirents s)(ep := grown c (items ep s) (dirents s ep)),
    inodes := (inodes s)(l := (inodes s l)(x := c))\<rparr>)"
  using assms by (simp add: add_cluster_def Let_def inode_set_def)

lemma add_second_new:
  assumes "clus_cnt (dirents s ep) + 1 = inodeMaxCluster (dirents s ep)" "unat (inodeMaxCluster (dirents s ep)) = pos"
    and "\<not> pos < 8" "pos < 1032" "(pos - 8) mod 64 = 0" "bitmap_alloc (inodeBitmap s) 0 = Some (i, bm)" "i < INODE_NUM"
  shows "add_cluster ep c s = Some (s\<lparr>dirents := (dirents s)(ep := grown c ((items ep s)(8 + (pos - 8) div 64 := of_nat i)) (dirents s ep)),
    inodes := (inodes s)(i := (inodes s i)(0 := c)), inodeBitmap := bm\<rparr>)"
  using assms by (simp add: add_cluster_def Let_def inode_set_def inodeAlloc_def)

lemma add_third_old:
  assumes "clus_cnt (dirents s ep) + 1 = inodeMaxCluster (dirents s ep)" "unat (inodeMaxCluster (dirents s ep)) = pos"
    and "\<not> pos < 1032" "pos < INODE_THIRD_LEVEL_TOP" "(pos - 1032) mod 64 = x" "x \<noteq> 0" "(pos - 1032) div 64 div 64 = m" "(pos - 1032) div 64 mod 64 = t"
    and "mid (items ep s) m < INODE_NUM" "unat (inodes s (mid (items ep s) m) t) = l" "l < INODE_NUM"
  shows "add_cluster ep c s = Some (s\<lparr>dirents := (dirents s)(ep := grown c (items ep s) (dirents s ep)),
    inodes := (inodes s)(l := (inodes s l)(x := c))\<rparr>)"
  using assms by (simp add: add_cluster_def Let_def inode_set_def inode_get_def mid_def)

lemma add_third_leaf:
  assumes "clus_cnt (dirents s ep) + 1 = inodeMaxCluster (dirents s ep)" "unat (inodeMaxCluster (dirents s ep)) = pos"
    and "\<not> pos < 1032" "pos < INODE_THIRD_LEVEL_TOP" "(pos - 1032) mod 64 = 0" "(pos - 1032) div 64 div 64 = m" "(pos - 1032) div 64 mod 64 = t" "t \<noteq> 0"
    and "mid (items ep s) m = w" "w < INODE_NUM" "bitmap_alloc (inodeBitmap s) 0 = Some (i, bm)" "i < INODE_NUM"
  shows "add_cluster ep c s = Some (s\<lparr>dirents := (dirents s)(ep := grown c (items ep s) (dirents s ep)),
    inodes := (let ino = (inodes s)(w := (inodes s w)(t := of_nat i)) in ino(i := (ino i)(0 := c))), inodeBitmap := bm\<rparr>)"
  using assms by (simp add: add_cluster_def Let_def inode_set_def inode_get_def mid_def inodeAlloc_def)

lemma add_third_both:
  assumes "clus_cnt (dirents s ep) + 1 = inodeMaxCluster (dirents s ep)" "unat (inodeMaxCluster (dirents s ep)) = pos"
    and "\<not> pos < 1032" "pos < INODE_THIRD_LEVEL_TOP" "(pos - 1032) mod 64 = 0" "(pos - 1032) div 64 div 64 = m" "(pos - 1032) div 64 mod 64 = 0"
    and "bitmap_alloc (inodeBitmap s) 0 = Some (w, bm)" "w < INODE_NUM" "bitmap_alloc bm 0 = Some (i, bm')" "i < INODE_NUM"
  shows "add_cluster ep c s = Some (s\<lparr>dirents := (dirents s)(ep := grown c ((items ep s)(24 + m := of_nat w)) (dirents s ep)),
    inodes := (let ino = (inodes s)(w := (inodes s w)(0 := of_nat i)) in ino(i := (ino i)(0 := c))), inodeBitmap := bm'\<rparr>)"
  using assms by (simp add: add_cluster_def Let_def inode_set_def inode_get_def inodeAlloc_def)

text \<open>The state after a cluster was appended: only the entry and its own or new blocks have changed.\<close>

definition appended :: "nat \<Rightarrow> u32 list \<Rightarrow> u32 \<Rightarrow> 'z kfat_scheme \<Rightarrow> 'z kfat_scheme \<Rightarrow> bool" where
  "appended ep cs c s s' \<longleftrightarrow> index_abs ep (cs @ [c]) s'
     \<and> (\<exists>it. dirents s' = (dirents s)(ep := grown c it (dirents s ep)))
     \<and> bm_used (inodeBitmap s) \<subseteq> bm_used (inodeBitmap s')
     \<and> (\<forall>b \<in> bm_used (inodeBitmap s). b \<notin> iblocks (items ep s) (inodes s) (nleaf (length cs)) \<longrightarrow> inodes s' b = inodes s b)"

lemma iblocks_leaf: "q < n \<Longrightarrow> leaf it ino q \<in> iblocks it ino n"
  and iblocks_mid: "j < nmid n \<Longrightarrow> mid it j \<in> iblocks it ino n"
  by (auto simp: iblocks_def)

text \<open>A new leaf is in place, and its first item is written.\<close>

lemma append_new:
  assumes ix: "index_abs ep cs s" and q: "length cs = 8 + 64 * q" "length cs < INODE_THIRD_LEVEL_TOP"
    and g: "shape_ok it ino' U' (Suc q)" "leaf it ino' q = i"
      "\<And>k. in_leaves q k \<Longrightarrow> item it ino' k = item (items ep s) (inodes s) k"
    and i: "i \<notin> bm_used (inodeBitmap s)" and U: "bm_used bm = U'" "bm_used (inodeBitmap s) \<subseteq> U'" "length bm = 16"
    and fr: "\<And>b. b \<in> bm_used (inodeBitmap s) \<Longrightarrow> b \<notin> iblocks (items ep s) (inodes s) (nleaf (length cs)) \<Longrightarrow> ino' b = inodes s b"
  shows "appended ep cs c s (s\<lparr>dirents := (dirents s)(ep := grown c it (dirents s ep)), inodes := ino'(i := (ino' i)(0 := c)), inodeBitmap := bm\<rparr>)"
proof -
  have n: "nleaf (length cs) = q" using nleaf_eqs(3) [of 0 q] q(1) by simp
  have old: "item it ino' j = cs ! j" if "j < length cs" for j
    using ix that g(3) [of j] in_leaves_nleaf [OF that] n by (simp add: index_abs_def)
  have w: "shape_ok it (ino'(i := (ino' i)(0 := c))) U' (nleaf (length (cs @ [c])))"
    "\<forall>j<length (cs @ [c]). item it (ino'(i := (ino' i)(0 := c))) j = (cs @ [c]) ! j"
    using index_write [OF g(1), of 0 cs c] q(1) old g(2) by simp_all
  let ?s = "s\<lparr>dirents := (dirents s)(ep := grown c it (dirents s ep)), inodes := ino'(i := (ino' i)(0 := c)), inodeBitmap := bm\<rparr>"
  have ix': "index_abs ep (cs @ [c]) ?s"
    by (rule index_finish [OF ix q(2), where it = it]) (use w U in simp_all)
  have "\<exists>it. dirents ?s = (dirents s)(ep := grown c it (dirents s ep))" by auto
  moreover have "\<forall>b \<in> bm_used (inodeBitmap s). b \<notin> iblocks (items ep s) (inodes s) (nleaf (length cs)) \<longrightarrow> inodes ?s b = inodes s b"
    using fr i by auto
  ultimately show ?thesis using ix' U unfolding appended_def by simp
qed

text \<open>An item of a leaf that was there is written.\<close>

lemma append_old:
  assumes ix: "index_abs ep cs s" and q: "length cs = 8 + 64 * q + x" "x < 64" "x \<noteq> 0" "length cs < INODE_THIRD_LEVEL_TOP"
    and l: "leaf (items ep s) (inodes s) q = l"
  shows "appended ep cs c s (s\<lparr>dirents := (dirents s)(ep := grown c (items ep s) (dirents s ep)), inodes := (inodes s)(l := (inodes s l)(x := c))\<rparr>)"
proof -
  have n: "nleaf (length cs) = Suc q" using nleaf_eqs(3) [OF q(2), of q] q by simp
  have g: "shape_ok (items ep s) (inodes s) (bm_used (inodeBitmap s)) (Suc q)" using ix n by (simp add: index_abs_def)
  have w: "shape_ok (items ep s) ((inodes s)(l := (inodes s l)(x := c))) (bm_used (inodeBitmap s)) (nleaf (length (cs @ [c])))"
    "\<forall>j<length (cs @ [c]). item (items ep s) ((inodes s)(l := (inodes s l)(x := c))) j = (cs @ [c]) ! j"
    using index_write [OF g q(2,1), of c] ix l by (simp_all add: index_abs_def)
  let ?s = "s\<lparr>dirents := (dirents s)(ep := grown c (items ep s) (dirents s ep)), inodes := (inodes s)(l := (inodes s l)(x := c))\<rparr>"
  have ix': "index_abs ep (cs @ [c]) ?s"
    by (rule index_finish [OF ix q(4), where it = "items ep s"]) (use w ix in \<open>simp_all add: index_abs_def\<close>)
  have "\<exists>it. dirents ?s = (dirents s)(ep := grown c it (dirents s ep))" by (rule exI [of _ "items ep s"]) simp
  moreover have "\<forall>b \<in> bm_used (inodeBitmap s). b \<notin> iblocks (items ep s) (inodes s) (nleaf (length cs)) \<longrightarrow> inodes ?s b = inodes s b"
    using iblocks_leaf [of q "Suc q" "items ep s" "inodes s"] l n by auto
  ultimately show ?thesis using ix' unfolding appended_def by simp
qed

lemma append_direct:
  assumes ix: "index_abs ep cs s" and p: "length cs < 8"
  shows "appended ep cs c s (s\<lparr>dirents := (dirents s)(ep := grown c ((items ep s)(length cs := c)) (dirents s ep))\<rparr>)"
proof -
  let ?it = "(items ep s)(length cs := c)"
  let ?s = "s\<lparr>dirents := (dirents s)(ep := grown c ?it (dirents s ep))\<rparr>"
  have "shape_ok ?it (inodes s) (bm_used (inodeBitmap s)) 0"
    using ix nleaf_eqs(1) [OF p] shape_direct [OF p, of "items ep s" c "inodes s" "bm_used (inodeBitmap s)" 0] by (simp add: index_abs_def)
  moreover have "\<forall>j<length (cs @ [c]). item ?it (inodes s) j = (cs @ [c]) ! j"
    using ix item_direct [OF p, of "items ep s" c "inodes s"] by (auto simp: index_abs_def nth_append less_Suc_eq)
  ultimately have "index_abs ep (cs @ [c]) ?s"
    using p nleaf_eqs(1) [OF p] ix by (intro index_finish [OF ix, where it = ?it]) (simp_all add: index_abs_def)
  moreover have "\<exists>it. dirents ?s = (dirents s)(ep := grown c it (dirents s ep))" by (rule exI [of _ ?it]) simp
  ultimately show ?thesis unfolding appended_def by simp
qed

lemma append_second:
  assumes ix: "index_abs ep cs s" and cnt: "clus_cnt (dirents s ep) + 1 = inodeMaxCluster (dirents s ep)"
    and p: "\<not> length cs < 8" "length cs < 1032" and free: "card (bm_used (inodeBitmap s)) + 2 \<le> INODE_NUM"
  shows "\<exists>s'. add_cluster ep c s = Some s' \<and> appended ep cs c s s'"
proof -
  define q x where "q = (length cs - 8) div 64" and "x = (length cs - 8) mod 64"
  have k: "length cs = 8 + 64 * q + x" "x < 64" "q < 16" "length cs < INODE_THIRD_LEVEL_TOP" 
    using p unfolding q_def x_def by (auto simp: div_less_iff_less_mult)
  have mx: "unat (inodeMaxCluster (dirents s ep)) = length cs" and l16: "length (inodeBitmap s) = 16"
    and sh: "shape_ok (items ep s) (inodes s) (bm_used (inodeBitmap s)) (nleaf (length cs))" using ix by (auto simp: index_abs_def)
  have n: "nleaf (length cs) = (if x = 0 then q else Suc q)" using nleaf_eqs(3) [OF k(2), of q] k(1) by simp
  show ?thesis
  proof (cases "x = 0")
    case False
    have l: "leaf (items ep s) (inodes s) q = unat (items ep s (8 + q))" using k(3) by (simp add: leaf_def)
    have "unat (items ep s (8 + q)) < INODE_NUM" using shape_lt(1) [OF sh, of q] n False l by simp
    then show ?thesis using add_second_old [OF cnt mx p, of x, OF _ False] append_old [OF ix k(1,2) False k(4) l] q_def x_def by auto
  next
    case True
    obtain i bm where i: "bitmap_alloc (inodeBitmap s) 0 = Some (i, bm)" "i < INODE_NUM" "i \<notin> bm_used (inodeBitmap s)"
      "bm_used bm = insert i (bm_used (inodeBitmap s))" "length bm = 16"
      by (rule inodeAlloc_run [OF l16]) (use free in auto)
    have sh': "shape_ok (items ep s) (inodes s) (bm_used (inodeBitmap s)) q" using sh n True by simp
    have q: "length cs = 8 + 64 * q" using k(1) True by simp
    note g = grow_second [OF sh' k(3) i(2,3)]
    have "appended ep cs c s (s\<lparr>dirents := (dirents s)(ep := grown c ((items ep s)(8 + q := of_nat i)) (dirents s ep)),
        inodes := (inodes s)(i := (inodes s i)(0 := c)), inodeBitmap := bm\<rparr>)"
      by (rule append_new [OF ix q k(4) g i(3,4) _ i(5)]) auto
    then show ?thesis using add_second_new [OF cnt mx p _ i(1,2), of c] q_def x_def True by auto
  qed
qed

text \<open>The arithmetic of the third level: position \<open>x\<close> of leaf \<open>16 + r\<close>, at place \<open>t\<close> of block \<open>m\<close>.\<close>

lemma third_level:
  assumes "\<not> k < 1032"
  obtains r x m t where "k = 8 + 64 * (16 + r) + x" "x < 64" "16 + r = 16 + 64 * m + t" "t < 64"
    "(k - 1032) mod 64 = x" "(k - 1032) div 64 div 64 = m" "(k - 1032) div 64 mod 64 = t"
    "nmid (16 + r) = (if t = 0 then m else Suc m)" "nmid (Suc (16 + r)) = Suc m"
    "\<And>it ino. leaf it ino (16 + r) = unat (ino (mid it m) t)"
proof -
  define r x where "r = (k - 1032) div 64" and "x = (k - 1032) mod 64"
  have "(r + 63) div 64 = (if r mod 64 = 0 then r div 64 else Suc (r div 64))" 
  proof -
    have "(b + 63) div 64 = (1 :: nat)" if "b < 64" "b \<noteq> 0" for b :: nat using that by (intro div_nat_eqI) auto
    then show ?thesis using div_add1_eq [of r 63 64] by simp
  qed
  then have "nmid (16 + r) = (if r mod 64 = 0 then r div 64 else Suc (r div 64))" "nmid (Suc (16 + r)) = Suc (r div 64)"
    unfolding nmid_def by simp_all
  then show thesis
    by (intro that [of r x "r div 64" "r mod 64"]) (use assms in \<open>auto simp: r_def x_def leaf_def\<close>)
qed

lemma append_third_leaf:
  assumes ix: "index_abs ep cs s" and cnt: "clus_cnt (dirents s ep) + 1 = inodeMaxCluster (dirents s ep)"
    and p: "\<not> length cs < 1032" "length cs < INODE_THIRD_LEVEL_TOP"
    and q: "length cs = 8 + 64 * (16 + r)" "16 + r = 16 + 64 * m + t" "t < 64" "t \<noteq> 0"
    and d: "(length cs - 1032) mod 64 = 0" "(length cs - 1032) div 64 div 64 = m" "(length cs - 1032) div 64 mod 64 = t"
    and nm: "nmid (16 + r) = Suc m"
    and i: "bitmap_alloc (inodeBitmap s) 0 = Some (i, bm)" "i < INODE_NUM" "i \<notin> bm_used (inodeBitmap s)"
      "bm_used bm = insert i (bm_used (inodeBitmap s))" "length bm = 16"
  shows "\<exists>s'. add_cluster ep c s = Some s' \<and> appended ep cs c s s'"
proof -
  let ?w = "mid (items ep s) m"
  let ?ino = "(inodes s)(?w := (inodes s ?w)(t := of_nat i))"
  have n: "nleaf (length cs) = 16 + r" using nleaf_eqs(3) [of 0 "16 + r"] q(1) by simp
  have mx: "unat (inodeMaxCluster (dirents s ep)) = length cs"
    and sh: "shape_ok (items ep s) (inodes s) (bm_used (inodeBitmap s)) (16 + r)" using ix n by (auto simp: index_abs_def)
  have U: "bm_used (inodeBitmap s) \<subseteq> {..<INODE_NUM}" using sh by (simp add: shape_ok_def)
  have w: "?w < INODE_NUM" "?w \<in> iblocks (items ep s) (inodes s) (nleaf (length cs))"
    using shape_lt(2) [OF sh, of m] nm iblocks_mid [of m "16 + r"] n by simp_all
  have g: "shape_ok (items ep s) ?ino (insert i (bm_used (inodeBitmap s))) (Suc (16 + r))" "leaf (items ep s) ?ino (16 + r) = i"
    "\<And>k. in_leaves (16 + r) k \<Longrightarrow> item (items ep s) ?ino k = item (items ep s) (inodes s) k"
    by (rule grow_third [OF sh q(2,3) refl refl _ subset_refl i(3,2) U]; use q(4) in simp)+
  have "appended ep cs c s (s\<lparr>dirents := (dirents s)(ep := grown c (items ep s) (dirents s ep)),
      inodes := ?ino(i := (?ino i)(0 := c)), inodeBitmap := bm\<rparr>)"
    by (rule append_new [OF ix q(1) p(2) g i(3,4) _ i(5)]) (use w in auto)
  then show ?thesis using add_third_leaf [OF cnt mx p d q(4) refl w(1) i(1,2), of c] unfolding Let_def by blast
qed

lemma append_third_both:
  assumes ix: "index_abs ep cs s" and cnt: "clus_cnt (dirents s ep) + 1 = inodeMaxCluster (dirents s ep)"
    and p: "\<not> length cs < 1032" "length cs < INODE_THIRD_LEVEL_TOP"
    and q: "length cs = 8 + 64 * (16 + r)" "16 + r = 16 + 64 * m + 0"
    and d: "(length cs - 1032) mod 64 = 0" "(length cs - 1032) div 64 div 64 = m" "(length cs - 1032) div 64 mod 64 = 0"
    and nm: "nmid (16 + r) = m"
    and i: "bitmap_alloc (inodeBitmap s) 0 = Some (i, bm)" "i < INODE_NUM" "i \<notin> bm_used (inodeBitmap s)"
      "bm_used bm = insert i (bm_used (inodeBitmap s))"
    and j: "bitmap_alloc bm 0 = Some (j, bm')" "j < INODE_NUM" "j \<notin> insert i (bm_used (inodeBitmap s))"
      "bm_used bm' = insert j (insert i (bm_used (inodeBitmap s)))" "length bm' = 16"
  shows "\<exists>s'. add_cluster ep c s = Some s' \<and> appended ep cs c s s'"
proof -
  let ?it = "(items ep s)(24 + m := of_nat i)"
  let ?ino = "(inodes s)(i := (inodes s i)(0 := of_nat j))"
  have n: "nleaf (length cs) = 16 + r" using nleaf_eqs(3) [of 0 "16 + r"] q(1) by simp
  have mx: "unat (inodeMaxCluster (dirents s ep)) = length cs"
    and sh: "shape_ok (items ep s) (inodes s) (bm_used (inodeBitmap s)) (16 + r)" using ix n by (auto simp: index_abs_def)
  have mi: "mid ?it m = i" using i(2) by (simp add: mid_def)
  have U: "insert i (bm_used (inodeBitmap s)) \<subseteq> {..<INODE_NUM}" "bm_used (inodeBitmap s) \<subseteq> insert i (bm_used (inodeBitmap s))"
    using sh i(2) by (auto simp: shape_ok_def)
  have z: "0 < (64 :: nat)" by simp
  have it: "\<And>j. j < 24 \<Longrightarrow> ?it j = items ep s j" "\<And>j. j < nmid (16 + r) \<Longrightarrow> ?it (24 + j) = items ep s (24 + j)" using nm by simp_all
  have w: "0 \<noteq> (0 :: nat) \<or> mid ?it m \<notin> bm_used (inodeBitmap s) \<and> mid ?it m \<in> insert i (bm_used (inodeBitmap s))" using i(3) mi by simp
  note g = grow_third [OF sh q(2) z it w U(2) j(3,2) U(1), unfolded mi]
  have "appended ep cs c s (s\<lparr>dirents := (dirents s)(ep := grown c ?it (dirents s ep)),
      inodes := ?ino(j := (?ino j)(0 := c)), inodeBitmap := bm'\<rparr>)"
    by (rule append_new [OF ix q(1) p(2) g _ j(4) _ j(5)]) (use i(3) j(3) in auto)
  then show ?thesis using add_third_both [OF cnt mx p d i(1,2) j(1,2), of c] unfolding Let_def by blast
qed

lemma append_third:
  assumes ix: "index_abs ep cs s" and cnt: "clus_cnt (dirents s ep) + 1 = inodeMaxCluster (dirents s ep)"
    and p: "\<not> length cs < 1032" "length cs < INODE_THIRD_LEVEL_TOP" and free: "card (bm_used (inodeBitmap s)) + 2 \<le> INODE_NUM"
  shows "\<exists>s'. add_cluster ep c s = Some s' \<and> appended ep cs c s s'"
proof -
  obtain r x m t where r: "length cs = 8 + 64 * (16 + r) + x" "x < 64" "16 + r = 16 + 64 * m + t" "t < 64"
    and d: "(length cs - 1032) mod 64 = x" "(length cs - 1032) div 64 div 64 = m" "(length cs - 1032) div 64 mod 64 = t"
    and nm: "nmid (16 + r) = (if t = 0 then m else Suc m)" "nmid (Suc (16 + r)) = Suc m"
    and lf: "\<And>it ino. leaf it ino (16 + r) = unat (ino (mid it m) t)"
    by (rule third_level [OF p(1)]) (rule that)
  have mx: "unat (inodeMaxCluster (dirents s ep)) = length cs" and l16: "length (inodeBitmap s) = 16"
    and sh: "shape_ok (items ep s) (inodes s) (bm_used (inodeBitmap s)) (nleaf (length cs))" using ix by (auto simp: index_abs_def)
  have n: "nleaf (length cs) = (if x = 0 then 16 + r else Suc (16 + r))" using nleaf_eqs(3) [OF r(2), of "16 + r"] r(1) by simp
  show ?thesis
  proof (cases "x = 0")
    case False
    have "mid (items ep s) m < INODE_NUM" "unat (inodes s (mid (items ep s) m) t) < INODE_NUM"
      using shape_lt [OF sh] n False lf [of "items ep s" "inodes s"] nm by (simp, metis lessI n)
    then show ?thesis using add_third_old [OF cnt mx p d(1) False d(2,3)] append_old [OF ix r(1,2) False p(2) lf] by blast
  next
    case True
    obtain i bm where i: "bitmap_alloc (inodeBitmap s) 0 = Some (i, bm)" "i < INODE_NUM" "i \<notin> bm_used (inodeBitmap s)"
      "bm_used bm = insert i (bm_used (inodeBitmap s))" "length bm = 16"
      by (rule inodeAlloc_run [OF l16]) (use free in auto)
    have q: "length cs = 8 + 64 * (16 + r)" "(length cs - 1032) mod 64 = 0" using r(1) d(1) True by simp_all
    show ?thesis
    proof (cases "t = 0")
      case False
      then show ?thesis using append_third_leaf [OF ix cnt p q(1) r(3,4) False q(2) d(2,3) _ i] nm by simp
    next
      case True
      obtain j bm' where j: "bitmap_alloc bm 0 = Some (j, bm')" "j < INODE_NUM" "j \<notin> bm_used bm"
        "bm_used bm' = insert j (bm_used bm)" "length bm' = 16"
        by (rule inodeAlloc_run [of "s\<lparr>inodeBitmap := bm\<rparr>"]) (use free i in \<open>auto simp: card_insert_if bm_used_finite\<close>)
      show ?thesis using append_third_both [OF ix cnt p q(1) _ q(2) d(2) _ _ i(1-4) j(1,2) _ _ j(5)] r(3) d(3) nm True j(3,4) i(4) by simp
    qed
  qed
qed

section \<open>Properties\<close>

text \<open>
  C11: appending a cluster to an entry's index succeeds while the pool has two free blocks, at every
  position up to the largest index; afterwards \<^verbatim>\<open>eFindInode\<close> finds the new cluster at the new position and
  the old ones where they were, the blocks of the index are still distinct and taken, and no block of
  another index has changed.
\<close>

theorem add_cluster_correct:
  assumes ix: "index_abs ep cs s" and cnt: "clus_cnt (dirents s ep) + 1 = inodeMaxCluster (dirents s ep)"
    and p: "length cs < INODE_THIRD_LEVEL_TOP" and free: "card (bm_used (inodeBitmap s)) + 2 \<le> INODE_NUM"
  shows "\<exists>s'. add_cluster ep c s = Some s' \<and> appended ep cs c s s'
    \<and> (\<forall>k<length (cs @ [c]). \<exists>t. eFindInode ep (of_nat k) s' = Some t \<and> cur_clus (dirents t ep) = (cs @ [c]) ! k)"
proof -
  have "\<exists>s'. add_cluster ep c s = Some s' \<and> appended ep cs c s s'"
  proof -
    consider "length cs < 8" | "\<not> length cs < 8" "length cs < 1032" | "\<not> length cs < 1032" by blast
    then show ?thesis
    proof cases
      case 1
      then show ?thesis using add_direct [OF cnt _ 1] append_direct [OF ix 1] ix by (auto simp: index_abs_def)
    next
      case 2
      then show ?thesis using append_second [OF ix cnt _ _ free] by blast
    next
      case 3
      then show ?thesis using append_third [OF ix cnt _ p free] by blast
    qed
  qed
  then obtain s' where s': "add_cluster ep c s = Some s'" "appended ep cs c s s'" by blast
  have ix': "index_abs ep (cs @ [c]) s'" using s'(2) by (simp add: appended_def)
  have "\<exists>t. eFindInode ep (of_nat k) s' = Some t \<and> cur_clus (dirents t ep) = (cs @ [c]) ! k" if k: "k < length (cs @ [c])" for k
  proof -
    have m: "unat (inodeMaxCluster (dirents s' ep)) = length (cs @ [c])" and le: "length (cs @ [c]) \<le> INODE_THIRD_LEVEL_TOP"
      using ix' by (auto simp: index_abs_def)
    have sh: "shape_ok (items ep s') (inodes s') (bm_used (inodeBitmap s')) (nleaf (length (cs @ [c])))"
      using ix' by (simp only: index_abs_def)
    have u: "unat (of_nat k :: u32) = k" using k le by (simp add: unat_of_nat)
    have "cluster_at ep k s' = Some (item (items ep s') (inodes s') k)"
      by (rule cluster_at_item [OF sh k le])
    then have "cluster_at ep k s' = Some ((cs @ [c]) ! k)" using ix' k by (simp add: index_abs_def)
    then show ?thesis using u k m by (simp add: eFindInode_def word_less_nat_alt)
  qed
  then show ?thesis using s' by blast
qed

theorem add_cluster_correct_witness:
  "\<exists>s' t. add_cluster 7 42 (upd_dirent 7 (\<lambda>e. e\<lparr>clus_cnt := 0, inodeMaxCluster := 1, d_inode := (\<lambda>_. 9)\<rparr>) small_kfat) = Some s'
     \<and> eFindInode 7 1 s' = Some t \<and> cur_clus (dirents t 7) = 42"
proof -
  let ?s = "upd_dirent 7 (\<lambda>e. e\<lparr>clus_cnt := 0, inodeMaxCluster := 1, d_inode := (\<lambda>_. 9)\<rparr>) small_kfat"
  have bm: "bm_used (replicate 16 0) = {}" by (auto simp: bm_used_def)
  have "index_abs 7 [9] ?s" by (simp add: index_abs_def bm shape_ok_def iblocks_def item_def nleaf_def)
  then obtain s' where "add_cluster 7 42 ?s = Some s'"
    and f: "\<forall>k<length ([9] @ [42]). \<exists>t. eFindInode 7 (of_nat k) s' = Some t \<and> cur_clus (dirents t 7) = ([9] @ [42 :: u32]) ! k"
    using add_cluster_correct [of 7 "[9]" ?s 42] by (auto simp: bm)
  moreover from f obtain t where "eFindInode 7 1 s' = Some t" "cur_clus (dirents t 7) = 42" by (auto dest!: spec [of _ 1])
  ultimately show ?thesis by blast
qed

end
