(* ===== verification/Pipe_Queue.thy ===== *)
theory Pipe_Queue
  imports Pipe
begin


section \<open>Bounded queues\<close>

locale fifo =
  fixes ok :: "'s \<Rightarrow> bool" and contents :: "'s \<Rightarrow> 'a list" and cap :: nat
    and put :: "'a \<Rightarrow> 's \<Rightarrow> 's" and get :: "'s \<Rightarrow> 'a \<times> 's"
  assumes bound: "ok s \<Longrightarrow> length (contents s) \<le> cap"
    and put_law: "ok s \<Longrightarrow> length (contents s) < cap \<Longrightarrow> ok (put x s) \<and> contents (put x s) = contents s @ [x]"
    and get_law: "ok s \<Longrightarrow> contents s = x # xs \<Longrightarrow> fst (get s) = x \<and> ok (snd (get s)) \<and> contents (snd (get s)) = xs"
begin

lemma put_many:
  "ok s \<Longrightarrow> length (contents s) + length xs \<le> cap \<Longrightarrow>
     ok (fold put xs s) \<and> contents (fold put xs s) = contents s @ xs"
proof (induction xs arbitrary: s)
  case (Cons x xs)
  then have "ok (put x s)" "contents (put x s) = contents s @ [x]" using put_law [of s x] by auto
  with Cons show ?case by simp
qed simp

primrec get_many :: "nat \<Rightarrow> 's \<Rightarrow> 'a list \<times> 's" where
  "get_many 0 s = ([], s)"
| "get_many (Suc n) s = (let (x, s) = get s; (xs, s) = get_many n s in (x # xs, s))"

lemma get_many_take:
  "ok s \<Longrightarrow> n \<le> length (contents s) \<Longrightarrow>
     fst (get_many n s) = take n (contents s) \<and> contents (snd (get_many n s)) = drop n (contents s)
       \<and> ok (snd (get_many n s))"
proof (induction n arbitrary: s)
  case (Suc n)
  then obtain x xs where c: "contents s = x # xs" by (cases "contents s") auto
  note g = get_law [OF Suc.prems(1) c]
  have "n \<le> length (contents (snd (get s)))" using g Suc.prems c by simp
  from Suc.IH [OF _ this] g c show ?case by (simp add: split_def Let_def)
qed simp

text \<open>What goes in comes out, in order.\<close>

lemma put_get_round_trip:
  assumes "ok s" "contents s = []" "length xs \<le> cap"
  shows "fst (get_many (length xs) (fold put xs s)) = xs"
  using put_many [of s xs] get_many_take [of "fold put xs s" "length xs"] assms by simp

end

section \<open>A pipe is a bounded queue\<close>

definition pipe_len :: "pipe \<Rightarrow> nat" where
  "pipe_len p = unat (nwrite p - nread p)"

definition pipe_ok :: "pipe \<Rightarrow> bool" where
  "pipe_ok p \<longleftrightarrow> pipe_len p \<le> 65536"

definition pipe_contents :: "pipe \<Rightarrow> u8 list" where
  "pipe_contents p = map (\<lambda>k. pi_data p (unat ((nread p + of_nat k) AND (PIPESIZE - 1)))) [0..<pipe_len p]"

lemma length_pipe_contents [simp]: "length (pipe_contents p) = pipe_len p"
  by (simp add: pipe_contents_def)

lemma ring_index: "unat ((a :: u64) AND 0xFFFF) = unat a mod 65536"
proof -
  have "a AND 0xFFFF = take_bit 16 a" by (simp add: take_bit_eq_mask mask_eq_exp_minus_1)
  then show ?thesis using unat_take_bit [of 16 a] by simp
qed

text \<open>Positions less than a ring apart have different slots, also where the counters wrap.\<close>

lemma ring_index_inj:
  fixes a b :: u64
  assumes "unat a mod 65536 = unat b mod 65536" "unat (a - b) < 65536"
  shows "a = b"
proof -
  let ?d = "unat (a - b)"
  have "unat a = (unat b + ?d) mod 2 ^ 64" using unat_word_ariths(1) [of b "a - b"] by simp
  then have "unat a mod 65536 = (unat b + ?d) mod 2 ^ 64 mod 65536" by (rule arg_cong)
  also have "\<dots> = (unat b + ?d) mod 65536" by (rule mod_mod_cancel) simp
  finally have "(unat b + ?d) mod 65536 = unat b mod 65536" using assms(1) by simp
  then have "65536 dvd (unat b + ?d) - unat b" by (subst (asm) mod_eq_dvd_iff_nat) simp_all
  then have "65536 dvd ?d" by simp
  then have "?d = 0" using assms(2) by (auto dest: dvd_imp_le)
  then show "a = b" by (simp add: unat_eq_zero)
qed

definition pipe_push :: "u8 \<Rightarrow> pipe \<Rightarrow> pipe" where
  "pipe_push ch p = p\<lparr>pi_data := (pi_data p)(unat (nwrite p AND (PIPESIZE - 1)) := ch), nwrite := nwrite p + 1\<rparr>"

definition pipe_pop :: "pipe \<Rightarrow> u8 \<times> pipe" where
  "pipe_pop p = (pi_data p (unat (nread p AND (PIPESIZE - 1))), p\<lparr>nread := nread p + 1\<rparr>)"

lemma pipe_put_push: "pipe_put pi ch s = upd_pipe pi (pipe_push ch) s"
  by (simp add: pipe_put_def pipe_push_def)

lemma pipe_get_pop:
  "pipe_get pi s = (fst (pipe_pop (pipeBuffer s pi)), upd_pipe pi (\<lambda>p. snd (pipe_pop p)) s)"
  by (simp add: pipe_get_def pipe_pop_def Let_def)

lemma pipe_len_push: "pipe_len p < 65536 \<Longrightarrow> pipe_len (pipe_push ch p) = Suc (pipe_len p)"
proof -
  assume l: "pipe_len p < 65536"
  have e: "nwrite p + 1 - nread p = (nwrite p - nread p) + 1" by simp
  have "pipe_len (pipe_push ch p) = unat (nwrite p + 1 - nread p)" by (simp add: pipe_len_def pipe_push_def)
  also have "\<dots> = unat (nwrite p - nread p) + unat (1 :: u64)"
    unfolding e using l by (subst unat_add64) (simp_all add: pipe_len_def)
  finally show ?thesis by (simp add: pipe_len_def)
qed

lemma pipe_contents_push:
  assumes "pipe_len p < 65536"
  shows "pipe_contents (pipe_push ch p) = pipe_contents p @ [ch]"
proof (rule nth_equalityI)
  show "length (pipe_contents (pipe_push ch p)) = length (pipe_contents p @ [ch])"
    by (simp add: pipe_len_push [OF assms])
  fix k assume k: "k < length (pipe_contents (pipe_push ch p))"
  then have k': "k \<le> pipe_len p" by (simp add: pipe_len_push [OF assms])
  have w: "nwrite p = nread p + of_nat (pipe_len p)" by (simp add: pipe_len_def)
  have same: "unat (nread p + of_nat k) mod 65536 = unat (nwrite p) mod 65536 \<longleftrightarrow> k = pipe_len p"
  proof
    assume e: "unat (nread p + of_nat k) mod 65536 = unat (nwrite p) mod 65536"
    have "nwrite p - (nread p + of_nat k) = of_nat (pipe_len p - k)" using k' by (simp add: w of_nat_diff)
    then have "unat (nwrite p - (nread p + of_nat k)) = pipe_len p - k" using assms by (simp add: unat_of_nat)
    then have "nwrite p = nread p + of_nat k" using ring_index_inj [OF e [symmetric]] assms by simp
    then have "of_nat (pipe_len p) = (of_nat k :: u64)" using w by simp
    then have "unat (of_nat (pipe_len p) :: u64) = unat (of_nat k :: u64)" by simp
    then show "k = pipe_len p" using assms k' by (simp add: unat_of_nat)
  qed (simp add: w)
  show "pipe_contents (pipe_push ch p) ! k = (pipe_contents p @ [ch]) ! k"
    using k k' same
    by (auto simp: pipe_contents_def pipe_len_push [OF assms] nth_append ring_index)
       (auto simp: pipe_push_def ring_index)
qed

lemma pipe_pop_cons:
  assumes "pipe_contents p = x # xs"
  shows "fst (pipe_pop p) = x" and "pipe_contents (snd (pipe_pop p)) = xs"
    and "pipe_len (snd (pipe_pop p)) = pipe_len p - 1"
proof -
  have l: "pipe_len p = Suc (length xs)" using arg_cong [OF assms, of length] by simp
  then have up: "[0..<pipe_len p] = 0 # map Suc [0..<length xs]"
    by (simp add: upt_conv_Cons map_Suc_upt del: upt_Suc)
  show "fst (pipe_pop p) = x" using assms unfolding pipe_contents_def up by (simp add: pipe_pop_def)
  have e: "nwrite p - (nread p + 1) = (nwrite p - nread p) - 1" by simp
  have nz: "nwrite p - nread p \<noteq> 0" using l by (auto simp: pipe_len_def)
  have "pipe_len (snd (pipe_pop p)) = unat (nwrite p - (nread p + 1))" by (simp add: pipe_len_def pipe_pop_def)
  also have "\<dots> = pipe_len p - 1" unfolding e by (simp only: unat_minus_one [OF nz] pipe_len_def)
  finally show l': "pipe_len (snd (pipe_pop p)) = pipe_len p - 1" .
  show "pipe_contents (snd (pipe_pop p)) = xs"
    using assms l l' unfolding pipe_contents_def up by (auto simp: pipe_pop_def comp_def ac_simps)
qed

interpretation pq: fifo pipe_ok pipe_contents 65536 pipe_push pipe_pop
  by unfold_locales
     (auto simp: pipe_ok_def pipe_contents_push pipe_len_push pipe_pop_cons)

lemma pipe_full_iff: "pipe_ok p \<Longrightarrow> nwrite p = nread p + PIPESIZE \<longleftrightarrow> pipe_len p = 65536"
proof -
  assume "pipe_ok p"
  have "nwrite p = nread p + PIPESIZE \<longleftrightarrow> nwrite p - nread p = PIPESIZE" by (simp add: diff_eq_eq add.commute)
  also have "\<dots> \<longleftrightarrow> pipe_len p = 65536" by (simp add: pipe_len_def word_unat_eq_iff)
  finally show ?thesis .
qed

lemma pipe_empty_iff: "nread p = nwrite p \<longleftrightarrow> pipe_contents p = []"
  by (metis eq_iff_diff_eq_0 length_0_conv length_pipe_contents pipe_len_def unat_eq_zero)

section \<open>Interleaved readers and writers\<close>

text \<open>
  Any interleaving of the byte steps of writers and readers of pipe \<open>pi\<close>, each guarded by the test
  the code makes, with steps that leave the pipe alone: \<open>w\<close> are the bytes put, \<open>r\<close> the
  bytes got.
\<close>

inductive pipe_trace :: "nat \<Rightarrow> 'z kpipe_scheme \<Rightarrow> u8 list \<Rightarrow> u8 list \<Rightarrow> 'z kpipe_scheme \<Rightarrow> bool" for pi s where
  start: "pipe_trace pi s [] [] s"
| put: "pipe_trace pi s w r t \<Longrightarrow> nwrite (pipeBuffer t pi) \<noteq> nread (pipeBuffer t pi) + PIPESIZE \<Longrightarrow>
    pipe_trace pi s (w @ [ch]) r (pipe_put pi ch t)"
| got: "pipe_trace pi s w r t \<Longrightarrow> nread (pipeBuffer t pi) \<noteq> nwrite (pipeBuffer t pi) \<Longrightarrow>
    pipe_get pi t = (ch, u) \<Longrightarrow> pipe_trace pi s w (r @ [ch]) u"
| other: "pipe_trace pi s w r t \<Longrightarrow> pipeBuffer u pi = pipeBuffer t pi \<Longrightarrow> pipe_trace pi s w r u"

lemma pipe_trace_fifo:
  "pipe_trace pi s w r t \<Longrightarrow> pipe_ok (pipeBuffer s pi) \<Longrightarrow>
     pipe_ok (pipeBuffer t pi) \<and> pipe_contents (pipeBuffer s pi) @ w = r @ pipe_contents (pipeBuffer t pi)"
proof (induction rule: pipe_trace.induct)
  case start
  then show ?case by simp
next
  case (put w r t ch)
  then have "pipe_len (pipeBuffer t pi) < 65536"
    using pipe_full_iff [of "pipeBuffer t pi"] by (auto simp: pipe_ok_def)
  then show ?case using put pq.put_law [of "pipeBuffer t pi" ch] by (auto simp: pipe_put_push)
next
  case (got w r t ch u)
  then obtain x xs where c: "pipe_contents (pipeBuffer t pi) = x # xs"
    using pipe_empty_iff [of "pipeBuffer t pi"] by (cases "pipe_contents (pipeBuffer t pi)") auto
  then show ?case using got pq.get_law [OF _ c] by (auto simp: pipe_get_pop)
next
  case (other w r t u)
  then show ?case by simp
qed

section \<open>pipeWrite and pipeRead\<close>




lemma pipe_put_frame [simp]:
  "mem (pipe_put pi ch s) = mem s" "thread_links (pipe_put pi ch s) = thread_links s"
  "pipeBuffer (pipe_put pi ch s) pi = pipe_push ch (pipeBuffer s pi)"
  by (simp_all add: pipe_put_push)



lemma pipe_src_cow_stops:
  assumes ok: "table_ok (pcells s) r F" and "vir2phy (page2pa r) va s = Some (pa, True)" "pa \<noteq> 0" and cv: "umapped s r cv"
  shows "pipe_src_page er (page2pa r) va cv s = None"
proof -
  let ?i = "ix cv 2" and ?j = "ix cv 1" and ?k = "ix cv 0"
  have e: "uentry s r cv AND PTE_VALID \<noteq> 0" "uentry s r cv AND PTE_COW = 0" using cv by (auto simp: umapped_def)
  then have "uentry s r cv \<noteq> 0" by auto
  then obtain lf where lf: "node_page (pcells s) r (Leaf ?i ?j) = Some lf" "pcells s lf ?k = uentry s r cv"
    unfolding uentry_def pt_entry_def by (auto simp del: node_page.simps split: option.splits)
  then have "snd (pageLookup (page2pa r) cv s) = Some (page2pa lf + 8 * of_nat ?k)"
    using e(1) by (simp add: pageLookup_eq [OF ok] uentry_def Let_def del: node_page.simps)
  moreover have "load64 (mem s) (page2pa lf + 8 * of_nat ?k) = uentry s r cv" using lf(2) by (simp add: cells_def)
  ultimately have "cowHandler (page2pa r) cv s = None" using e(2) by (simp add: cowHandler_def)
  then show ?thesis using assms(2,3) by (simp add: pipe_src_page_def)
qed











section \<open>Pipe slots\<close>

text \<open>The pipe table is a pool of 128 slots.\<close>

interpretation pipes: slot_pool "\<lambda>s. bm_used (pipeBitMap s)" "64 * 2" pipeAlloc pipeFree "\<lambda>s. length (pipeBitMap s) = 2"
  by (rule slot_pool_lift) (auto simp: pipeAlloc_def pipeFree_def Let_def bind_eq_None_conv bind_eq_Some_conv split: prod.splits)

text \<open>\<^verbatim>\<open>pipeAlloc\<close> several times in a row.\<close>

primrec pipeAlloc_many :: "nat \<Rightarrow> 'z kpipe_scheme \<Rightarrow> (nat list \<times> 'z kpipe_scheme) option" where
  "pipeAlloc_many 0 s = Some ([], s)"
| "pipeAlloc_many (Suc k) s = do {
     (n, s) \<leftarrow> pipeAlloc s;
     (ns, s) \<leftarrow> pipeAlloc_many k s;
     Some (n # ns, s) }"

lemma pipeAlloc_many_eq: "pipeAlloc_many k = pipes.alloc_many k"
  by (induction k) (auto simp: fun_eq_iff split: option.splits bind_splits)

section \<open>Properties\<close>

text \<open>
  C16: whatever readers and writers of a pipe do, byte by byte and in any interleaving that respects
  the full and empty tests of \<^verbatim>\<open>pipeWrite\<close> and \<^verbatim>\<open>pipeRead\<close>, the bytes read are the bytes written in
  the same order, the rest is still in the ring and the ring never holds more than
  \<^verbatim>\<open>PIPESIZE\<close> bytes, also when the 64-bit counters wrap.
\<close>

theorem pipe_fifo_order:
  assumes "pipe_trace pi s w r t" and "pipe_ok (pipeBuffer s pi)"
  shows "pipe_contents (pipeBuffer s pi) @ w = r @ pipe_contents (pipeBuffer t pi)
    \<and> length (pipe_contents (pipeBuffer t pi)) \<le> 65536"
  using pipe_trace_fifo [OF assms] by (simp add: pipe_ok_def)

theorem pipe_fifo_order_witness:
  "pipe_contents (pipeBuffer zero_kpipe 0) @ [7, 8] = [7] @ pipe_contents (pipeBuffer
      (snd (pipe_get 0 (pipe_put 0 8 (pipe_put 0 7 zero_kpipe)))) 0)"
proof -
  let ?s = "pipe_put 0 8 (pipe_put 0 7 zero_kpipe)"
  have "pipe_trace 0 zero_kpipe ([] @ [7]) [] (pipe_put 0 7 zero_kpipe)"
    by (rule pipe_trace.put [OF pipe_trace.start]) simp
  then have "pipe_trace 0 zero_kpipe ([7] @ [8]) [] ?s" by (intro pipe_trace.put) (simp_all add: pipe_put_def)
  moreover have "pipe_get 0 ?s = (7, snd (pipe_get 0 ?s))" by (simp add: pipe_get_def pipe_put_def Let_def)
  ultimately have "pipe_trace 0 zero_kpipe [7, 8] ([] @ [7]) (snd (pipe_get 0 ?s))"
    by (intro pipe_trace.got [where t = ?s]) (simp_all add: pipe_put_def)
  from pipe_fifo_order [OF this] show ?thesis by (simp add: pipe_ok_def pipe_len_def)
qed









text \<open>
  C24: from any state of the pipe table, \<open>k\<close> calls of \<^verbatim>\<open>pipeAlloc\<close> succeed as long as \<open>k\<close> slots of the
  128 are free; they return distinct slots none of which was in use and mark exactly these.
\<close>

theorem pipeAlloc_distinct:
  assumes "length (pipeBitMap s) = 2" and "card (bm_used (pipeBitMap s)) + k \<le> 128"
  shows "\<exists>ns t. pipeAlloc_many k s = Some (ns, t) \<and> length ns = k \<and> distinct ns \<and> set ns \<subseteq> {..<128}
     \<and> set ns \<inter> bm_used (pipeBitMap s) = {} \<and> bm_used (pipeBitMap t) = bm_used (pipeBitMap s) \<union> set ns"
proof -
  obtain ns t where n: "pipes.alloc_many k s = Some (ns, t)" using pipes.alloc_many_succeeds [of s k] assms by auto
  note d = pipes.alloc_many_distinct [OF assms(1) n]
  then show ?thesis using n pipes.used_bound [of t] by (auto simp: pipeAlloc_many_eq)
qed

theorem pipeAlloc_distinct_witness:
  "\<exists>ns t. pipeAlloc_many 3 zero_kpipe = Some (ns, t) \<and> length ns = 3 \<and> distinct ns"
  using pipeAlloc_distinct [of zero_kpipe 3] by (auto simp: bm_used_Cons)

end
