(* ===== verification/Fat_File.thy ===== *)
theory Fat_File
  imports Fat Futex
begin

text \<open>
  Reading, writing and truncating files, and names and paths: the second half of
  \<^verbatim>\<open>src/kernel/fs/Fat.c\<close>. Reading into user memory may fault a page in from a file, which is then
  read into kernel memory; \<open>er\<close> is that reader, and \<open>kernel_reader\<close> the one the kernel has.
\<close>

type_synonym 'z fat_reader = "nat option \<Rightarrow> u64 \<Rightarrow> u32 \<Rightarrow> u32 \<Rightarrow> 'z kfat_scheme \<Rightarrow> (int \<times> 'z kfat_scheme) option"

section \<open>One cluster\<close>

text \<open>The bytes that one step moves: up to the end of the sector, or what is left.\<close>

definition rw_part :: "u32 \<Rightarrow> u32 \<Rightarrow> u32" where
  "rw_part off left = (let m = 512 - off mod 512 in if left < m then left else m)"

lemma rw_part_pos: "left \<noteq> 0 \<Longrightarrow> 0 < rw_part off left" "rw_part off left \<le> left"
proof -
  have "off mod 512 < 512" by (simp add: word_mod_less_divisor)
  then have "unat (off mod 512) < 512" by (simp add: word_less_nat_alt)
  then have "0 < unat (512 - off mod 512)" by (subst unat_sub) (simp_all add: word_le_nat_alt)
  then have "0 < 512 - off mod 512" by (simp add: word_less_nat_alt)
  then show "left \<noteq> 0 \<Longrightarrow> 0 < rw_part off left" "rw_part off left \<le> left"
    by (auto simp: rw_part_def Let_def word_gt_0)
qed

lemma rw_part_less: "tot < n \<Longrightarrow> unat (n - (tot + rw_part off (n - tot))) < unat (n - tot)"
proof -
  assume "tot < n"
  then have "n - tot \<noteq> 0" by auto
  note P = rw_part_pos(1) [OF this, of off] rw_part_pos(2) [of off "n - tot"]
  have "unat (n - tot - rw_part off (n - tot)) = unat (n - tot) - unat (rw_part off (n - tot))"
    using P(2) by (rule unat_sub)
  moreover have "0 < unat (rw_part off (n - tot))" "unat (rw_part off (n - tot)) \<le> unat (n - tot)"
    using P by (simp_all add: word_less_nat_alt word_le_nat_alt)
  ultimately show ?thesis by (simp add: diff_diff_eq)
qed

function rw_loop :: "'z fat_reader \<Rightarrow> nat \<Rightarrow> bool \<Rightarrow> place \<Rightarrow> u32 \<Rightarrow> u32 \<Rightarrow> u32 \<Rightarrow> u32 \<Rightarrow> 'z kfat_scheme
    \<Rightarrow> ((u32 \<times> place) \<times> 'z kfat_scheme) option" where
  "rw_loop er fs wr pl sec off n tot s =
     (if tot < n then do {
        (h, s) \<leftarrow> fsread fs (ucast sec) s;
        let m = rw_part off (n - tot);
        ((bad, pl'), s) \<leftarrow> (if wr then do {
             ((bs, pl'), s) \<leftarrow> get_place er pl m s;
             let s = upd_data h (put_at (unat (off mod 512)) bs) s;
             s \<leftarrow> bwrite h s;
             Some ((0, pl'), s) }
           else put_place er pl (take (unat m) (drop (unat (off mod 512)) (buf_data h s))) s);
        s \<leftarrow> brelse h s;
        if bad = - 1 then Some ((tot, pl), s)
        else rw_loop er fs wr pl' (sec + 1) (off + m) n (tot + m) s }
      else Some ((tot, pl), s))"
  by pat_completeness auto
termination
  by (relation "measure (\<lambda>(er, fs, wr, pl, sec, off, n, tot, s). unat (n - tot))") (auto simp: rw_part_less)

definition rw_clus :: "'z fat_reader \<Rightarrow> nat \<Rightarrow> u32 \<Rightarrow> bool \<Rightarrow> place \<Rightarrow> u32 \<Rightarrow> u32 \<Rightarrow> 'z kfat_scheme
    \<Rightarrow> ((u32 \<times> place) \<times> 'z kfat_scheme) option" where
  "rw_clus er fs cluster wr pl off n s = do {
     kassert (\<not> off + n > byts_per_clus (sb fs s));
     let sec = first_sec_of_clus (sb fs s) cluster + off div ucast (byts_per_sec (sb fs s));
     rw_loop er fs wr pl sec (off mod ucast (byts_per_sec (sb fs s))) n 0 s }"

section \<open>Reading and writing files\<close>

text \<open>The bytes up to the end of the cluster, or what is left.\<close>

definition clus_part :: "u32 \<Rightarrow> u32 \<Rightarrow> u32 \<Rightarrow> u32" where
  "clus_part bpc off left = (let m = bpc - off mod bpc in if left < m then left else m)"

partial_function (option) eread_loop :: "'z fat_reader \<Rightarrow> nat \<Rightarrow> nat \<Rightarrow> place \<Rightarrow> u32 \<Rightarrow> u32 \<Rightarrow> u32 \<Rightarrow> 'z kfat_scheme
    \<Rightarrow> ((u32 \<times> place) \<times> 'z kfat_scheme) option" where
  "eread_loop er fs ep pl off n tot s =
     (if cur_clus (dirents s ep) < FAT32_EOC \<and> tot < n then do {
        (r, s) \<leftarrow> reloc_clus fsread fs ep off False s;
        let m = clus_part (byts_per_clus (sb fs s)) off (n - tot);
        ((k, pl), s) \<leftarrow> rw_clus er fs (cur_clus (dirents s ep)) False pl (off mod byts_per_clus (sb fs s)) m s;
        if k \<noteq> m then Some ((tot, pl), s)
        else eread_loop er fs ep pl (off + m) n (tot + m) s }
      else Some ((tot, pl), s))"

definition osrelease :: "u8 list" where
  "osrelease = [49, 48, 46, 50, 46, 48, 0]"

definition eread :: "'z fat_reader \<Rightarrow> nat \<Rightarrow> place \<Rightarrow> u32 \<Rightarrow> u32 \<Rightarrow> 'z kfat_scheme \<Rightarrow> ((int \<times> place) \<times> 'z kfat_scheme) option" where
  "eread er ep pl off n s =
     (if d_dev (dirents s ep) = DEV_ZERO then do {
        ((r, pl), s) \<leftarrow> memset_place er pl 0 n s;
        kassert (r = 0);
        Some ((sint n, pl), s) }
      else if d_dev (dirents s ep) = DEV_OSRELEASE then do {
        ((r, pl), s) \<leftarrow> put_place er pl osrelease s;
        kassert (r = 0);
        Some ((int (length osrelease), pl), s) }
      else if off > file_size (dirents s ep) \<or> off + n < off \<or> attribute (dirents s ep) AND ATTR_DIRECTORY \<noteq> 0 then Some ((0, pl), s)
      else do {
        let n = (if off + n > file_size (dirents s ep) then file_size (dirents s ep) - off else n);
        fs \<leftarrow> fileSystem_of (dirents s ep);
        ((tot, pl), s) \<leftarrow> eread_loop er fs ep pl off n 0 s;
        Some ((sint tot, pl), s) })"

partial_function (option) ewrite_loop :: "'z fat_reader \<Rightarrow> nat \<Rightarrow> nat \<Rightarrow> place \<Rightarrow> u32 \<Rightarrow> u32 \<Rightarrow> u32 \<Rightarrow> 'z kfat_scheme
    \<Rightarrow> ((u32 \<times> u32) \<times> 'z kfat_scheme) option" where
  "ewrite_loop er fs ep pl off n tot s =
     (if tot < n then do {
        (r, s) \<leftarrow> reloc_clus fsread fs ep off True s;
        let m = clus_part (byts_per_clus (sb fs s)) off (n - tot);
        ((k, pl), s) \<leftarrow> rw_clus er fs (cur_clus (dirents s ep)) True pl (off mod byts_per_clus (sb fs s)) m s;
        if k \<noteq> m then Some ((tot, off), s)
        else ewrite_loop er fs ep pl (off + m) n (tot + m) s }
      else Some ((tot, off), s))"

definition ewrite :: "'z fat_reader \<Rightarrow> nat \<Rightarrow> place \<Rightarrow> u32 \<Rightarrow> u32 \<Rightarrow> 'z kfat_scheme \<Rightarrow> (int \<times> 'z kfat_scheme) option" where
  "ewrite er ep pl off n s =
     (if d_dev (dirents s ep) = DEV_NONE then Some (sint n, s)
      else if off + n < off \<or> (ucast off + ucast n :: u64) > 0xffffffff \<or> attribute (dirents s ep) AND ATTR_READ_ONLY \<noteq> 0
      then Some (- 1, s)
      else do {
        fs \<leftarrow> fileSystem_of (dirents s ep);
        s \<leftarrow> (if first_clus (dirents s ep) = 0 then do {
               (c, s) \<leftarrow> alloc_clus fsread fs s;
               Some (upd_dirent ep (\<lambda>e. e\<lparr>d_inode := (d_inode e)(0 := c), first_clus := c, cur_clus := c,
                 inodeMaxCluster := 1, clus_cnt := 0\<rparr>) s) }
             else Some s);
        ((tot, off), s) \<leftarrow> ewrite_loop er fs ep pl off n 0 s;
        Some (sint tot, if n > 0 \<and> off > file_size (dirents s ep) then upd_dirent ep (\<lambda>e. e\<lparr>file_size := off\<rparr>) s else s) })"

text \<open>The reader of \<^verbatim>\<open>pageout\<close>: it copies to kernel memory and so needs no reader itself.\<close>

definition kernel_reader :: "'z fat_reader" where
  "kernel_reader ep dst off n s = do {
     ep \<leftarrow> ep;
     ((r, pl), s) \<leftarrow> eread (\<lambda>_ _ _ _ _. None) ep (KernelAt dst) off n s;
     Some (r, s) }"

partial_function (option) trunc_loop :: "nat \<Rightarrow> u32 \<Rightarrow> 'z kfat_scheme \<Rightarrow> 'z kfat_scheme option" where
  "trunc_loop fs clus s =
     (if clus \<ge> 2 \<and> clus < FAT32_EOC then do {
        (nx, s) \<leftarrow> read_fat fsread fs clus s;
        s \<leftarrow> free_clus fsread fs clus s;
        trunc_loop fs nx s }
      else Some s)"

definition etrunc :: "nat \<Rightarrow> 'z kfat_scheme \<Rightarrow> 'z kfat_scheme option" where
  "etrunc ep s = do {
     fs \<leftarrow> fileSystem_of (dirents s ep);
     s \<leftarrow> trunc_loop fs (first_clus (dirents s ep)) s;
     eFreeInode ep (upd_dirent ep (\<lambda>e. e\<lparr>file_size := 0, first_clus := 0\<rparr>) s) }"

section \<open>Names\<close>

definition illegal :: "u8 list" where
  "illegal = [34, 42, 47, 58, 60, 62, 63, 92, 124]"

definition formatname :: "u8 list \<Rightarrow> u8 list option" where
  "formatname name =
     (let name = dropWhile (\<lambda>c. c = 32 \<or> c = 46) name
      in if \<exists>c \<in> set name. c < 0x20 \<or> c \<in> set illegal then None
         else Some (rev (dropWhile (\<lambda>c. c = 32) (rev name))))"

definition cal_checksum :: "u8 list \<Rightarrow> u8" where
  "cal_checksum shortname = fold (\<lambda>b sum. (if sum AND 1 \<noteq> 0 then 0x80 else 0) + drop_bit 1 sum + b) (take 11 shortname) 0"

text \<open>\<^verbatim>\<open>.\<close> and \<^verbatim>\<open>..\<close>\<close>

abbreviation dot :: "u8 list" where "dot \<equiv> [46]"
abbreviation dotdot :: "u8 list" where "dotdot \<equiv> [46, 46]"

partial_function (option) find_child :: "nat option \<Rightarrow> u8 list \<Rightarrow> 'z kfat_scheme \<Rightarrow> nat option option" where
  "find_child ep name s = (case ep of None \<Rightarrow> Some None
     | Some e \<Rightarrow> if strncmp_bytes FAT32_MAX_FILENAME (filename (dirents s e)) name = 0 then Some (Some e)
                else find_child (nextBrother (dirents s e)) name s)"

definition dirlookup :: "nat \<Rightarrow> u8 list \<Rightarrow> 'z kfat_scheme \<Rightarrow> nat option option" where
  "dirlookup dp name s = do {
     kassert (attribute (dirents s dp) AND ATTR_DIRECTORY \<noteq> 0);
     if strncmp_bytes FAT32_MAX_FILENAME name dot = 0 then Some (Some dp)
     else if strncmp_bytes FAT32_MAX_FILENAME name dotdot = 0 then do {
       fs \<leftarrow> fileSystem_of (dirents s dp);
       Some (if dp = root_of fs then Some (root_of fs) else d_parent (dirents s dp)) }
     else find_child (firstChild (dirents s dp)) name s }"

definition ealloc :: "nat \<Rightarrow> u8 list \<Rightarrow> u8 \<Rightarrow> 'z kfat_scheme \<Rightarrow> (nat \<times> 'z kfat_scheme) option" where
  "ealloc dp name attr s = do {
     kassert (attribute (dirents s dp) AND ATTR_DIRECTORY \<noteq> 0);
     old \<leftarrow> dirlookup dp name s;
     case old of Some ep \<Rightarrow> Some (ep, s)
     | None \<Rightarrow> do {
         (ep, s) \<leftarrow> direntAlloc s;
         let s = upd_dirent ep (\<lambda>e. if attr = ATTR_LINK then e\<lparr>attribute := 0, nt_res := DT_LNK\<rparr>
                                    else e\<lparr>attribute := attr, nt_res := 0\<rparr>) s;
         let s = upd_dirent ep (\<lambda>e. e\<lparr>file_size := 0, first_clus := 0\<rparr>) s;
         s \<leftarrow> eFreeInode ep s;
         let s = upd_dirent ep (\<lambda>e. e\<lparr>d_parent := Some dp, nextBrother := firstChild (dirents s dp)\<rparr>) s;
         let s = upd_dirent dp (\<lambda>e. e\<lparr>firstChild := Some ep\<rparr>) s;
         let s = upd_dirent ep (\<lambda>e. e\<lparr>clus_cnt := 0, cur_clus := 0, fileSystem_of := fileSystem_of (dirents s dp),
           filename := take FAT32_MAX_FILENAME (cstr name @ replicate FAT32_MAX_FILENAME 0) @ [0]\<rparr>) s;
         if attr = ATTR_DIRECTORY then do {
           let s = upd_dirent ep (\<lambda>e. e\<lparr>attribute := attribute e OR ATTR_DIRECTORY\<rparr>) s;
           fs \<leftarrow> fileSystem_of (dirents s ep);
           (c, s) \<leftarrow> alloc_clus fsread fs s;
           Some (ep, upd_dirent ep (\<lambda>e. e\<lparr>d_inode := (d_inode e)(0 := c), first_clus := c, cur_clus := c, inodeMaxCluster := 1\<rparr>) s) }
         else Some (ep, upd_dirent ep (\<lambda>e. e\<lparr>attribute := attribute e OR ATTR_ARCHIVE\<rparr>) s) } }"

section \<open>Paths\<close>

text \<open>The next element of a path and the rest, with the slashes between them skipped.\<close>

definition skipelem :: "u8 list \<Rightarrow> (u8 list \<times> u8 list) option" where
  "skipelem path =
     (let path = dropWhile (\<lambda>c. c = 47) path
      in if path = [] then None
         else let elem = takeWhile (\<lambda>c. c \<noteq> 47) path
              in Some (take FAT32_MAX_FILENAME elem, dropWhile (\<lambda>c. c = 47) (drop (length elem) path)))"

lemma skipelem_less: "skipelem path = Some (elem, rest) \<Longrightarrow> length rest < length path"
proof -
  assume h: "skipelem path = Some (elem, rest)"
  let ?p = "dropWhile (\<lambda>c. c = 47) path" and ?e = "takeWhile (\<lambda>c. c \<noteq> 47) (dropWhile (\<lambda>c. c = 47) path)"
  have p: "?p \<noteq> []" "rest = dropWhile (\<lambda>c. c = 47) (drop (length ?e) ?p)"
    using h by (auto simp: skipelem_def Let_def split: if_splits)
  have "?e \<noteq> []" using p(1) hd_dropWhile [of "\<lambda>c. c = 47" path] by (cases ?p) auto
  then have "length (drop (length ?e) ?p) < length ?p" using p(1) by simp
  moreover have "length rest \<le> length (drop (length ?e) ?p)" unfolding p(2) by (rule length_dropWhile_le)
  moreover have "length ?p \<le> length path" by (rule length_dropWhile_le)
  ultimately show ?thesis by linarith
qed

text \<open>
  Following symbolic links: the target is read into a buffer on the stack and looked up by \<open>en\<close>. A
  target without its NUL has no end.
\<close>

definition place_string :: "place \<Rightarrow> u8 list option" where
  "place_string pl = (case pl of Local bs \<Rightarrow> if 0 \<in> set bs then Some (cstr bs) else None | _ \<Rightarrow> None)"

type_synonym 'z name_lookup = "u8 list \<Rightarrow> 'z kfat_scheme \<Rightarrow> (nat option \<times> 'z kfat_scheme) option"

partial_function (option) jumpToLinkDirent :: "'z name_lookup \<Rightarrow> nat option \<Rightarrow> 'z kfat_scheme \<Rightarrow> (nat \<times> 'z kfat_scheme) option" where
  "jumpToLinkDirent en link s = (case link of None \<Rightarrow> None
     | Some l \<Rightarrow>
         if nt_res (dirents s l) = DT_LNK then do {
           ((r, pl), s) \<leftarrow> eread (\<lambda>_ _ _ _ _. None) l (Local []) 0 255 s;
           target \<leftarrow> place_string pl;
           (link, s) \<leftarrow> en target s;
           jumpToLinkDirent en link s }
         else Some (l, s))"

text \<open>The loop of \<^verbatim>\<open>lookup_path\<close>: it returns early or runs to the end of the path.\<close>

datatype walk = Done "nat option" | At "nat option"

function lookup_walk :: "'z name_lookup \<Rightarrow> bool \<Rightarrow> nat option \<Rightarrow> u8 list \<Rightarrow> u8 list \<Rightarrow> 'z kfat_scheme
    \<Rightarrow> ((walk \<times> u8 list) \<times> 'z kfat_scheme) option" where
  "lookup_walk en parent entry name path s = (case skipelem path of
     None \<Rightarrow> Some ((At entry, name), s)
   | Some (name, rest) \<Rightarrow> do {
       (e, s) \<leftarrow> jumpToLinkDirent en entry s;
       if attribute (dirents s e) AND ATTR_DIRECTORY = 0 then Some ((Done None, name), s)
       else do {
         let e = (case d_head (dirents s e) of None \<Rightarrow> e | Some f \<Rightarrow> root_of f);
         if parent \<and> rest = [] then Some ((Done (Some e), name), s)
         else do {
           nx \<leftarrow> dirlookup e name s;
           case nx of None \<Rightarrow> Some ((Done None, name), s)
           | Some x \<Rightarrow> lookup_walk en parent (Some x) name rest s } } })"
  by pat_completeness auto
termination
  by (relation "measure (\<lambda>(en, parent, entry, name, path, s). length path)") (auto dest: skipelem_less)

declare lookup_walk.simps [simp del]

abbreviation (input) AT_FDCWD :: int where "AT_FDCWD \<equiv> - 100"

definition lookup_start :: "int \<Rightarrow> u8 list \<Rightarrow> 'z kfat_scheme \<Rightarrow> nat option option option" where
  "lookup_start fd path s =
     (if hd0 path \<noteq> 47 \<and> fd \<noteq> AT_FDCWD \<and> fd \<ge> 0 \<and> fd < int NOFILE then do {
        p \<leftarrow> myProcess s;
        Some (case ofile (processes s p) (nat fd) of None \<Rightarrow> None | Some f \<Rightarrow> Some (f_ep (ftable s f))) }
      else if hd0 path = 47 then do { f \<leftarrow> rootFileSystem s; Some (Some (Some (root_of f))) }
      else if hd0 path \<noteq> 0 \<and> fd = AT_FDCWD then do { p \<leftarrow> myProcess s; Some (Some (cwd (processes s p))) }
      else Some None)"

definition lookup_path :: "'z name_lookup \<Rightarrow> int \<Rightarrow> u8 list \<Rightarrow> bool \<Rightarrow> bool \<Rightarrow> 'z kfat_scheme
    \<Rightarrow> ((nat option \<times> u8 list) \<times> 'z kfat_scheme) option" where
  "lookup_path en fd path parent jump s = do {
     start \<leftarrow> lookup_start fd path s;
     case start of None \<Rightarrow> Some ((None, []), s)
     | Some entry \<Rightarrow> do {
         ((w, name), s) \<leftarrow> lookup_walk en parent entry [] path s;
         case w of Done r \<Rightarrow> Some ((r, name), s)
         | At entry \<Rightarrow> do {
             (entry, s) \<leftarrow> (if jump then do { (e, s) \<leftarrow> jumpToLinkDirent en entry s; Some (Some e, s) } else Some (entry, s));
             Some ((if parent then None else entry, name), s) } } }"

text \<open>
  The depth of links within links: each level needs more than 511 bytes of the three pages of kernel
  stack a thread has, so 24 levels exceed it.
\<close>

primrec ename_at :: "nat \<Rightarrow> int \<Rightarrow> u8 list \<Rightarrow> bool \<Rightarrow> 'z kfat_scheme \<Rightarrow> (nat option \<times> 'z kfat_scheme) option" where
  "ename_at 0 fd path jump s = None"
| "ename_at (Suc k) fd path jump s = do {
     ((r, name), s) \<leftarrow> lookup_path (\<lambda>p. ename_at k AT_FDCWD p True) fd path False jump s;
     Some (r, s) }"

definition ename :: "int \<Rightarrow> u8 list \<Rightarrow> bool \<Rightarrow> 'z kfat_scheme \<Rightarrow> (nat option \<times> 'z kfat_scheme) option" where
  "ename = ename_at 24"

definition enameparent :: "int \<Rightarrow> u8 list \<Rightarrow> 'z kfat_scheme \<Rightarrow> ((nat option \<times> u8 list) \<times> 'z kfat_scheme) option" where
  "enameparent fd path s = lookup_path (\<lambda>p. ename AT_FDCWD p True) fd path True True s"

abbreviation (input) T_DIR :: int where "T_DIR \<equiv> 1"
abbreviation (input) T_FILE :: int where "T_FILE \<equiv> 2"
abbreviation (input) T_LINK :: int where "T_LINK \<equiv> 4"
abbreviation (input) T_CHAR :: int where "T_CHAR \<equiv> 5"

text \<open>\<^verbatim>\<open>mode & O_RDONLY\<close> is zero for every mode, since \<^verbatim>\<open>O_RDONLY\<close> is zero.\<close>

definition create_attr :: "int \<Rightarrow> u32 \<Rightarrow> u8" where
  "create_attr type mode = (if type = T_DIR then ATTR_DIRECTORY else if type = T_LINK then ATTR_LINK
     else if type = T_CHAR then ATTR_CHARACTER_DEVICE else if mode AND 0 \<noteq> 0 then ATTR_READ_ONLY else 0)"

definition create :: "int \<Rightarrow> u8 list \<Rightarrow> int \<Rightarrow> u32 \<Rightarrow> 'z kfat_scheme \<Rightarrow> (nat option \<times> 'z kfat_scheme) option" where
  "create fd path type mode s = do {
     ((dp, name), s) \<leftarrow> enameparent fd path s;
     case dp of None \<Rightarrow> Some (None, s)
     | Some dp \<Rightarrow> do {
         (ep, s) \<leftarrow> ealloc dp name (create_attr type mode) s;
         let a = attribute (dirents s ep);
         Some (if (type = T_DIR \<and> a AND ATTR_DIRECTORY = 0) \<or> (type = T_FILE \<and> a AND ATTR_DIRECTORY \<noteq> 0) then None else Some ep, s) } }"

section \<open>Removal\<close>

partial_function (option) unlink_child :: "nat \<Rightarrow> nat \<Rightarrow> 'z kfat_scheme \<Rightarrow> 'z kfat_scheme option" where
  "unlink_child i entry s = (case nextBrother (dirents s i) of None \<Rightarrow> Some s
     | Some n \<Rightarrow> if n = entry then Some (upd_dirent i (\<lambda>e. e\<lparr>nextBrother := nextBrother (dirents s entry)\<rparr>) s)
                else unlink_child n entry s)"

definition eremove :: "nat \<Rightarrow> 'z kfat_scheme \<Rightarrow> 'z kfat_scheme option" where
  "eremove entry s = do {
     p \<leftarrow> d_parent (dirents s entry);
     s \<leftarrow> (if firstChild (dirents s p) = Some entry
          then Some (upd_dirent p (\<lambda>e. e\<lparr>firstChild := nextBrother (dirents s entry)\<rparr>) s)
          else do { i \<leftarrow> firstChild (dirents s p); unlink_child i entry s });
     Some (direntFree entry s) }"

section \<open>Times\<close>

text \<open>The short entry of a file in its parent directory, and its offset in the cluster.\<close>

definition short_entry :: "nat \<Rightarrow> nat \<Rightarrow> nat \<Rightarrow> 'z kfat_scheme \<Rightarrow> ((u32 \<times> u8 list) \<times> 'z kfat_scheme) option" where
  "short_entry fs ep p s = do {
     (off, s) \<leftarrow> reloc_clus fsread fs p (d_off (dirents s ep)) False s;
     ((k, pl), s) \<leftarrow> rw_clus (\<lambda>_ _ _ _ _. None) fs (cur_clus (dirents s p)) False (Local []) (word_of_int off) 1 s;
     let entcnt = ((case pl of Local [b] \<Rightarrow> ucast b AND NOT 0x40 | _ \<Rightarrow> 0) :: u32);
     (off, s) \<leftarrow> reloc_clus fsread fs p (d_off (dirents s ep) + push_bit 5 entcnt) False s;
     ((k, pl), s) \<leftarrow> rw_clus (\<lambda>_ _ _ _ _. None) fs (cur_clus (dirents s p)) False (Local []) (word_of_int off) 32 s;
     Some ((word_of_int off, case pl of Local de \<Rightarrow> de | _ \<Rightarrow> []), s) }"

abbreviation (input) UTIME_NOW :: int where "UTIME_NOW \<equiv> 0x3fffffff"
abbreviation (input) UTIME_OMIT :: int where "UTIME_OMIT \<equiv> 0x3ffffffe"

text \<open>The 48 bits of a time, spread over three fields of the entry; \<open>w\<close> bytes hold the upper part.\<close>

definition put_time :: "nat \<Rightarrow> nat \<Rightarrow> nat \<Rightarrow> nat \<Rightarrow> u64 \<Rightarrow> u8 list \<Rightarrow> u8 list" where
  "put_time date time hi w t de =
     put_at hi (le_bytes w (drop_bit 32 t)) (put_at time (le_bytes 2 (drop_bit 16 t)) (put_at date (le_bytes 2 t) de))"

definition eSetTime :: "nat \<Rightarrow> TimeSpec \<Rightarrow> TimeSpec \<Rightarrow> 'z kfat_scheme \<Rightarrow> 'z kfat_scheme option" where
  "eSetTime entry ts0 ts1 s = do {
     fs \<leftarrow> fileSystem_of (dirents s entry);
     p \<leftarrow> d_parent (dirents s entry);
     ((off, de), s) \<leftarrow> short_entry fs entry p s;
     let now = r_time s div 1000000;
     let de = (if nanoSecond ts0 \<noteq> UTIME_OMIT
       then put_time 16 14 13 1 (if nanoSecond ts0 = UTIME_NOW then now else second ts0) de else de);
     let de = (if nanoSecond ts1 \<noteq> UTIME_OMIT
       then put_time 24 22 18 2 (if nanoSecond ts1 = UTIME_NOW then now else second ts1) de else de);
     (r, s) \<leftarrow> rw_clus (\<lambda>_ _ _ _ _. None) fs (cur_clus (dirents s p)) True (Local de) off 32 s;
     Some s }"

record stat =
  st_dev :: u64
  st_ino :: u64
  st_mode :: u32
  st_nlink :: u32
  st_uid :: u32
  st_gid :: u32
  st_rdev :: u64
  st_size :: u64
  st_blksize :: u32
  st_blocks :: u64
  st_atime_sec :: u64
  st_atime_nsec :: u64
  st_mtime_sec :: u64
  st_mtime_nsec :: u64
  st_ctime_sec :: u64
  st_ctime_nsec :: u64

abbreviation (input) DIR_TYPE :: u32 where "DIR_TYPE \<equiv> 0x4000"
abbreviation (input) CHR_TYPE :: u32 where "CHR_TYPE \<equiv> 0x2000"
abbreviation (input) REG_TYPE :: u32 where "REG_TYPE \<equiv> 0x8000"

definition dirent_index :: "nat \<Rightarrow> 'z kfat_scheme \<Rightarrow> u64" where
  "dirent_index ep s = (if ep < DIRENT_NUM then of_nat ep else root_diff s (ep - DIRENT_NUM))"

definition estat :: "nat \<Rightarrow> 'z kfat_scheme \<Rightarrow> (stat \<times> 'z kfat_scheme) option" where
  "estat ep s = do {
     let e = dirents s ep;
     fs \<leftarrow> fileSystem_of e;
     let blk = (ucast (byts_per_sec (sb fs s)) :: u32);
     let st = \<lparr>st_dev = ucast (d_dev e), st_ino = dirent_index ep s,
       st_mode = (if attribute e AND ATTR_DIRECTORY \<noteq> 0 then DIR_TYPE
                  else if attribute e AND ATTR_CHARACTER_DEVICE \<noteq> 0 then CHR_TYPE else REG_TYPE),
       st_nlink = 1, st_uid = 0, st_gid = 0, st_rdev = 0, st_size = ucast (file_size e),
       st_blksize = blk, st_blocks = ucast (file_size e) div ucast blk,
       st_atime_sec = 0, st_atime_nsec = 0, st_mtime_sec = 0, st_mtime_nsec = 0, st_ctime_sec = 0, st_ctime_nsec = 0\<rparr>;
     case d_parent e of None \<Rightarrow> Some (st, s)
     | Some p \<Rightarrow> do {
         ((off, de), s) \<leftarrow> short_entry fs ep p s;
         Some (st\<lparr>st_atime_sec := push_bit 32 (ucast (de ! 13)) + push_bit 16 (ucast (get16 de 14)) + ucast (get16 de 16),
           st_mtime_sec := push_bit 32 (ucast (get16 de 18)) + push_bit 16 (ucast (get16 de 22)) + ucast (get16 de 24)\<rparr>, s) } }"

end
