(* ===== verification/File_System.thy ===== *)
theory File_System
  imports Fat_File
begin

text \<open>
  Mounting, \<^verbatim>\<open>src/kernel/fs/FileSystem.c\<close>: the boot sector, the cluster bitmap built from the
  allocation table, and the tree of entries loaded from the directories on the card.
\<close>

section \<open>File system slots\<close>

definition zero_superblock :: superblock where
  "zero_superblock = \<lparr>first_data_sec = 0, data_sec_cnt = 0, data_clus_cnt = 0, byts_per_clus = 0, byts_per_sec = 0,
     sec_per_clus = 0, rsvd_sec_cnt = 0, fat_cnt = 0, hidd_sec = 0, tot_sec = 0, fat_sz = 0, root_clus = 0\<rparr>"

definition zero_fs :: FileSystem where
  "zero_fs = \<lparr>fs_valid = False, fs_name = replicate 64 0, superBlock = zero_superblock, fs_image = None, fs_next = None,
     deviceNumber = 0, fs_reads = NoRead\<rparr>"

definition zero_dirent :: Dirent where
  "zero_dirent = \<lparr>filename = replicate 256 0, attribute = 0, first_clus = 0, file_size = 0, cur_clus = 0, inodeMaxCluster = 0,
     clus_cnt = 0, d_inode = (\<lambda>_. 0), nt_res = 0, fileSystem_of = None, d_dev = 0, d_head = None, d_off = 0,
     d_parent = None, nextBrother = None, firstChild = None\<rparr>"

definition fsAlloc :: "'z kfat_scheme \<Rightarrow> (nat option \<times> 'z kfat_scheme)" where
  "fsAlloc s = (case find (\<lambda>i. \<not> fs_valid (fileSystem s i)) [0..<32] of
     None \<Rightarrow> (None, s)
   | Some i \<Rightarrow> (Some i, upd_dirent (root_of i) (\<lambda>_. zero_dirent) (upd_fs i (\<lambda>_. zero_fs\<lparr>fs_valid := True\<rparr>) s)))"

section \<open>Entries on the card\<close>

text \<open>
  \<^verbatim>\<open>snstr\<close> on a buffer given by its contents: the bytes from the first zero character on are
  cleared, but for the last one.
\<close>

fun snstr_bytes :: "u16 list \<Rightarrow> u8 list \<Rightarrow> u8 list" where
  "snstr_bytes [] dst = dst"
| "snstr_bytes (c # cs) dst =
     (if c \<noteq> 0 then ucast (c AND 0xFF) # snstr_bytes cs (tl dst)
      else replicate (length cs) 0 @ drop (length cs) dst)"

definition wchars :: "nat \<Rightarrow> nat \<Rightarrow> u8 list \<Rightarrow> u16 list" where
  "wchars k n de = map (\<lambda>i. get16 de (k + 2 * i)) [0..<n]"

text \<open>The name in an entry, stored in the buffer from position \<open>k\<close> on.\<close>

definition long_name :: "nat \<Rightarrow> u8 list \<Rightarrow> u8 list \<Rightarrow> u8 list" where
  "long_name k de buffer =
     (let put = (\<lambda>k cs b. put_at k (snstr_bytes cs (take (length cs) (drop k b))) b)
      in put (k + 11) (wchars 28 2 de) (put (k + 5) (wchars 14 6 de) (put k (wchars 1 5 de) buffer)))"

definition short_name :: "nat \<Rightarrow> u8 list \<Rightarrow> u8 list \<Rightarrow> u8 list" where
  "short_name k de buffer =
     (let base = takeWhile (\<lambda>c. c \<noteq> 32) (take 8 de);
          ext = takeWhile (\<lambda>c. c \<noteq> 32) (take 3 (drop 8 de));
          name = base @ (if de ! 8 \<noteq> 32 then [46] else []) @ ext
      in put_at k (name @ replicate (13 - length name) 0) buffer)"

definition read_entry_name :: "nat \<Rightarrow> u8 list \<Rightarrow> u8 list \<Rightarrow> u8 list" where
  "read_entry_name k de buffer = (if de ! 11 = ATTR_LONG_NAME then long_name k de buffer else short_name k de buffer)"

definition read_entry_info :: "u8 list \<Rightarrow> Dirent \<Rightarrow> Dirent" where
  "read_entry_info de e =
     (let c = push_bit 16 (ucast (get16 de 20)) OR ucast (get16 de 26) :: u32
      in e\<lparr>attribute := de ! 11, first_clus := c, d_inode := (d_inode e)(0 := c), inodeMaxCluster := 1,
           file_size := get32 de 28, cur_clus := c, clus_cnt := 0, nt_res := de ! 12\<rparr>)"

text \<open>
  The next entry from offset \<open>off\<close> on. \<open>count\<close> is \<open>None\<close> once the pointer was cleared. The result is
  the value of the function and what it stored through the pointer.
\<close>

partial_function (option) enext_loop :: "nat \<Rightarrow> nat \<Rightarrow> nat \<Rightarrow> u32 \<Rightarrow> nat \<Rightarrow> bool \<Rightarrow> nat \<Rightarrow> 'z kfat_scheme
    \<Rightarrow> ((int \<times> nat) \<times> 'z kfat_scheme) option" where
  "enext_loop fs dp ep off cnt ptr count s = do {
     (off2, s) \<leftarrow> reloc_clus fsread fs dp off False s;
     if off2 = - 1 then Some ((- 1, count), s)
     else do {
       ((k, pl), s) \<leftarrow> rw_clus (\<lambda>_ _ _ _ _. None) fs (cur_clus (dirents s dp)) False (Local []) (word_of_int off2) 32 s;
       let de = (case pl of Local de \<Rightarrow> de | _ \<Rightarrow> []);
       if k \<noteq> 32 \<or> de ! 0 = 0 then Some ((- 1, count), s)
       else if de ! 0 = 0xe5 then enext_loop fs dp ep (off + 32) (cnt + 1) ptr count s
       else if cnt > 0 then do { kassert ptr; Some ((0, cnt), s) }
       else if de ! 11 = ATTR_LONG_NAME then do {
         let lcnt = unat (de ! 0 AND NOT 0x40);
         (ptr, count) \<leftarrow> (if de ! 0 AND 0x40 \<noteq> 0 then do { kassert ptr; Some (False, lcnt + 1) } else Some (ptr, count));
         kassert (lcnt > 0 \<and> lcnt * 13 \<le> 256);
         let s = upd_dirent ep (\<lambda>e. e\<lparr>filename := read_entry_name ((lcnt - 1) * 13) de (filename e)\<rparr>) s;
         enext_loop fs dp ep (off + 32) cnt ptr count s }
       else do {
         let (count, s) = (if ptr then (1, upd_dirent ep (\<lambda>e. e\<lparr>filename := read_entry_name 0 de (filename e)\<rparr>) s) else (count, s));
         Some ((1, count), upd_dirent ep (read_entry_info de) s) } } }"

definition enext :: "nat \<Rightarrow> nat \<Rightarrow> u32 \<Rightarrow> 'z kfat_scheme \<Rightarrow> ((int \<times> nat) \<times> 'z kfat_scheme) option" where
  "enext dp ep off s = do {
     kassert (attribute (dirents s dp) AND ATTR_DIRECTORY \<noteq> 0);
     kassert (off mod 32 = 0);
     let s = upd_dirent ep (\<lambda>e. e\<lparr>filename := replicate 256 0\<rparr>) s;
     fs \<leftarrow> fileSystem_of (dirents s dp);
     enext_loop fs dp ep off 0 True 0 s }"

text \<open>
  The loop of \<^verbatim>\<open>loadDirents\<close>. Its variable \<^verbatim>\<open>type\<close> holds the outcome of the comparison, not the
  value of \<^verbatim>\<open>enext\<close>, so a run of deleted slots is taken for an entry too.
\<close>

partial_function (option) load_loop :: "nat \<Rightarrow> nat \<Rightarrow> nat \<Rightarrow> u32 \<Rightarrow> 'z kfat_scheme \<Rightarrow> 'z kfat_scheme option" where
  "load_loop fs parent ep off s = do {
     ((r, count), s) \<leftarrow> enext parent ep off s;
     if r = - 1 then Some (direntFree ep s)
     else do {
       let s = upd_dirent ep (\<lambda>e. e\<lparr>d_parent := Some parent, d_off := off, nextBrother := firstChild (dirents s parent),
         fileSystem_of := Some fs\<rparr>) s;
       let s = upd_dirent parent (\<lambda>e. e\<lparr>firstChild := Some ep\<rparr>) s;
       s \<leftarrow> (if attribute (dirents s ep) AND ATTR_DIRECTORY \<noteq> 0 \<and> (off > 32 \<or> parent = root_of fs) then do {
              (r, s) \<leftarrow> reloc_clus fsread fs ep 0 False s;
              (ep', s) \<leftarrow> direntAlloc s;
              load_loop fs ep ep' 0 s }
            else Some s);
       (ep, s) \<leftarrow> direntAlloc s;
       load_loop fs parent ep (off + push_bit 5 (of_nat count)) s } }"

definition loadDirents :: "nat \<Rightarrow> nat \<Rightarrow> 'z kfat_scheme \<Rightarrow> 'z kfat_scheme option" where
  "loadDirents fs parent s = do {
     (r, s) \<leftarrow> reloc_clus fsread fs parent 0 False s;
     (ep, s) \<leftarrow> direntAlloc s;
     load_loop fs parent ep 0 s }"

section \<open>Mounting\<close>

definition FAT32_name :: "u8 list" where
  "FAT32_name = [70, 65, 84, 51, 50]"

text \<open>The fields of the boot sector.\<close>

definition boot_superblock :: "u8 list \<Rightarrow> superblock" where
  "boot_superblock d =
     (let rsvd = get16 d 14; fats = d ! 16; fsz = get32 d 36; tot = get32 d 32; spc = d ! 13; bps = get16 d 11;
          first = ucast rsvd + ucast fats * fsz
      in \<lparr>first_data_sec = first, data_sec_cnt = tot - first, data_clus_cnt = (tot - first) div ucast spc,
          byts_per_clus = ucast spc * ucast bps, byts_per_sec = bps, sec_per_clus = spc, rsvd_sec_cnt = rsvd,
          fat_cnt = fats, hidd_sec = get32 d 28, tot_sec = tot, fat_sz = fsz, root_clus = get32 d 44\<rparr>)"

text \<open>The pages of the bitmap: \<open>cnt\<close> bytes are mapped already.\<close>

partial_function (option) bitmap_pages :: "u64 \<Rightarrow> nat \<Rightarrow> nat \<Rightarrow> 'z kmem_scheme \<Rightarrow> 'z kmem_scheme option" where
  "bitmap_pages base n cnt s = do {
     (pp, s) \<leftarrow> pageAlloc s;
     (r, s) \<leftarrow> pageInsert (kernelPageDirectory s) (base + of_nat cnt) (page2pa pp) (PTE_READ OR PTE_WRITE) s;
     kassert (\<not> r < 0);
     if (cnt + 4096) * 8 < n then bitmap_pages base n (cnt + 4096) s else Some s }"

definition mark_cluster :: "u64 \<Rightarrow> nat \<Rightarrow> 'z kmem_scheme \<Rightarrow> 'z kmem_scheme option" where
  "mark_cluster base no s = do {
     let va = base + 8 * of_nat (no div 64);
     w \<leftarrow> kload64 va s;
     kstore64 va (w OR push_bit (no mod 64) 1) s }"

definition load_bitmap :: "nat \<Rightarrow> u64 \<Rightarrow> 'z kfat_scheme \<Rightarrow> 'z kfat_scheme option" where
  "load_bitmap fs base s =
     (let ent_per_sec = unat (byts_per_sec (sb fs s)) div 4
      in kfor 0 (unat (fat_sz (sb fs s))) (\<lambda>i s. do {
           (h, s) \<leftarrow> fsread fs (ucast (ucast (rsvd_sec_cnt (sb fs s)) + of_nat i :: u32)) s;
           s \<leftarrow> kfor 0 ent_per_sec (\<lambda>j s.
             if get32 (buf_data h s) (4 * j) \<noteq> 0 then mark_cluster base (i * ent_per_sec + j) s else Some s) s;
           brelse h s }) s)"

definition fatInit :: "nat \<Rightarrow> 'z kfat_scheme \<Rightarrow> (int \<times> 'z kfat_scheme) option" where
  "fatInit fs s = do {
     (h, s) \<leftarrow> fsread fs 0 s;
     kassert (strncmp_bytes 5 (drop 82 (buf_data h s)) FAT32_name = 0);
     let s = upd_fs fs (\<lambda>f. f\<lparr>superBlock := boot_superblock (buf_data h s)\<rparr>) s;
     s \<leftarrow> brelse h s;
     kassert (byts_per_sec (sb fs s) = 512);
     let c = root_clus (sb fs s);
     let s = upd_dirent (root_of fs) (\<lambda>_. zero_dirent\<lparr>attribute := ATTR_DIRECTORY OR ATTR_SYSTEM,
       d_inode := (\<lambda>_. - 1)(0 := c), first_clus := c, cur_clus := c, inodeMaxCluster := 1,
       filename := 47 # replicate 255 0, fileSystem_of := Some fs\<rparr>) s;
     let base = getFileSystemClusterBitmap fs;
     s \<leftarrow> bitmap_pages base (totalClusterNumber (sb fs s)) 0 s;
     s \<leftarrow> load_bitmap fs base s;
     s \<leftarrow> loadDirents fs (root_of fs) s;
     Some (0, s) }"

text \<open>\<^verbatim>\<open>getFsStatus\<close>: the fields it fills in.\<close>

record FileSystemStatus =
  f_bsize :: u64
  f_blocks :: u64
  f_bfree :: u64
  f_bavail :: u64
  f_files :: u64
  f_ffree :: u64
  f_namelen :: u64

definition getFsStatus :: "u8 list \<Rightarrow> 'z kfat_scheme \<Rightarrow> (FileSystemStatus option \<times> 'z kfat_scheme) option" where
  "getFsStatus path s = do {
     (de, s) \<leftarrow> ename AT_FDCWD path True s;
     case de of None \<Rightarrow> Some (None, s)
     | Some de \<Rightarrow> do {
         fs \<leftarrow> fileSystem_of (dirents s de);
         Some (Some \<lparr>f_bsize = 189, f_blocks = ucast (tot_sec (sb fs s) - first_data_sec (sb fs s)), f_bfree = 1,
           f_bavail = 2, f_files = 4, f_ffree = 3, f_namelen = 255\<rparr>, s) } }"

end
