(* ===== verification/Socket.thy ===== *)
theory Socket
  imports File_System
begin

text \<open>
  Sockets on the local host, \<^verbatim>\<open>src/kernel/fs/Socket.c\<close>, and the console, \<^verbatim>\<open>src/kernel/driver/Console.c\<close>.
  A socket has one page of buffer in kernel virtual memory, used as a ring. The console output is the
  list of the characters that system calls send, without the messages of the kernel itself; its input
  is a ring that another hart fills.
\<close>

abbreviation (input) SOCKET_COUNT :: nat where "SOCKET_COUNT \<equiv> 128"
abbreviation (input) PENDING_COUNT :: nat where "PENDING_COUNT \<equiv> 128"
abbreviation (input) IO_BUFFER :: u64 where "IO_BUFFER \<equiv> 0x10000"

record SocketAddr =
  family :: u16
  port :: u16
  sa_addr :: u32
  sa_zero :: "u8 list"

record Socket =
  so_used :: bool
  so_process :: "nat option"
  so_addr :: SocketAddr
  target_addr :: SocketAddr
  so_head :: u64
  so_tail :: u64
  pending_queue :: "nat \<Rightarrow> SocketAddr"
  pending_h :: int
  pending_t :: int
  listening :: bool

record AsynInput =
  ai_buffer :: "nat \<Rightarrow> u8"
  ai_head :: u64
  ai_tail :: u64

record kio = kfat +
  sockets :: "nat \<Rightarrow> Socket"
  local_port :: int
  asynInputBuffer :: AsynInput
  console_out :: "u8 list"

abbreviation upd_socket :: "nat \<Rightarrow> (Socket \<Rightarrow> Socket) \<Rightarrow> 'z kio_scheme \<Rightarrow> 'z kio_scheme" where
  "upd_socket i f s \<equiv> s\<lparr>sockets := (sockets s)(i := f (sockets s i))\<rparr>"

text \<open>\<^verbatim>\<open>getHartTrapFrame()->epc -= 4; yield();\<close>\<close>

abbreviation retry :: "'z kproc_scheme \<Rightarrow> 'z kproc_scheme" where
  "retry s \<equiv> s\<lparr>hartTrapframe := (hartTrapframe s)(tf_epc := hartTrapframe s tf_epc - 4)\<rparr>"

section \<open>The console\<close>

definition putchar :: "u8 \<Rightarrow> 'z kio_scheme \<Rightarrow> 'z kio_scheme" where
  "putchar ch s = s\<lparr>console_out := console_out s @ [ch]\<rparr>"

definition asynGetChar :: "'z kio_scheme \<Rightarrow> u8 \<times> 'z kio_scheme" where
  "asynGetChar s = (let b = asynInputBuffer s
     in if ai_head b \<noteq> ai_tail b
        then (ai_buffer b (unat (ai_head b AND (IO_BUFFER - 1))), s\<lparr>asynInputBuffer := b\<lparr>ai_head := ai_head b + 1\<rparr>\<rparr>)
        else (- 1, s))"

definition hasChar :: "'z kio_scheme \<Rightarrow> bool" where
  "hasChar s \<longleftrightarrow> ai_head (asynInputBuffer s) \<noteq> ai_tail (asynInputBuffer s)"

text \<open>
  What the UART holds is a list; \<^verbatim>\<open>getchar\<close> takes its first character, or gives \<^verbatim>\<open>-1\<close>. One turn of the loop
  of \<^verbatim>\<open>asynInput\<close> leaves the characters with the UART while the ring is full. A byte that equals \<^verbatim>\<open>-1\<close> is
  taken and not stored.
\<close>

definition getchar :: "u8 list \<Rightarrow> int \<times> u8 list" where
  "getchar uart = (case uart of [] \<Rightarrow> (- 1, []) | c # cs \<Rightarrow> (uint c, cs))"

definition asynInput :: "u8 list \<Rightarrow> 'z kio_scheme \<Rightarrow> u8 list \<times> 'z kio_scheme" where
  "asynInput uart s = (let b = asynInputBuffer s
     in if ai_tail b - ai_head b = IO_BUFFER then (uart, s)
        else let (c, uart) = getchar uart; c = word_of_int c
          in (uart, if c \<noteq> - 1
            then s\<lparr>asynInputBuffer := b\<lparr>ai_buffer := (ai_buffer b)(unat (ai_tail b AND (IO_BUFFER - 1)) := c), ai_tail := ai_tail b + 1\<rparr>\<rparr>
            else s))"

definition asynInputInit :: "'z kio_scheme \<Rightarrow> 'z kio_scheme" where
  "asynInputInit s = s\<lparr>asynInputBuffer := (asynInputBuffer s)\<lparr>ai_head := 0, ai_tail := 0\<rparr>\<rparr>"

type_synonym 'z io_reader = "nat option \<Rightarrow> u64 \<Rightarrow> u32 \<Rightarrow> u32 \<Rightarrow> 'z kio_scheme \<Rightarrow> (int \<times> 'z kio_scheme) option"

function consoleWrite :: "'z io_reader \<Rightarrow> bool \<Rightarrow> u64 \<Rightarrow> nat \<Rightarrow> nat \<Rightarrow> 'z kio_scheme \<Rightarrow> (int \<times> 'z kio_scheme) option" where
  "consoleWrite er user_src src n i s =
     (if i < n then do {
        (bs, s) \<leftarrow> either_copyin er user_src (src + of_nat i) 1 s;
        let c = bs ! 0;
        let s = (if c = 10 then putchar 13 s else s);
        consoleWrite er user_src src n (i + 1) (putchar c s) }
      else Some (int i, s))"
  by pat_completeness auto
termination
  by (relation "measure (\<lambda>(er, user_src, src, n, i, s). n - i)") auto

function consoleRead :: "'z io_reader \<Rightarrow> bool \<Rightarrow> u64 \<Rightarrow> nat \<Rightarrow> nat \<Rightarrow> 'z kio_scheme \<Rightarrow> ((int, 'l) progress \<times> 'z kio_scheme) option" where
  "consoleRead er isUser dst n i s =
     (if i < n then do {
        let (c, s) = asynGetChar s;
        if c = - 1 \<and> i = 0 then Some (Retries, retry s)
        else if c = - 1 then Some (Returns (int i), s)
        else do {
          let s = (if c = 10 then putchar 13 s else s);
          (r, s) \<leftarrow> either_copyout er isUser (dst + of_nat i) [c] 1 s;
          if r = - 1 then Some (Returns (int i), s) else consoleRead er isUser dst n (i + 1) s } }
      else Some (Returns (int i), s))"
  by pat_completeness auto
termination
  by (relation "measure (\<lambda>(er, isUser, dst, n, i, s). n - i)") auto

declare consoleWrite.simps [simp del] consoleRead.simps [simp del]

section \<open>Sockets\<close>

definition getSocketBufferBase :: "nat \<Rightarrow> u64" where
  "getSocketBufferBase i = SOCKET_BUFFER_BASE + push_bit 12 (of_nat i)"

definition socketAlloc :: "'z kio_scheme \<Rightarrow> (nat option \<times> 'z kio_scheme) option" where
  "socketAlloc s = (case find (\<lambda>i. \<not> so_used (sockets s i)) [0..<SOCKET_COUNT] of
     None \<Rightarrow> Some (None, s)
   | Some i \<Rightarrow> do {
       let s = upd_socket i (\<lambda>k. k\<lparr>so_used := True, so_head := 0, so_tail := 0, listening := False, pending_h := 0, pending_t := 0\<rparr>) s;
       (page, s) \<leftarrow> pageAlloc s;
       (r, s) \<leftarrow> pageInsert (kernelPageDirectory s) (getSocketBufferBase i) (page2pa page) (PTE_READ OR PTE_WRITE) s;
       Some (Some i, upd_socket i (\<lambda>k. k\<lparr>so_process := myProcess s\<rparr>) s) })"

definition remote_find_peer_socket :: "nat \<Rightarrow> 'z kio_scheme \<Rightarrow> nat option" where
  "remote_find_peer_socket l s = find (\<lambda>i. so_used (sockets s i)
     \<and> family (so_addr (sockets s i)) = family (target_addr (sockets s l))
     \<and> port (so_addr (sockets s i)) = port (target_addr (sockets s l))
     \<and> port (target_addr (sockets s i)) = port (so_addr (sockets s l))) [0..<SOCKET_COUNT]"

definition socketFree :: "nat \<Rightarrow> 'z kio_scheme \<Rightarrow> 'z kio_scheme option" where
  "socketFree i s = do {
     (r, s) \<leftarrow> pageRemove (kernelPageDirectory s) (getSocketBufferBase i) s;
     Some (upd_socket i (\<lambda>k. k\<lparr>so_used := False\<rparr>) s) }"

text \<open>\<^verbatim>\<open>strncpy\<close> of \<open>n\<close> bytes from a buffer: everything after a NUL becomes zero.\<close>

definition strncpy_bytes :: "nat \<Rightarrow> u8 list \<Rightarrow> u8 list" where
  "strncpy_bytes n bs = take n (cstr (take n bs) @ replicate n 0)"

definition kwrite :: "u64 \<Rightarrow> u8 list \<Rightarrow> 'z kmem_scheme \<Rightarrow> 'z kmem_scheme option" where
  "kwrite va bs s = do { pa \<leftarrow> kva va s; Some (s\<lparr>mem := mem_write (mem s) pa bs\<rparr>) }"

definition kread :: "u64 \<Rightarrow> nat \<Rightarrow> 'z kmem_scheme \<Rightarrow> u8 list option" where
  "kread va n s = do { pa \<leftarrow> kva va s; Some (mem_bytes (mem s) pa n) }"

text \<open>Sending the \<open>len\<close> bytes \<open>buf\<close> to the peer of a socket.\<close>

definition sendTo :: "nat \<Rightarrow> u8 list \<Rightarrow> u32 \<Rightarrow> 'z kio_scheme \<Rightarrow> ((int, 'l) progress \<times> 'z kio_scheme) option" where
  "sendTo sock buf len s = do {
     i \<leftarrow> remote_find_peer_socket sock s;
     let tail = so_tail (sockets s i);
     let off = tail AND (PAGE_SIZE - 1);
     let num = min (PAGE_SIZE - (tail - so_head (sockets s i))) (ucast len);
     if (ucast num :: u32) = 0 then Some (Retries, retry s)
     else do {
       let num = (ucast num :: u32);
       let len1 = min (ucast num) (PAGE_SIZE - off);
       s \<leftarrow> kwrite (getSocketBufferBase i + off) (strncpy_bytes (unat len1) buf) s;
       s \<leftarrow> (if len1 < ucast num
            then kwrite (getSocketBufferBase i) (strncpy_bytes (unat num - unat len1) (drop (unat len1) buf)) s
            else Some s);
       Some (Returns (sint num), upd_socket i (\<lambda>k. k\<lparr>so_tail := so_tail k + ucast num\<rparr>) s) } }"

definition receiveFrom :: "'z io_reader \<Rightarrow> nat \<Rightarrow> u64 \<Rightarrow> u32 \<Rightarrow> 'z kio_scheme \<Rightarrow> ((int, 'l) progress \<times> 'z kio_scheme) option" where
  "receiveFrom er i buf len s = do {
     let head = so_head (sockets s i);
     let off = head AND (PAGE_SIZE - 1);
     let num = (ucast (min (ucast len) (so_tail (sockets s i) - head)) :: u32);
     if num = 0 then Some (Retries, retry s)
     else do {
       let len1 = min (ucast num) (PAGE_SIZE - off);
       p \<leftarrow> myProcess s;
       let pgdir = p_pgdir (processes s p);
       bs \<leftarrow> kread (getSocketBufferBase i + off) (unat len1) s;
       (r, s) \<leftarrow> copyout er pgdir buf bs len1 s;
       s \<leftarrow> (if len1 < ucast num then do {
              bs \<leftarrow> kread (getSocketBufferBase i) (unat num - unat len1) s;
              (r, s) \<leftarrow> copyout er pgdir (buf + len1) bs (ucast num - len1) s;
              Some s }
            else Some s);
       Some (Returns (sint num), upd_socket i (\<lambda>k. k\<lparr>so_head := so_head k + ucast num\<rparr>) s) } }"

definition socket_read :: "'z io_reader \<Rightarrow> nat \<Rightarrow> bool \<Rightarrow> u64 \<Rightarrow> int \<Rightarrow> 'z kio_scheme \<Rightarrow> ((int, 'l) progress \<times> 'z kio_scheme) option" where
  "socket_read er sock isUser addr n s = do {
     kassert isUser;
     receiveFrom er sock addr (word_of_int n) s }"

text \<open>The static buffer has ten pages, and a NUL is stored behind the data.\<close>

definition socket_write :: "'z io_reader \<Rightarrow> nat \<Rightarrow> bool \<Rightarrow> u64 \<Rightarrow> int \<Rightarrow> 'z kio_scheme \<Rightarrow> ((int, 'l) progress \<times> 'z kio_scheme) option" where
  "socket_write er sock isUser addr n s = do {
     kassert (0 \<le> n \<and> n < 40960);
     (buf, s) \<leftarrow> either_copyin er isUser addr (word_of_int n) s;
     sendTo sock buf (word_of_int n) s }"

definition remote_find_listening_socket :: "SocketAddr \<Rightarrow> 'z kio_scheme \<Rightarrow> nat option" where
  "remote_find_listening_socket a s = find (\<lambda>i. so_used (sockets s i) \<and> family (so_addr (sockets s i)) = family a
     \<and> port (so_addr (sockets s i)) = port a \<and> listening (sockets s i)) [0..<SOCKET_COUNT]"

text \<open>The last bytes of the address are never set; \<open>junk\<close> is what the stack holds there.\<close>

definition gen_local_socket_addr :: "u8 list \<Rightarrow> 'z kio_scheme \<Rightarrow> SocketAddr \<times> 'z kio_scheme" where
  "gen_local_socket_addr junk s =
     (\<lparr>family = 2, port = word_of_int (local_port s), sa_addr = 0x7F000001, sa_zero = junk\<rparr>, s\<lparr>local_port := local_port s + 1\<rparr>)"

end
