(* ===== verification/File.thy ===== *)
theory File
  imports Socket
begin

text \<open>
  The table of open files, \<^verbatim>\<open>src/kernel/fs/File.c\<close>, with \<^verbatim>\<open>pipeNew\<close> of \<^verbatim>\<open>Pipe.c\<close>, \<^verbatim>\<open>fdalloc\<close> and
  \<^verbatim>\<open>getAbsolutePath\<close> of \<^verbatim>\<open>Sysfile.c\<close>, and the socket calls that work on descriptors.
\<close>

abbreviation (input) NFILE :: nat where "NFILE \<equiv> 512"
abbreviation (input) NDEV :: int where "NDEV \<equiv> 4"
abbreviation (input) DEV_SD :: int where "DEV_SD \<equiv> 0"
abbreviation (input) DEV_CONSOLE :: int where "DEV_CONSOLE \<equiv> 1"

section \<open>Files\<close>

definition zero_file :: File where
  "zero_file = \<lparr>f_type = FD_NONE, f_ref = 0, f_readable = False, f_writable = False, f_pipe = 0, f_ep = None, f_socket = 0,
     f_off = 0, f_major = 0, f_curChild = None\<rparr>"

definition fileinit :: "'z kfat_scheme \<Rightarrow> 'z kfat_scheme" where
  "fileinit s = s\<lparr>ftable := (\<lambda>i. if i < NFILE then zero_file else ftable s i)\<rparr>"

definition filealloc :: "'z kfat_scheme \<Rightarrow> nat option \<times> 'z kfat_scheme" where
  "filealloc s = (case find (\<lambda>i. f_ref (ftable s i) = 0) [0..<NFILE] of
     None \<Rightarrow> (None, s)
   | Some i \<Rightarrow> (Some i, upd_file i (\<lambda>f. f\<lparr>f_ref := 1\<rparr>) s))"

definition filedup :: "nat \<Rightarrow> 'z kfat_scheme \<Rightarrow> 'z kfat_scheme option" where
  "filedup f s = do {
     kassert (\<not> f_ref (ftable s f) < 1);
     Some (upd_file f (\<lambda>x. x\<lparr>f_ref := f_ref x + 1\<rparr>) s) }"

definition fileclose :: "nat \<Rightarrow> 'z kio_scheme \<Rightarrow> 'z kio_scheme option" where
  "fileclose f s = do {
     kassert (\<not> f_ref (ftable s f) < 1);
     let s = upd_file f (\<lambda>x. x\<lparr>f_ref := f_ref x - 1\<rparr>) s;
     if f_ref (ftable s f) > 0 then Some s
     else do {
       let ff = ftable s f;
       let s = upd_file f (\<lambda>x. x\<lparr>f_ref := 0, f_type := FD_NONE\<rparr>) s;
       if f_type ff = FD_PIPE then pipeClose (f_pipe ff) (f_writable ff) s
       else if f_type ff = FD_SOCKET then socketFree (f_socket ff) s
       else Some s } }"

definition initRootFileSystem :: "'z kfat_scheme \<Rightarrow> 'z kfat_scheme option" where
  "initRootFileSystem s = do {
     let (f, s) = filealloc s;
     r \<leftarrow> rootFileSystem s;
     f \<leftarrow> f;
     let s = upd_fs r (\<lambda>x. x\<lparr>fs_image := Some f\<rparr>) s;
     Some (upd_file f (\<lambda>x. x\<lparr>f_type := FD_DEVICE, f_major := 0, f_readable := True, f_writable := True\<rparr>) s) }"

text \<open>The structure \<^verbatim>\<open>stat\<close> in memory; \<open>junk\<close> are the padding bytes, which the kernel does not set.\<close>

definition stat_bytes :: "u8 list \<Rightarrow> stat \<Rightarrow> u8 list" where
  "stat_bytes junk st =
     le_bytes 8 (st_dev st) @ le_bytes 8 (st_ino st) @ le_bytes 4 (ucast (st_mode st)) @ le_bytes 4 (ucast (st_nlink st))
     @ le_bytes 4 (ucast (st_uid st)) @ le_bytes 4 (ucast (st_gid st)) @ le_bytes 8 (st_rdev st) @ take 8 junk
     @ le_bytes 8 (st_size st) @ le_bytes 4 (ucast (st_blksize st)) @ take 4 (drop 8 junk) @ le_bytes 8 (st_blocks st)
     @ le_bytes 8 (st_atime_sec st) @ le_bytes 8 (st_atime_nsec st) @ le_bytes 8 (st_mtime_sec st)
     @ le_bytes 8 (st_mtime_nsec st) @ le_bytes 8 (st_ctime_sec st) @ le_bytes 8 (st_ctime_nsec st) @ take 8 (drop 12 junk)"

definition filestat :: "u8 list \<Rightarrow> nat \<Rightarrow> u64 \<Rightarrow> 'z kio_scheme \<Rightarrow> (int \<times> 'z kio_scheme) option" where
  "filestat junk f addr s = do {
     p \<leftarrow> myProcess s;
     if f_type (ftable s f) = FD_ENTRY then do {
       ep \<leftarrow> f_ep (ftable s f);
       (st, s) \<leftarrow> estat ep s;
       (r, s) \<leftarrow> copyout kernel_reader (p_pgdir (processes s p)) addr (stat_bytes junk st) 128 s;
       Some (if r < 0 then - 1 else 0, s) }
     else Some (- 1, s) }"

text \<open>
  The card as a device, \<^verbatim>\<open>src/kernel/driver/Sd.c\<close>. The loops run once for every byte of the length,
  not for every block.
\<close>

definition sdCardRead :: "bool \<Rightarrow> u64 \<Rightarrow> u64 \<Rightarrow> u64 \<Rightarrow> 'z kio_scheme \<Rightarrow> (int \<times> 'z kio_scheme) option" where
  "sdCardRead isUser dst startAddr n s =
     (if n AND 0x1FF \<noteq> 0 \<or> startAddr AND 0x1FF \<noteq> 0 then Some (- 1, s)
      else do {
        s \<leftarrow> kfor 0 (unat n) (\<lambda>i s. do {
          (r, s) \<leftarrow> either_copyout kernel_reader isUser (dst + 512 * of_nat i) (sdcard s (ucast (drop_bit 9 startAddr) + of_nat i)) 512 s;
          Some s }) s;
        Some (0, s) })"

definition sdCardWrite :: "bool \<Rightarrow> u64 \<Rightarrow> u64 \<Rightarrow> u64 \<Rightarrow> 'z kio_scheme \<Rightarrow> (int \<times> 'z kio_scheme) option" where
  "sdCardWrite isUser src startAddr n s =
     (if n AND 0x1FF \<noteq> 0 \<or> startAddr AND 0x1FF \<noteq> 0 then Some (- 1, s)
      else do {
        s \<leftarrow> kfor 0 (unat n) (\<lambda>i s. do {
          (bs, s) \<leftarrow> either_copyin kernel_reader isUser (src + 512 * of_nat i) 512 s;
          Some (s\<lparr>sdcard := (sdcard s)(ucast (drop_bit 9 startAddr) + of_nat i := bs)\<rparr>) }) s;
        Some (0, s) })"

text \<open>The device switch has the card and the console.\<close>

definition fileread :: "nat \<Rightarrow> bool \<Rightarrow> u64 \<Rightarrow> int \<Rightarrow> 'z kio_scheme \<Rightarrow> ((int, u64) progress \<times> 'z kio_scheme) option" where
  "fileread f isUser addr n s =
     (if \<not> f_readable (ftable s f) then Some (Returns (- 1), s)
      else case f_type (ftable s f) of
        FD_PIPE \<Rightarrow> pipeRead kernel_reader (f_pipe (ftable s f)) isUser addr n s
      | FD_DEVICE \<Rightarrow>
          if f_major (ftable s f) = DEV_CONSOLE then consoleRead kernel_reader isUser addr (nat n) 0 s
          else if f_major (ftable s f) = DEV_SD then map_option (\<lambda>(r, s). (Returns r, s)) (sdCardRead isUser addr 0 (word_of_int n) s)
          else Some (Returns (- 1), s)
      | FD_ENTRY \<Rightarrow> do {
          ep \<leftarrow> f_ep (ftable s f);
          ((r, pl), s) \<leftarrow> eread kernel_reader ep (if isUser then UserAt addr else KernelAt addr) (f_off (ftable s f)) (word_of_int n) s;
          Some (Returns r, if r > 0 then upd_file f (\<lambda>x. x\<lparr>f_off := f_off x + word_of_int r\<rparr>) s else s) }
      | FD_SOCKET \<Rightarrow> socket_read kernel_reader (f_socket (ftable s f)) isUser addr n s
      | FD_NONE \<Rightarrow> None)"

definition filewrite :: "nat \<Rightarrow> bool \<Rightarrow> u64 \<Rightarrow> int \<Rightarrow> 'z kio_scheme \<Rightarrow> ((int, int \<times> u64) progress \<times> 'z kio_scheme) option" where
  "filewrite f isUser addr n s =
     (if \<not> f_writable (ftable s f) then Some (Returns (- 1), s)
      else case f_type (ftable s f) of
        FD_PIPE \<Rightarrow> pipeWrite kernel_reader (f_pipe (ftable s f)) isUser addr n s
      | FD_DEVICE \<Rightarrow>
          if f_major (ftable s f) = DEV_CONSOLE
          then map_option (\<lambda>(r, s). (Returns r, s)) (consoleWrite kernel_reader isUser addr (nat n) 0 s)
          else if f_major (ftable s f) = DEV_SD then map_option (\<lambda>(r, s). (Returns r, s)) (sdCardWrite isUser addr 0 (word_of_int n) s)
          else Some (Returns (- 1), s)
      | FD_ENTRY \<Rightarrow> do {
          ep \<leftarrow> f_ep (ftable s f);
          (r, s) \<leftarrow> ewrite kernel_reader ep (if isUser then UserAt addr else KernelAt addr) (f_off (ftable s f)) (word_of_int n) s;
          Some (if r = n then (Returns n, upd_file f (\<lambda>x. x\<lparr>f_off := f_off x + word_of_int n\<rparr>) s) else (Returns (- 1), s)) }
      | FD_SOCKET \<Rightarrow> socket_write kernel_reader (f_socket (ftable s f)) isUser addr n s
      | FD_NONE \<Rightarrow> None)"

section \<open>Pipes and descriptors\<close>

text \<open>\<^verbatim>\<open>pipeAlloc\<close> reports nothing when no pipe is free; the pointer is then NULL.\<close>

definition pipeNew :: "'z kio_scheme \<Rightarrow> ((nat \<times> nat) option \<times> 'z kio_scheme) option" where
  "pipeNew s =
     (let (f0, s) = filealloc s
      in case f0 of None \<Rightarrow> Some (None, s)
         | Some f0 \<Rightarrow>
             (let (f1, s) = filealloc s
              in case f1 of None \<Rightarrow> do { s \<leftarrow> fileclose f0 s; Some (None, s) }
                 | Some f1 \<Rightarrow> do {
                     (pi, s) \<leftarrow> pipeAlloc s;
                     let s = upd_pipe pi (\<lambda>p. p\<lparr>readopen := True, writeopen := True\<rparr>) s;
                     let s = upd_file f0 (\<lambda>f. f\<lparr>f_type := FD_PIPE, f_readable := True, f_writable := False, f_pipe := pi\<rparr>) s;
                     let s = upd_file f1 (\<lambda>f. f\<lparr>f_type := FD_PIPE, f_readable := False, f_writable := True, f_pipe := pi\<rparr>) s;
                     Some (Some (f0, f1), s) }))"

definition fdalloc :: "nat \<Rightarrow> 'z kproc_scheme \<Rightarrow> (int \<times> 'z kproc_scheme) option" where
  "fdalloc f s = do {
     p \<leftarrow> myProcess s;
     case find (\<lambda>fd. ofile (processes s p) fd = None) [0..<min (unat (fd_hard (processes s p))) NOFILE] of
       Some fd \<Rightarrow> Some (int fd, upd_process p (\<lambda>x. x\<lparr>ofile := (ofile x)(fd := Some f)\<rparr>) s)
     | None \<Rightarrow> do { kassert (unat (fd_hard (processes s p)) \<le> NOFILE); Some (- 1, s) } }"

text \<open>The descriptor as the system calls check it.\<close>

definition fd_file :: "int \<Rightarrow> 'z kproc_scheme \<Rightarrow> nat option option" where
  "fd_file fd s = do {
     p \<leftarrow> myProcess s;
     Some (if fd < 0 \<or> fd \<ge> int NOFILE then None else ofile (processes s p) (nat fd)) }"

section \<open>Socket calls\<close>

definition createSocket :: "int \<Rightarrow> 'z kio_scheme \<Rightarrow> (int \<times> 'z kio_scheme) option" where
  "createSocket fam s = do {
     let (f, s) = filealloc s;
     (i, s) \<leftarrow> socketAlloc s;
     i \<leftarrow> i;
     let s = upd_socket i (\<lambda>k. k\<lparr>so_addr := (so_addr k)\<lparr>family := word_of_int fam\<rparr>, pending_h := 0, pending_t := 0, listening := False\<rparr>) s;
     f \<leftarrow> f;
     let s = upd_file f (\<lambda>x. x\<lparr>f_socket := i, f_type := FD_SOCKET, f_readable := True, f_writable := True\<rparr>) s;
     fdalloc f s }"

text \<open>The socket behind a descriptor; a descriptor that is none stops the kernel.\<close>

definition fd_socket :: "nat \<Rightarrow> 'z kio_scheme \<Rightarrow> nat option" where
  "fd_socket fd s = do {
     p \<leftarrow> myProcess s;
     f \<leftarrow> ofile (processes s p) fd;
     kassert (f_type (ftable s f) = FD_SOCKET);
     Some (f_socket (ftable s f)) }"

definition bindSocket :: "nat \<Rightarrow> SocketAddr \<Rightarrow> 'z kio_scheme \<Rightarrow> (int \<times> 'z kio_scheme) option" where
  "bindSocket fd sa s = do {
     i \<leftarrow> fd_socket fd s;
     kassert (family (so_addr (sockets s i)) = family sa);
     Some (0, upd_socket i (\<lambda>k. k\<lparr>so_addr := (so_addr k)\<lparr>sa_addr := sa_addr sa, port := port sa\<rparr>\<rparr>) s) }"

definition listen :: "nat \<Rightarrow> 'z kio_scheme \<Rightarrow> (int \<times> 'z kio_scheme) option" where
  "listen fd s = do {
     i \<leftarrow> fd_socket fd s;
     Some (0, upd_socket i (\<lambda>k. k\<lparr>listening := True\<rparr>) s) }"

definition addr_bytes :: "SocketAddr \<Rightarrow> u8 list" where
  "addr_bytes a = le_bytes 2 (ucast (family a)) @ le_bytes 2 (ucast (port a)) @ le_bytes 4 (ucast (sa_addr a)) @ sa_zero a"

definition getSocketName :: "nat \<Rightarrow> u64 \<Rightarrow> 'z kio_scheme \<Rightarrow> (int \<times> 'z kio_scheme) option" where
  "getSocketName fd va s = do {
     i \<leftarrow> fd_socket fd s;
     p \<leftarrow> myProcess s;
     (r, s) \<leftarrow> copyout kernel_reader (p_pgdir (processes s p)) va (addr_bytes (so_addr (sockets s i))) 32 s;
     Some (0, s) }"

text \<open>The result and the address of the peer, if a connection was waiting.\<close>

definition accept :: "nat \<Rightarrow> 'z kio_scheme \<Rightarrow> ((int \<times> SocketAddr option) \<times> 'z kio_scheme) option" where
  "accept fd s = do {
     l \<leftarrow> fd_socket fd s;
     if pending_h (sockets s l) = pending_t (sockets s l) then Some ((- 11, None), s)
     else do {
       let a = pending_queue (sockets s l) (nat (pending_h (sockets s l) mod int PENDING_COUNT));
       let s = upd_socket l (\<lambda>k. k\<lparr>pending_h := pending_h k + 1\<rparr>) s;
       (n, s) \<leftarrow> socketAlloc s;
       n \<leftarrow> n;
       let s = upd_socket n (\<lambda>k. k\<lparr>so_addr := so_addr (sockets s l), target_addr := a\<rparr>) s;
       let (f, s) = filealloc s;
       f \<leftarrow> f;
       let s = upd_file f (\<lambda>x. x\<lparr>f_socket := n, f_type := FD_SOCKET, f_readable := True, f_writable := True\<rparr>) s;
       s \<leftarrow> wakeup (case remote_find_peer_socket n s of None \<Rightarrow> NoChan | Some i \<Rightarrow> ChanSocket i) s;
       (r, s) \<leftarrow> fdalloc f s;
       Some ((r, Some a), s) } }"

text \<open>A connection request waits in the queue of the listener; the caller sleeps until it is accepted.\<close>

definition connect :: "u8 list \<Rightarrow> nat \<Rightarrow> SocketAddr \<Rightarrow> 'z kio_scheme \<Rightarrow> ((int, unit) progress \<times> 'z kio_scheme) option" where
  "connect junk fd a s = do {
     l \<leftarrow> fd_socket fd s;
     let (la, s) = gen_local_socket_addr junk s;
     let s = upd_socket l (\<lambda>k. k\<lparr>so_addr := la, target_addr := a\<rparr>) s;
     case remote_find_listening_socket a s of
       None \<Rightarrow> Some (Returns (- 1), s)
     | Some t \<Rightarrow>
         if pending_t (sockets s t) - pending_h (sockets s t) = int PENDING_COUNT then Some (Returns (- 1), s)
         else do {
           let s = upd_socket t (\<lambda>k. k\<lparr>pending_queue := (pending_queue k)(nat (pending_t k mod int PENDING_COUNT) := so_addr (sockets s l)),
             pending_t := pending_t k + 1\<rparr>) s;
           (b, s) \<leftarrow> sleep_begin (ChanSocket l) () s;
           Some (Blocks b, s) } }"

definition connect_resume :: "'z kio_scheme \<Rightarrow> ((int, unit) progress \<times> 'z kio_scheme) option" where
  "connect_resume s = do {
     (b, s) \<leftarrow> sleep_end () s;
     case b of Killed \<Rightarrow> Some (Blocks Killed, s) | Sleeps u \<Rightarrow> Some (Returns 0, s) }"

section \<open>Paths of entries\<close>

text \<open>
  The path is built from its end in a buffer of 260 bytes: \<open>pos\<close> is the place of its first byte.
\<close>

partial_function (option) path_up :: "nat \<Rightarrow> int \<Rightarrow> int \<Rightarrow> u8 list \<Rightarrow> 'z kfat_scheme \<Rightarrow> u8 list option option" where
  "path_up d maxLen pos acc s = (case d_parent (dirents s d) of
     None \<Rightarrow> Some (Some acc)
   | Some p \<Rightarrow>
       (let name = cstr (filename (dirents s d));
            pos = pos - int (length name)
        in if pos \<le> 0 \<or> pos \<le> 260 - maxLen then Some None
           else path_up p maxLen (pos - 1) (47 # name @ acc) s))"

text \<open>The path with its NUL, \<open>None\<close> for the result -1.\<close>

definition absolute_path :: "nat \<Rightarrow> int \<Rightarrow> 'z kfat_scheme \<Rightarrow> u8 list option option" where
  "absolute_path d maxLen s = (case d_parent (dirents s d) of
     None \<Rightarrow> Some (Some [47, 0])
   | Some p \<Rightarrow> map_option (map_option (\<lambda>path. path @ [0])) (path_up d maxLen 259 [] s))"

definition getAbsolutePath :: "nat \<Rightarrow> place \<Rightarrow> int \<Rightarrow> 'z kfat_scheme \<Rightarrow> ((int \<times> place) \<times> 'z kfat_scheme) option" where
  "getAbsolutePath d pl maxLen s = do {
     path \<leftarrow> absolute_path d maxLen s;
     case path of None \<Rightarrow> Some ((- 1, pl), s)
     | Some path \<Rightarrow> put_place kernel_reader pl path s }"

section \<open>Memory maps\<close>

abbreviation (input) MAP_FIXED :: u32 where "MAP_FIXED \<equiv> 0x10"
abbreviation (input) MAP_ANONYMOUS :: u32 where "MAP_ANONYMOUS \<equiv> 0x20"

text \<open>Every page of the range becomes a zeroed page with the given permissions.\<close>

partial_function (option) mmap_pages :: "nat \<Rightarrow> u64 \<Rightarrow> u64 \<Rightarrow> u64 \<Rightarrow> 'z kmem_scheme \<Rightarrow> 'z kmem_scheme option" where
  "mmap_pages p start fin perm s =
     (if start < fin then do {
        let pgdir = p_pgdir (processes s p);
        let (pa, pte) = pageLookup pgdir start s;
        (pa, pte, s) \<leftarrow> (if pa > 0 \<and> (case pte of None \<Rightarrow> False | Some e \<Rightarrow> load64 (mem s) e AND PTE_COW \<noteq> 0) then do {
              (r, s) \<leftarrow> cowHandler pgdir start s;
              let (pa, pte) = pageLookup pgdir start s;
              Some (pa, pte, s) }
            else Some (pa, pte, s));
        s \<leftarrow> (if pa = 0 then do {
               (page, s) \<leftarrow> pageAlloc s;
               (r, s) \<leftarrow> pageInsert pgdir start (page2pa page) (perm OR PTE_USER) s;
               Some s }
             else do {
               pte \<leftarrow> pte;
               let s = s\<lparr>mem := bzero (mem s) pa (ucast (min PAGE_SIZE (fin - start)))\<rparr>;
               Some (s\<lparr>mem := store64 (mem s) pte (PA2PTE pa OR perm OR PTE_USER OR PTE_VALID)\<rparr>) });
        mmap_pages p (start + PAGE_SIZE) fin perm s }
      else Some s)"

definition do_mmap :: "nat option \<Rightarrow> u64 \<Rightarrow> u64 \<Rightarrow> u64 \<Rightarrow> u32 \<Rightarrow> u64 \<Rightarrow> 'z kio_scheme
    \<Rightarrow> ((u64, u64) progress \<times> 'z kio_scheme) option" where
  "do_mmap fd start len perm flags off s = do {
     kassert (PAGE_OFFSET start PAGE_SIZE = 0);
     p \<leftarrow> myProcess s;
     (start, s) \<leftarrow> (if start = 0 then do {
          let bottom = UP_ALIGN (mmapHeapBottom (processes s p)) PAGE_SIZE;
          let s = upd_process p (\<lambda>x. x\<lparr>mmapHeapBottom := UP_ALIGN (bottom + len) PAGE_SIZE\<rparr>) s;
          kassert (mmapHeapBottom (processes s p) < USER_STACK_BOTTOM);
          Some (bottom, s) }
        else Some (start, s));
     let fin = start + len;
     s \<leftarrow> (if flags AND MAP_FIXED \<noteq> 0 then do {
            kassert (start \<le> brkHeapBottom (processes s p));
            Some (upd_process p (\<lambda>x. x\<lparr>brkHeapBottom := max (UP_ALIGN fin PAGE_SIZE) (brkHeapBottom x)\<rparr>) s) }
          else Some s);
     s \<leftarrow> mmap_pages p start fin perm s;
     if flags AND MAP_ANONYMOUS \<noteq> 0 then Some (Returns start, s)
     else case fd of None \<Rightarrow> Some (Returns start, s)
     | Some f \<Rightarrow> do {
         let s = upd_file f (\<lambda>x. x\<lparr>f_off := ucast off\<rparr>) s;
         (r, s) \<leftarrow> fileread f True start (to_int len) s;
         Some (case r of Returns r \<Rightarrow> Returns (if r \<ge> 0 then start else - 1)
               | Blocks b \<Rightarrow> Blocks b | Retries \<Rightarrow> Retries, s) } }"

end
