(* ===== verification/Page_Frame.thy ===== *)
theory Page_Frame
  imports Page_Table
begin

text \<open>
  What the page functions leave alone, whatever the tables look like: everything but physical memory,
  the free list and the page counts.
\<close>

declare One_nat_def [simp del]

lemma only_mem_hart [simp]: "only_mem s (s\<lparr>page_hart := h\<rparr>)"
  by (simp add: only_mem_def)

lemma only_mem_alloc: "pageAlloc s = Some (p, t) \<Longrightarrow> only_mem s t"
  by (auto simp: pageAlloc_def Let_def only_mem_def bind_eq_Some_conv split: option.splits)

lemma only_mem_walk_level: "pageWalk_level a c s = Some (r, t) \<Longrightarrow> only_mem s t"
proof (cases "load64 (mem s) a = 0 \<and> c")
  case True
  moreover assume "pageWalk_level a c s = Some (r, t)"
  ultimately obtain pp u where "pageAlloc s = Some (pp, u)"
    "t = u\<lparr>mem := store64 (mem u) a (page2pte pp OR PTE_VALID), page_ref := (page_ref u)(pp := page_ref u pp + 1)\<rparr>"
    by (auto simp: pageWalk_level_def Let_def bind_eq_Some_conv)
  then show ?thesis by (auto dest!: only_mem_alloc elim!: only_mem_trans) (simp add: only_mem_def)
qed (auto simp: pageWalk_level_def split: if_splits)

lemma only_mem_walk: "pageWalk pg va c s = Some (r, t) \<Longrightarrow> only_mem s t"
  by (auto simp: pageWalk_def bind_eq_Some_conv split: option.splits dest!: only_mem_walk_level intro: only_mem_trans)

lemma only_mem_remove: "pageRemove pg va s = Some (r, t) \<Longrightarrow> only_mem s t"
  by (auto simp: pageRemove_def pageFree_def Let_def bind_eq_Some_conv only_mem_def split: prod.splits if_splits)

lemma only_mem_insert: "pageInsert pg va pa perm s = Some (r, t) \<Longrightarrow> only_mem s t"
proof -
  let ?va = "DOWN_ALIGN va PAGE_SIZE" and ?pa = "DOWN_ALIGN pa PAGE_SIZE"
  assume "pageInsert pg va pa perm s = Some (r, t)"
  then obtain w2 w3 w1 where 1: "pageWalk pg ?va False s = Some w1"
    and 2: "(if fst w1 \<noteq> 0 \<and> load64 (mem (snd w1)) (fst w1) AND PTE_VALID \<noteq> 0 then pageRemove pg ?va (snd w1) else Some (0, snd w1)) = Some w2"
    and 3: "pageWalk pg ?va True (snd w2) = Some w3"
    and 4: "only_mem (snd w3) t"
    unfolding pageInsert_def Let_def split_def
    by - (elim bind_SomeE, rule that, assumption+, (cases "is_ram ?pa"; cases "pa2page ?pa"; auto simp: only_mem_def))
  have "only_mem (snd w1) (snd w2)"
    using 2 only_mem_remove [of pg ?va "snd w1" "fst w2" "snd w2"] by (auto split: if_splits)
  then show ?thesis
    using only_mem_walk [of pg ?va False s "fst w1" "snd w1"] only_mem_walk [of pg ?va True "snd w2" "fst w3" "snd w3"] 1 3 4
    by (auto intro: only_mem_trans)
qed

lemmas only_mem_intros = only_mem_alloc only_mem_walk only_mem_remove only_mem_insert

text \<open>The process state under such a change.\<close>

lemma only_mem_sel:
  assumes "only_mem s t"
  shows "threads t = threads s" "thread_links t = thread_links s" "sched_links t = sched_links s"
    "currentThread t = currentThread s" "processes t = processes s" "process_links t = process_links s"
    "hartTrapframe t = hartTrapframe s" "signalContexts t = signalContexts s" "signal_links t = signal_links s"
    "futexQueue t = futexQueue s" "segmentMaps t = segmentMaps s" "segmentMapBitmap t = segmentMapBitmap s"
    "nextThreadId t = nextThreadId s" "nextProcessId t = nextProcessId s"
    "kernelPageDirectory t = kernelPageDirectory s" "myThread t = myThread s" "myProcess t = myProcess s"
proof -
  obtain m l f h where "t = s\<lparr>mem := m, page_links := l, page_ref := f, page_hart := h\<rparr>"
    using assms by (auto simp: only_mem_def)
  then show "threads t = threads s" "thread_links t = thread_links s" "sched_links t = sched_links s"
    "currentThread t = currentThread s" "processes t = processes s" "process_links t = process_links s"
    "hartTrapframe t = hartTrapframe s" "signalContexts t = signalContexts s" "signal_links t = signal_links s"
    "futexQueue t = futexQueue s" "segmentMaps t = segmentMaps s" "segmentMapBitmap t = segmentMapBitmap s"
    "nextThreadId t = nextThreadId s" "nextProcessId t = nextProcessId s"
    "kernelPageDirectory t = kernelPageDirectory s" "myThread t = myThread s" "myProcess t = myProcess s"
    by (simp_all add: myThread_def myProcess_def split: option.split)
qed

end
