(* ===== verification/Signal.thy ===== *)
theory Signal
  imports User_Memory Page_Frame Sched
begin

text \<open>
  Signals: \<^verbatim>\<open>src/kernel/system/Signal.c\<close>, the set operations of \<^verbatim>\<open>src/include/Signal.h\<close> and the
  return from a handler (\<^verbatim>\<open>syscallSignalReturn\<close> in \<^verbatim>\<open>src/kernel/trap/Syscall.c\<close>). Pending signals are
  contexts on the list of their thread; the handlers of a process are an array in a page of its own,
  which the kernel reads through its page table. A killed thread is destroyed by the caller: the
  functions say so in their result.
\<close>

declare One_nat_def [simp del]

section \<open>Signal sets\<close>

abbreviation (input) SIGKILL :: int where "SIGKILL \<equiv> 9"
abbreviation (input) SIGSEGV :: int where "SIGSEGV \<equiv> 11"
abbreviation (input) EINVAL :: int where "EINVAL \<equiv> 22"
abbreviation (input) SIGNAL_COUNT :: int where "SIGNAL_COUNT \<equiv> 128"
abbreviation (input) SIGNAL_CONTEXT_COUNT :: nat where "SIGNAL_CONTEXT_COUNT \<equiv> 4096"

text \<open>\<^verbatim>\<open>1UL << (signal - 1)\<close>; the shift instruction takes its count modulo 64.\<close>

definition signal_bit :: "u8 \<Rightarrow> u64" where
  "signal_bit sig = push_bit (nat ((uint sig - 1) mod 64)) 1"

definition signalSetAnd :: "u8 \<Rightarrow> u64 \<Rightarrow> bool option" where
  "signalSetAnd sig ss = do { kassert (\<not> sig > 64); Some (ss AND signal_bit sig \<noteq> 0) }"

definition signalProcessStart :: "u8 \<Rightarrow> u64 \<Rightarrow> u64 option" where
  "signalProcessStart sig ss = do { kassert (\<not> sig > 64); Some (ss OR signal_bit sig) }"

definition signalProcessEnd :: "u8 \<Rightarrow> u64 \<Rightarrow> u64 option" where
  "signalProcessEnd sig ss = do { kassert (\<not> sig > 64); Some (ss AND NOT (signal_bit sig)) }"

section \<open>The pool of contexts\<close>

abbreviation upd_sc :: "nat \<Rightarrow> (SignalContext \<Rightarrow> SignalContext) \<Rightarrow> 'z kproc_scheme \<Rightarrow> 'z kproc_scheme" where
  "upd_sc sc f s \<equiv> s\<lparr>signalContexts := (signalContexts s)(sc := f (signalContexts s sc))\<rparr>"

definition signalInit :: "'z kproc_scheme \<Rightarrow> 'z kproc_scheme" where
  "signalInit s = fold (\<lambda>i s. s\<lparr>signal_links := LIST_INSERT_HEAD SigFree i (signal_links s)\<rparr>) [0..<SIGNAL_CONTEXT_COUNT] s"

definition signalContextFree :: "nat \<Rightarrow> 'z kproc_scheme \<Rightarrow> 'z kproc_scheme" where
  "signalContextFree sc s = s\<lparr>signal_links := LIST_INSERT_HEAD SigFree sc (signal_links s)\<rparr>"

definition signalContextAlloc :: "'z kproc_scheme \<Rightarrow> ((int \<times> nat option) \<times> 'z kproc_scheme) option" where
  "signalContextAlloc s = (case LIST_FIRST SigFree (signal_links s) of
     Some sc \<Rightarrow> do {
       l \<leftarrow> LIST_REMOVE sc (signal_links s);
       let s = s\<lparr>signal_links := l\<rparr>;
       Some ((0, Some sc), upd_sc sc (\<lambda>c. c\<lparr>sc_start := False\<rparr>) s) }
   | None \<Rightarrow> Some ((- 1, None), s))"

section \<open>Sending\<close>

definition signalSend :: "int \<Rightarrow> int \<Rightarrow> int \<Rightarrow> 'z kproc_scheme \<Rightarrow> (int \<times> 'z kproc_scheme) option" where
  "signalSend tgid tid sig s = do {
     kassert (tid \<noteq> - 1);
     (r, th) \<leftarrow> tid2Thread (word_of_int tid) False s;
     kassert (\<not> r < 0);
     thread \<leftarrow> th;
     if tgid \<noteq> 0 \<and> processId (processes s (th_process (threads s thread))) \<noteq> word_of_int tgid
     then Some (- ESRCH, s)
     else do {
       ((r, sc), s) \<leftarrow> signalContextAlloc s;
       kassert (\<not> r < 0);
       sc \<leftarrow> sc;
       let s = upd_sc sc (\<lambda>c. c\<lparr>sc_signal := word_of_int sig\<rparr>) s;
       let s = (if sig = SIGKILL then upd_thread thread (\<lambda>t. t\<lparr>th_state := RUNNABLE, killed := True\<rparr>) s else s);
       Some (0, s\<lparr>signal_links := LIST_INSERT_HEAD (Waiting thread) sc (signal_links s)\<rparr>) } }"

primrec send_each :: "int \<Rightarrow> int \<Rightarrow> nat list \<Rightarrow> int \<Rightarrow> 'z kproc_scheme \<Rightarrow> (int \<times> 'z kproc_scheme) option" where
  "send_each pid sig [] ret s = Some (ret, s)"
| "send_each pid sig (th # ths) ret s =
     (if pid = 0 \<or> pid = - 1 \<or> word_of_int pid = processId (processes s (th_process (threads s th)))
      then do {
        (ret, s) \<leftarrow> signalSend 0 (sint (th_id (threads s th))) sig s;
        send_each pid sig ths ret s }
      else send_each pid sig ths ret s)"

definition processSignalSend :: "int \<Rightarrow> int \<Rightarrow> 'z kproc_scheme \<Rightarrow> (int \<times> 'z kproc_scheme) option" where
  "processSignalSend pid sig s = do {
     ths \<leftarrow> LIST_FOREACH (LIST_FIRST Used (thread_links s)) (thread_links s);
     send_each pid sig ths (- ESRCH) s }"

section \<open>Masks and handlers\<close>

definition signProccessMask :: "u64 \<Rightarrow> u64 \<Rightarrow> 'z kproc_scheme \<Rightarrow> (int \<times> 'z kproc_scheme) option" where
  "signProccessMask how newSet s = do {
     th \<leftarrow> myThread s;
     Some (if how = 0 then (0, upd_thread th (\<lambda>t. t\<lparr>blocked := blocked t OR newSet\<rparr>) s)
           else if how = 1 then (0, upd_thread th (\<lambda>t. t\<lparr>blocked := blocked t AND NOT newSet\<rparr>) s)
           else if how = 2 then (0, upd_thread th (\<lambda>t. t\<lparr>blocked := newSet\<rparr>) s)
           else (- 1, s)) }"

text \<open>The address of the action of a signal: 32 bytes each, the handler first.\<close>

definition signal_action :: "nat \<Rightarrow> int \<Rightarrow> u64" where
  "signal_action p sig = getSignalHandler p + of_int (sig - 1) * 32"

definition doSignalAction :: "'z file_reader \<Rightarrow> int \<Rightarrow> u64 \<Rightarrow> u64 \<Rightarrow> 'z kmem_scheme \<Rightarrow> (int \<times> 'z kmem_scheme) option" where
  "doSignalAction er sig act oldAction s = do {
     th \<leftarrow> myThread s;
     if sig < 1 \<or> sig > SIGNAL_COUNT then Some (- 1, s)
     else do {
       let k = signal_action (th_process (threads s th)) sig;
       p \<leftarrow> myProcess s;
       let pgdir = p_pgdir (processes s p);
       s \<leftarrow> (if oldAction \<noteq> 0 then do {
              pa \<leftarrow> kva k s;
              (r, s) \<leftarrow> copyout er pgdir oldAction (mem_bytes (mem s) pa 32) 32 s;
              Some s }
            else Some s);
       s \<leftarrow> (if act \<noteq> 0 then do {
              (bs, s) \<leftarrow> copyin er pgdir act 32 s;
              pa \<leftarrow> kva k s;
              Some (s\<lparr>mem := mem_write (mem s) pa bs\<rparr>) }
            else Some s);
       Some (0, s) } }"

section \<open>Choosing a context\<close>

text \<open>The first context that is being handled or may be: not blocked and not already being handled.\<close>

primrec first_context :: "nat list \<Rightarrow> nat \<Rightarrow> 'z kproc_scheme \<Rightarrow> nat option option" where
  "first_context [] th s = Some None"
| "first_context (sc # scs) th s =
     (if sc_start (signalContexts s sc) then Some (Some sc)
      else do {
        b \<leftarrow> signalSetAnd (sc_signal (signalContexts s sc)) (blocked (threads s th));
        skip \<leftarrow> (if b then Some True else signalSetAnd (sc_signal (signalContexts s sc)) (processing (threads s th)));
        if skip then first_context scs th s else Some (Some sc) })"

definition getFirstSignalContext :: "nat \<Rightarrow> 'z kproc_scheme \<Rightarrow> nat option option" where
  "getFirstSignalContext th s = do {
     scs \<leftarrow> LIST_FOREACH (LIST_FIRST (Waiting th) (signal_links s)) (signal_links s);
     first_context scs th s }"

definition getHandlingSignal :: "nat \<Rightarrow> 'z kproc_scheme \<Rightarrow> nat option" where
  "getHandlingSignal th s = do {
     scs \<leftarrow> LIST_FOREACH (LIST_FIRST (Waiting th) (signal_links s)) (signal_links s);
     find (\<lambda>sc. sc_start (signalContexts s sc)) scs }"

definition hasKillSignal :: "nat \<Rightarrow> 'z kproc_scheme \<Rightarrow> bool option" where
  "hasKillSignal th s = do {
     scs \<leftarrow> LIST_FOREACH (LIST_FIRST (Waiting th) (signal_links s)) (signal_links s);
     Some (\<exists>sc \<in> set scs. sc_signal (signalContexts s sc) = word_of_int SIGKILL) }"

section \<open>Delivery\<close>

definition initFrame :: "'z kmem_scheme \<Rightarrow> 'z kmem_scheme option" where
  "initFrame s = do {
     let tf = hartTrapframe s;
     let sp = DOWN_ALIGN (tf tf_sp - PAGE_SIZE) PAGE_SIZE;
     (page, s) \<leftarrow> pageAlloc s;
     p \<leftarrow> myProcess s;
     (r, s) \<leftarrow> pageInsert (p_pgdir (processes s p)) (sp - PAGE_SIZE) (page2pa page) (PTE_USER OR PTE_READ OR PTE_WRITE) s;
     Some (s\<lparr>hartTrapframe := (hartTrapframe s)(tf_sp := PAGE_SIZE + sp - PAGE_SIZE, tf_ra := SIGNAL_TRAMPOLINE_BASE)\<rparr>) }"

definition signalFinish :: "nat \<Rightarrow> 'z kproc_scheme \<Rightarrow> 'z kproc_scheme option" where
  "signalFinish sc s = do {
     l \<leftarrow> LIST_REMOVE sc (signal_links s);
     Some (signalContextFree sc (s\<lparr>signal_links := l\<rparr>)) }"

text \<open>
  Starting the handler of context \<open>sc\<close>: the frame is saved, the thread's control block is read (its
  size is 224 bytes; only the page it lies in matters), and the frame is redirected to the handler.
\<close>

definition deliver :: "'z file_reader \<Rightarrow> nat \<Rightarrow> nat \<Rightarrow> u64 \<Rightarrow> 'z kmem_scheme \<Rightarrow> 'z kmem_scheme option" where
  "deliver er thread sc sa s = do {
     let s = upd_sc sc (\<lambda>c. c\<lparr>sc_start := True\<rparr>) s;
     pr \<leftarrow> signalProcessStart (sc_signal (signalContexts s sc)) (processing (threads s thread));
     let s = upd_thread thread (\<lambda>t. t\<lparr>processing := pr\<rparr>) s;
     let s = upd_sc sc (\<lambda>c. c\<lparr>contextRecover := hartTrapframe s\<rparr>) s;
     (bs, s) \<leftarrow> copyin er (p_pgdir (processes s (th_process (threads s thread))))
                  (trapframe (threads s thread) tf_tp - 224) 224 s;
     s \<leftarrow> initFrame s;
     pa \<leftarrow> kva sa s;
     Some (s\<lparr>hartTrapframe := (hartTrapframe s)(tf_epc := load64 (mem s) pa)\<rparr>) }"

text \<open>The result says whether the thread has to be destroyed.\<close>

partial_function (option) handleSignal :: "'z file_reader \<Rightarrow> nat \<Rightarrow> 'z kmem_scheme \<Rightarrow> (bool \<times> 'z kmem_scheme) option" where
  "handleSignal er thread s =
     (if killed (threads s thread) then Some (True, s)
      else do {
        sc \<leftarrow> getFirstSignalContext thread s;
        case sc of None \<Rightarrow> Some (False, s)
        | Some sc \<Rightarrow>
          if sc_start (signalContexts s sc) then Some (False, s)
          else do {
            let sa = signal_action (th_process (threads s thread)) (uint (sc_signal (signalContexts s sc)));
            pa \<leftarrow> kva sa s;
            if load64 (mem s) pa = 0 then do {
              s \<leftarrow> signalFinish sc s;
              handleSignal er thread s }
            else do {
              s \<leftarrow> deliver er thread sc sa s;
              Some (False, s) } } })"

definition doSignalTimedWait :: "'z kproc_scheme \<Rightarrow> u8 option" where
  "doSignalTimedWait s = do {
     th \<leftarrow> myThread s;
     sc \<leftarrow> getFirstSignalContext th s;
     Some (case sc of None \<Rightarrow> 0 | Some sc \<Rightarrow> sc_signal (signalContexts s sc)) }"

definition syscallSignalReturn :: "'z kproc_scheme \<Rightarrow> 'z kproc_scheme option" where
  "syscallSignalReturn s = do {
     thread \<leftarrow> myThread s;
     sc \<leftarrow> getHandlingSignal thread s;
     let s = s\<lparr>hartTrapframe := contextRecover (signalContexts s sc)\<rparr>;
     pr \<leftarrow> signalProcessEnd (sc_signal (signalContexts s sc)) (processing (threads s thread));
     let s = upd_thread thread (\<lambda>t. t\<lparr>processing := pr\<rparr>) s;
     signalFinish sc s }"

section \<open>What the choice means\<close>

lemma signalSetAnd_Some: "signalSetAnd sig ss = Some b \<longleftrightarrow> sig \<le> 64 \<and> b = (ss AND signal_bit sig \<noteq> 0)"
  by (auto simp: signalSetAnd_def kassert_def split: if_splits)

lemma first_context_split:
  assumes "first_context scs th s = Some (Some sc)"
  shows "\<exists>xs ys. scs = xs @ sc # ys \<and> (\<forall>x \<in> set xs. \<not> sc_start (signalContexts s x))
    \<and> (\<not> sc_start (signalContexts s sc) \<longrightarrow> sc_signal (signalContexts s sc) \<le> 64
        \<and> processing (threads s th) AND signal_bit (sc_signal (signalContexts s sc)) = 0
        \<and> blocked (threads s th) AND signal_bit (sc_signal (signalContexts s sc)) = 0)"
  using assms
proof (induction scs)
  case (Cons c scs)
  show ?case
  proof (cases "c = sc \<and> (sc_start (signalContexts s c) \<or> first_context (c # scs) th s \<noteq> first_context scs th s)")
    case True
    then show ?thesis
      using Cons.prems by (intro exI [of _ "[]"] exI [of _ scs]) (auto simp: bind_eq_Some_conv signalSetAnd_Some split: if_splits)
  next
    case False
    then have "first_context scs th s = Some (Some sc)" "\<not> sc_start (signalContexts s c)"
      using Cons.prems by (auto simp: bind_eq_Some_conv split: if_splits)
    with Cons.IH obtain xs ys where "scs = xs @ sc # ys" "\<forall>x \<in> set xs. \<not> sc_start (signalContexts s x)"
      "\<not> sc_start (signalContexts s sc) \<longrightarrow> sc_signal (signalContexts s sc) \<le> 64
        \<and> processing (threads s th) AND signal_bit (sc_signal (signalContexts s sc)) = 0
        \<and> blocked (threads s th) AND signal_bit (sc_signal (signalContexts s sc)) = 0" by auto
    then show ?thesis using \<open>\<not> sc_start (signalContexts s c)\<close>
      by (intro exI [of _ "c # xs"] exI [of _ ys]) auto
  qed
qed simp

lemma getFirst_split:
  assumes "lists_abs (signal_links s) L" and "getFirstSignalContext th s = Some (Some sc)"
  shows "\<exists>xs ys. L (Waiting th) = xs @ sc # ys \<and> (\<forall>x \<in> set xs. \<not> sc_start (signalContexts s x))
    \<and> (\<not> sc_start (signalContexts s sc) \<longrightarrow> sc_signal (signalContexts s sc) \<le> 64
        \<and> processing (threads s th) AND signal_bit (sc_signal (signalContexts s sc)) = 0
        \<and> blocked (threads s th) AND signal_bit (sc_signal (signalContexts s sc)) = 0)"
  using assms lists_abs_foreach [OF assms(1)] by (intro first_context_split) (simp add: getFirstSignalContext_def)

lemma signalFinish_eq:
  assumes "lists_abs (signal_links s) L" and "sc \<in> set (L (Waiting th))"
  shows "\<exists>l. signalFinish sc s = Some (s\<lparr>signal_links := l\<rparr>)
    \<and> lists_abs l (L(Waiting th := remove1 sc (L (Waiting th)), SigFree := sc # L SigFree))"
  using lists_abs_move [OF assms, of SigFree] by (auto simp: signalFinish_def signalContextFree_def)

lemma signalSend_eq:
  assumes abs: "lists_abs (signal_links s) L" and free: "L SigFree = sc # fs" and tid: "tid \<noteq> - 1"
    and th: "tid2Thread (word_of_int tid) False s = Some (0, Some th)"
    and tg: "tgid = 0 \<or> processId (processes s (th_process (threads s th))) = word_of_int tgid"
  shows "\<exists>l. signalSend tgid tid sig s = Some (0, (if sig = SIGKILL then upd_thread th (\<lambda>t. t\<lparr>th_state := RUNNABLE, killed := True\<rparr>) s else s)
       \<lparr>signalContexts := (signalContexts s)(sc := (signalContexts s sc)\<lparr>sc_start := False, sc_signal := word_of_int sig\<rparr>), signal_links := l\<rparr>)
    \<and> lists_abs l (L(SigFree := fs, Waiting th := sc # L (Waiting th)))"
proof -
  note M = lists_abs_move_first [OF abs free]
  obtain l where l: "LIST_REMOVE sc (signal_links s) = Some l" "lists_abs l (L(SigFree := fs))" "sc \<notin> on_lists (L(SigFree := fs))"
    using M(2) by blast
  have "lists_abs (LIST_INSERT_HEAD (Waiting th) sc l) (L(SigFree := fs, Waiting th := sc # L (Waiting th)))"
    using lists_abs_insert_head [OF l(2,3), of "Waiting th"] by simp
  then show ?thesis
    using M(1) l(1) tid th tg
    by (intro exI [of _ "LIST_INSERT_HEAD (Waiting th) sc l"])
      (simp add: signalSend_def signalContextAlloc_def kassert_def)
qed

lemma initFrame_frame:
  assumes "initFrame s = Some u"
  shows "\<exists>v f. only_mem s v \<and> u = v\<lparr>hartTrapframe := f\<rparr> \<and> f tf_ra = SIGNAL_TRAMPOLINE_BASE"
proof -
  let ?sp = "DOWN_ALIGN (hartTrapframe s tf_sp - PAGE_SIZE) PAGE_SIZE"
  obtain page a p r b where "pageAlloc s = Some (page, a)"
    and "pageInsert (p_pgdir (processes a p)) (?sp - PAGE_SIZE) (page2pa page) (PTE_USER OR PTE_READ OR PTE_WRITE) a = Some (r, b)"
    and u: "u = b\<lparr>hartTrapframe := (hartTrapframe b)(tf_sp := PAGE_SIZE + ?sp - PAGE_SIZE, tf_ra := SIGNAL_TRAMPOLINE_BASE)\<rparr>"
    using assms by (auto simp: initFrame_def Let_def bind_eq_Some_conv)
  then have "only_mem s b" by (auto dest!: only_mem_alloc only_mem_insert intro: only_mem_trans)
  then show ?thesis
    by (intro exI [of _ b] exI [of _ "hartTrapframe u"]) (simp add: u)
qed

text \<open>Delivery when the thread's control block is mapped.\<close>

lemma deliver_eq:
  assumes tab: "table_ok (pcells s) r F" "p_pgdir (processes s (th_process (threads s th))) = page2pa r"
    and tcb: "unat (trapframe (threads s th) tf_tp - 224) + 224 \<le> 2 ^ 38"
      "\<forall>i < 224. umapped s r (trapframe (threads s th) tf_tp - 224 + of_nat i)"
    and run: "deliver er th sc sa s = Some t"
  shows "signalContexts t = (signalContexts s)(sc := (signalContexts s sc)\<lparr>sc_start := True, contextRecover := hartTrapframe s\<rparr>)"
    and "threads t = (threads s)(th := (threads s th)\<lparr>processing := processing (threads s th) OR signal_bit (sc_signal (signalContexts s sc))\<rparr>)"
    and "signal_links t = signal_links s" "currentThread t = currentThread s"
    and "hartTrapframe t tf_ra = SIGNAL_TRAMPOLINE_BASE"
    and "\<exists>pa. kva sa t = Some pa \<and> hartTrapframe t tf_epc = load64 (mem t) pa"
proof -
  let ?s = "s\<lparr>signalContexts := (signalContexts s)(sc := (signalContexts s sc)\<lparr>sc_start := True, contextRecover := hartTrapframe s\<rparr>),
    threads := (threads s)(th := (threads s th)\<lparr>processing := processing (threads s th) OR signal_bit (sc_signal (signalContexts s sc))\<rparr>)\<rparr>"
  have m: "umapped ?s r x = umapped s r x" for x by (simp add: umapped_def uentry_def)
  have "copyin er (page2pa r) (trapframe (threads s th) tf_tp - 224) 224 ?s
      = Some (ubytes ?s r (trapframe (threads s th) tf_tp - 224) (unat (224 :: u64)), ?s)"
    using tab tcb m by (intro copyin_mapped) simp_all
  moreover have "?s = s\<lparr>threads := (threads s)(th := (threads s th)\<lparr>processing := processing (threads s th) OR signal_bit (sc_signal (signalContexts s sc))\<rparr>),
    signalContexts := (signalContexts s)(sc := (signalContexts s sc)\<lparr>sc_start := True, contextRecover := hartTrapframe s\<rparr>)\<rparr>" by simp
  ultimately obtain u pa where u: "initFrame ?s = Some u" and pa: "kva sa u = Some pa"
    and t: "t = u\<lparr>hartTrapframe := (hartTrapframe u)(tf_epc := load64 (mem u) pa)\<rparr>"
    using run tab(2) by (auto simp: deliver_def Let_def signalProcessStart_def bind_eq_Some_conv kassert_def split: if_splits)
  obtain v f where v: "only_mem ?s v" and uv: "u = v\<lparr>hartTrapframe := f\<rparr>" and f: "f tf_ra = SIGNAL_TRAMPOLINE_BASE"
    using initFrame_frame [OF u] by blast
  note V = only_mem_sel [OF v]
  show "signalContexts t = (signalContexts s)(sc := (signalContexts s sc)\<lparr>sc_start := True, contextRecover := hartTrapframe s\<rparr>)"
    "threads t = (threads s)(th := (threads s th)\<lparr>processing := processing (threads s th) OR signal_bit (sc_signal (signalContexts s sc))\<rparr>)"
    "signal_links t = signal_links s" "currentThread t = currentThread s"
    using V by (simp_all add: t uv)
  show "hartTrapframe t tf_ra = SIGNAL_TRAMPOLINE_BASE" by (simp add: t uv f)
  have "kva sa t = kva sa u" by (simp add: kva_def t pageLookup_def pageWalk_def pageWalk_level_def)
  then show "\<exists>pa. kva sa t = Some pa \<and> hartTrapframe t tf_epc = load64 (mem t) pa" using pa by (simp add: t)
qed

lemma getHandlingSignal_eq:
  assumes "lists_abs (signal_links s) L" and "L (Waiting th) = xs @ sc # ys"
    and "\<forall>x \<in> set xs. \<not> sc_start (signalContexts s x)" and "sc_start (signalContexts s sc)"
  shows "getHandlingSignal th s = Some sc"
proof -
  have "find (\<lambda>c. sc_start (signalContexts s c)) (xs @ sc # ys) = Some sc"
    using assms(3,4) by (induction xs) auto
  then show ?thesis
    using lists_abs_foreach [OF assms(1), of "Waiting th"] assms(2) by (simp add: getHandlingSignal_def)
qed

lemma mask_restore: "a AND b = 0 \<Longrightarrow> (a OR b) AND NOT b = (a :: u64)"
  by (auto simp: bit_eq_iff bit_simps)

section \<open>Properties\<close>

text \<open>
  C8: Delivery of a signal and the return from its handler are inverse to each other. When a pending,
  unblocked signal with a handler is first in line, the thread's control block is mapped and
  \<open>handleSignal\<close> completes, the thread continues in the handler with the trampoline as its return address;
  and whatever the handler does to registers and memory, \<open>syscallSignalReturn\<close> afterwards succeeds,
  gives back exactly the interrupted trap frame and the set of signals being handled, and moves the
  context from the thread's list to the pool.
\<close>

theorem signal_return_restores:
  assumes abs: "lists_abs (signal_links s) L" and cur: "currentThread s = Some th" "\<not> killed (threads s th)"
    and first: "getFirstSignalContext th s = Some (Some sc)" "\<not> sc_start (signalContexts s sc)"
    and sa: "kva (signal_action (th_process (threads s th)) (uint (sc_signal (signalContexts s sc)))) s = Some pa"
      "load64 (mem s) pa \<noteq> 0"
    and tab: "table_ok (pcells s) r F" "p_pgdir (processes s (th_process (threads s th))) = page2pa r"
    and tcb: "unat (trapframe (threads s th) tf_tp - 224) + 224 \<le> 2 ^ 38"
      "\<forall>i < 224. umapped s r (trapframe (threads s th) tf_tp - 224 + of_nat i)"
    and run: "handleSignal er th s = Some (k, t)"
  shows "\<not> k \<and> hartTrapframe t tf_ra = SIGNAL_TRAMPOLINE_BASE
    \<and> (\<exists>pa. kva (signal_action (th_process (threads s th)) (uint (sc_signal (signalContexts s sc)))) t = Some pa
         \<and> hartTrapframe t tf_epc = load64 (mem t) pa)
    \<and> (\<forall>tf m. \<exists>v. syscallSignalReturn (t\<lparr>hartTrapframe := tf, mem := m\<rparr>) = Some v
         \<and> hartTrapframe v = hartTrapframe s \<and> processing (threads v th) = processing (threads s th)
         \<and> lists_abs (signal_links v) (L(Waiting th := remove1 sc (L (Waiting th)), SigFree := sc # L SigFree)))"
proof -
  have d: "deliver er th sc (signal_action (th_process (threads s th)) (uint (sc_signal (signalContexts s sc)))) s = Some t" "\<not> k"
    using run cur first sa by (auto simp: handleSignal.simps [of er th s] bind_eq_Some_conv)
  note D = deliver_eq [OF tab tcb d(1)]
  obtain xs ys where L: "L (Waiting th) = xs @ sc # ys" "\<forall>x \<in> set xs. \<not> sc_start (signalContexts s x)"
    "sc_signal (signalContexts s sc) \<le> 64" "processing (threads s th) AND signal_bit (sc_signal (signalContexts s sc)) = 0"
    using getFirst_split [OF abs first(1)] first(2) by blast
  have "\<exists>v. syscallSignalReturn (t\<lparr>hartTrapframe := tf, mem := m\<rparr>) = Some v
      \<and> hartTrapframe v = hartTrapframe s \<and> processing (threads v th) = processing (threads s th)
      \<and> lists_abs (signal_links v) (L(Waiting th := remove1 sc (L (Waiting th)), SigFree := sc # L SigFree))" for tf m
  proof -
    let ?u = "t\<lparr>hartTrapframe := tf, mem := m\<rparr>"
    have au: "lists_abs (signal_links ?u) L" using abs D by simp
    have "sc \<notin> set xs" using lists_absD(2) [OF abs, of "Waiting th"] L(1) by simp
    then have h: "getHandlingSignal th ?u = Some sc"
      using L(2) by (intro getHandlingSignal_eq [OF au L(1)]) (auto simp: D)
    let ?w = "upd_thread th (\<lambda>t. t\<lparr>processing := processing (threads s th)\<rparr>) (?u\<lparr>hartTrapframe := hartTrapframe s\<rparr>)"
    have "lists_abs (signal_links ?w) L" using abs D by simp
    from signalFinish_eq [OF this, of sc th] obtain l where l: "signalFinish sc ?w = Some (?w\<lparr>signal_links := l\<rparr>)"
      "lists_abs l (L(Waiting th := remove1 sc (L (Waiting th)), SigFree := sc # L SigFree))"
      using L(1) by auto
    have "syscallSignalReturn ?u = signalFinish sc ?w"
      using h cur(1) L(3) [THEN leD] L(4)
      by (simp add: syscallSignalReturn_def myThread_def signalProcessEnd_def kassert_def D mask_restore)
    with l show ?thesis by simp
  qed
  with d D show ?thesis by blast
qed

text \<open>A state for the theorem: one page holds the handlers and the thread's control block.\<close>

lemma signal_page_exists:
  "\<exists>(s :: kmem) F. pt_inv s 0 F \<and> 3 \<le> length F \<and> 20 \<notin> tables (pcells s) 0
     \<and> entry_at s 0 65 0 0 = new_entry (page2pa 20) 0x16 \<and> load64 (mem s) (page2pa 20 + 64) = 1"
proof -
  have ix: "ix PROCESS_SIGNAL_BASE 2 = 65" "ix PROCESS_SIGNAL_BASE 1 = 0" "ix PROCESS_SIGNAL_BASE 0 = 0"
    by code_simp+
  have pa: "unat (page2pa 20) < 2 ^ 56" using unat_page2pa [of 20] by simp
  have inv: "pt_inv (fresh_kmem [1, 2, 3, 4, 5, 6, 7]) 0 [1, 2, 3, 4, 5, 6, 7]" by (rule pt_inv_fresh) simp_all
  have perm: "perm_only (0x16 :: u64)"
    using perm_only_or [OF perm_only_numeral(2) perm_only_or [OF perm_only_numeral(3,5)]] by simp
  have len: "2 \<le> length [1, 2, 3, 4, 5, 6, 7 :: nat]" and i20: "insertable (fresh_kmem [1, 2, 3, 4, 5, 6, 7]) 0 [1, 2, 3, 4, 5, 6, 7] PROCESS_SIGNAL_BASE 20"
    and d20: "DOWN_ALIGN (page2pa 20) PAGE_SIZE = page2pa 20"
    by (simp_all add: insertable_fresh)
  obtain t :: kmem and F where t: "pt_inv t 0 F" "length [1, 2, 3, 4, 5, 6, 7 :: nat] \<le> length F + 2"
    and "\<forall>a < 512. \<forall>b < 512. \<forall>k < 512. entry_at t 0 a b k =
       (if a = 65 \<and> b = 0 \<and> k = 0 then new_entry (page2pa 20) 0x16 else entry_at (fresh_kmem [1, 2, 3, 4, 5, 6, 7]) 0 a b k)"
    using pageInsert_spec [OF inv len perm pa i20 d20, unfolded ix] by (elim exE conjE) (rule that)
  then have e: "entry_at t 0 65 0 0 = new_entry (page2pa 20) 0x16" by simp
  let ?s = "t\<lparr>mem := store64 (mem t) (page2pa 20 + 8 * of_nat 8) 1\<rparr>"
  have "PTE2PA (new_entry (page2pa 20) 0x16) = page2pa 20"
    using PTE2PA_new_entry [of "page2pa 20" "0x16"] perm pa by simp
  then have "(65, 0, 0) \<in> maps t 0 20" using e new_entry_valid [of "page2pa 20" "0x16"] by (simp add: maps_def)
  then have n20: "20 \<notin> tables (pcells t) 0" using pt_invD(5) [OF t(1)] by blast
  have "mem ?s a = mem t a" if p: "p \<in> tables (pcells t) 0" "in_range a (page2pa p) 4096" for a p
  proof -
    have "p < PHYSICAL_PAGE_NUM" using p(1) table_okD(1) [OF pt_invD(2) [OF t(1)]] by (auto simp: tables_def)
    moreover have "p \<noteq> 20" using p(1) n20 by auto
    ultimately have "\<not> in_range a (page2pa 20) 4096" using p(2) in_page_iff [of p a] in_page_iff [of 20 a] by auto
    then show ?thesis using store_cell_other [of 20 8 a "mem t" 1] by simp
  qed
  note C = pt_inv_cong [OF t(1), of ?s, simplified, OF this [simplified]]
  have "cells (mem ?s) 20 8 = 1" using cells_store [of 20 8 20 8 "mem t" 1] by simp
  then show ?thesis
    using C t(2) e n20 by (intro exI [of _ ?s] exI [of _ F]) (simp add: cells_def)
qed

lemma initFrame_runs:
  assumes inv: "pt_inv s r F" and len: "3 \<le> length F" and p: "myProcess s = Some p" "p_pgdir (processes s p) = page2pa r"
    and va: "va = DOWN_ALIGN (hartTrapframe s tf_sp - PAGE_SIZE) PAGE_SIZE - PAGE_SIZE"
  shows "\<exists>u F'. initFrame s = Some u \<and> pt_inv u r F' \<and> kernelPageDirectory u = kernelPageDirectory s
     \<and> (\<forall>x. (ix x 2, ix x 1, ix x 0) \<noteq> (ix va 2, ix va 1, ix va 0) \<longrightarrow> uentry u r x = uentry s r x)"
proof -
  obtain q G where F: "F = q # G" using len by (cases F) auto
  obtain t where t: "pageAlloc s = Some (q, t)" "pt_inv t r G" "insertable t r G va q" "only_mem s t"
    "\<forall>a < 512. \<forall>b < 512. \<forall>k < 512. entry_at t r a b k = entry_at s r a b k"
    using pageAlloc_insertable [OF inv [unfolded F], of va] by blast
  have q: "q < PHYSICAL_PAGE_NUM" using t(3) by (simp add: insertable_def)
  then have pa: "unat (page2pa q) < 2 ^ 56" using unat_page2pa [OF q] by simp
  have perm: "perm_only (PTE_USER OR PTE_READ OR PTE_WRITE)" by (intro perm_only_or perm_only_numeral)
  obtain w F' where w: "pageInsert (page2pa r) va (page2pa q) (PTE_USER OR PTE_READ OR PTE_WRITE) t = Some (0, w)"
    "pt_inv w r F'" "only_mem t w" "\<forall>a < 512. \<forall>b < 512. \<forall>k < 512. entry_at w r a b k =
          (if a = ix va 2 \<and> b = ix va 1 \<and> k = ix va 0 then new_entry (page2pa q) (PTE_USER OR PTE_READ OR PTE_WRITE) else entry_at t r a b k)"
    using pageInsert_spec [OF t(2) _ perm pa t(3) DOWN_ALIGN_page2pa [OF q]] len by (auto simp: F)
  let ?u = "w\<lparr>hartTrapframe := (hartTrapframe w)(tf_sp := PAGE_SIZE + DOWN_ALIGN (hartTrapframe s tf_sp - PAGE_SIZE) PAGE_SIZE - PAGE_SIZE,
     tf_ra := SIGNAL_TRAMPOLINE_BASE)\<rparr>"
  have "initFrame s = Some ?u"
    using t(1) w(1) p only_mem_sel [OF t(4)] by (simp add: initFrame_def va)
  moreover have "pt_inv ?u r F'" using pt_inv_cong(1) [OF w(2), of ?u] by simp
  moreover have "uentry ?u r x = uentry s r x" if "(ix x 2, ix x 1, ix x 0) \<noteq> (ix va 2, ix va 1, ix va 0)" for x
    using w(4) t(5) that ix_less by (auto simp: uentry_def)
  ultimately show ?thesis
    using only_mem_sel [OF t(4)] only_mem_sel [OF w(3)] by (intro exI [of _ ?u] exI [of _ F']) simp
qed

theorem signal_return_restores_witness:
  "\<exists>(s :: kmem) t. getFirstSignalContext 0 s = Some (Some 5) \<and> handleSignal (\<lambda>_ _ _ _ _. None) 0 s = Some (False, t)
     \<and> hartTrapframe t tf_ra = SIGNAL_TRAMPOLINE_BASE
     \<and> (\<exists>v. syscallSignalReturn (t\<lparr>hartTrapframe := (\<lambda>_. 7), mem := (\<lambda>_. 0)\<rparr>) = Some v \<and> hartTrapframe v = hartTrapframe s)"
proof -
  let ?er = "\<lambda>_ _ _ _ _. None"
  obtain b :: kmem and F where b: "pt_inv b 0 F" "3 \<le> length F" "20 \<notin> tables (pcells b) 0"
    "entry_at b 0 65 0 0 = new_entry (page2pa 20) 0x16" "load64 (mem b) (page2pa 20 + 64) = 1"
    using signal_page_exists by blast
  define s where "s = b\<lparr>kernelPageDirectory := page2pa 0, processes := (\<lambda>_. zero_process\<lparr>p_pgdir := page2pa 0\<rparr>),
     threads := (\<lambda>_. zero_thread\<lparr>trapframe := (\<lambda>_. 0)(tf_tp := PROCESS_SIGNAL_BASE + 224)\<rparr>), currentThread := Some 0,
     hartTrapframe := (\<lambda>_. 0), signalContexts := (\<lambda>_. zero_sc\<lparr>sc_signal := 3\<rparr>),
     signal_links := LIST_INSERT_HEAD (Waiting 0) 5 zero_lists\<rparr>"
  have inv: "pt_inv s 0 F" using pt_inv_cong(1) [OF b(1), of s] by (simp add: s_def)
  have psb: "PROCESS_SIGNAL_BASE = 0x1040000000" by code_simp
  have pa: "PTE2PA (new_entry (page2pa 20) 0x16) = page2pa 20" by code_simp
  have ix: "ix (PROCESS_SIGNAL_BASE + of_nat i) 2 = 65 \<and> ix (PROCESS_SIGNAL_BASE + of_nat i) 1 = 0 \<and> ix (PROCESS_SIGNAL_BASE + of_nat i) 0 = 0"
    if "i < 224" for i
  proof -
    have "unat (PROCESS_SIGNAL_BASE + of_nat i) div 4096 = 17039360"
      using that by (intro div_nat_eqI) (simp_all add: psb unat_va_add)
    then have "ix (PROCESS_SIGNAL_BASE + of_nat i) l = 17039360 div 2 ^ (9 * l) mod 512" for l
      by (simp only: ix_unat div_split)
    then show ?thesis by simp
  qed
  have um: "umapped s 0 (PROCESS_SIGNAL_BASE + of_nat i)" if "i < 224" for i
  proof -
    have "uentry s 0 (PROCESS_SIGNAL_BASE + of_nat i) = new_entry (page2pa 20) 0x16"
      using ix [OF that] b(4) by (simp add: uentry_def s_def)
    moreover have "PROCESS_SIGNAL_BASE + of_nat i < MAXVA"
      using that unat_MAXVA by (simp add: word_less_nat_alt unat_va_add psb)
    moreover have "new_entry (page2pa 20) 0x16 AND PTE_VALID \<noteq> 0" "new_entry (page2pa 20) 0x16 AND PTE_USER \<noteq> 0"
      "new_entry (page2pa 20) 0x16 AND PTE_COW = 0" by code_simp+
    ultimately show ?thesis using pa b(3) by (auto simp: umapped_def s_def intro!: exI [of _ 20])
  qed
  have sa: "signal_action 0 3 = PROCESS_SIGNAL_BASE + of_nat 64"
    by (simp add: signal_action_def getSignalHandler_def)
  have kva: "kva (PROCESS_SIGNAL_BASE + of_nat 64) u = Some (page2pa 20 + 64)"
    if "table_ok (pcells u) 0 G" "kernelPageDirectory u = page2pa 0"
      "uentry u 0 (PROCESS_SIGNAL_BASE + of_nat 64) = new_entry (page2pa 20) 0x16" for u :: kmem and G
  proof -
    have "page2pa 20 \<noteq> 0" "(PROCESS_SIGNAL_BASE + of_nat 64) AND 0xFFF = 64"
      "new_entry (page2pa 20) 0x16 AND PTE_VALID \<noteq> 0" by code_simp+
    then show ?thesis using that(2,3) fst_pageLookup [OF that(1)] pa by (simp add: kva_def Let_def uentry_def)
  qed
  have abs: "lists_abs (signal_links s) ((\<lambda>_. [])(Waiting 0 := [5]))"
    using lists_abs_insert_head [OF lists_abs_zero, of 5 "Waiting 0"] by (simp add: s_def on_lists_def)
  have first: "getFirstSignalContext 0 s = Some (Some 5)"
    using lists_abs_foreach [OF abs, of "Waiting 0"]
    by (simp add: getFirstSignalContext_def s_def signalSetAnd_def kassert_def zero_sc_def zero_thread_def)
  have prem: "\<not> killed (threads s 0)" "\<not> sc_start (signalContexts s 5)" "currentThread s = Some 0"
    "th_process (threads s 0) = 0" "p_pgdir (processes s 0) = page2pa 0" "uint (sc_signal (signalContexts s 5)) = 3"
    "sc_signal (signalContexts s 5) = 3" "processing (threads s 0) = 0"
    "trapframe (threads s 0) tf_tp - 224 = PROCESS_SIGNAL_BASE" "mem s = mem b"
    by (simp_all add: s_def zero_thread_def zero_sc_def)
  have e: "uentry s 0 (PROCESS_SIGNAL_BASE + of_nat 64) = new_entry (page2pa 20) 0x16"
    using ix [of 64] b(4) by (simp add: uentry_def s_def)
  have k: "kva (signal_action 0 3) s = Some (page2pa 20 + 64)"
    unfolding sa by (rule kva [OF pt_invD(2) [OF inv] _ e]) (simp add: s_def)
  have lim: "unat PROCESS_SIGNAL_BASE + 224 \<le> 2 ^ 38" by (simp add: psb)
  obtain t where run: "handleSignal ?er 0 s = Some (False, t)"
  proof -
    let ?s = "s\<lparr>threads := (threads s)(0 := (threads s 0)\<lparr>processing := processing (threads s 0) OR signal_bit 3\<rparr>),
      signalContexts := (signalContexts s)(5 := (signalContexts s 5)\<lparr>sc_start := True, contextRecover := hartTrapframe s\<rparr>)\<rparr>"
    have invs: "pt_inv ?s 0 F" using pt_inv_cong(1) [OF inv, of ?s] by simp
    have mp: "myProcess ?s = Some 0" using prem by (simp add: myProcess_def myThread_def)
    let ?va = "DOWN_ALIGN (hartTrapframe ?s tf_sp - PAGE_SIZE) PAGE_SIZE - PAGE_SIZE"
    have "ix ?va 2 = 511" unfolding s_def by simp code_simp
    then obtain u G where u: "initFrame ?s = Some u" "pt_inv u 0 G" "kernelPageDirectory u = page2pa 0"
      "uentry u 0 (PROCESS_SIGNAL_BASE + of_nat 64) = uentry ?s 0 (PROCESS_SIGNAL_BASE + of_nat 64)"
      using initFrame_runs [OF invs b(2) mp _ refl] prem(5) ix [of 64] by (auto simp: s_def)
    have "uentry u 0 (PROCESS_SIGNAL_BASE + of_nat 64) = new_entry (page2pa 20) 0x16"
      using u(4) e by (simp add: uentry_def)
    note ku = kva [OF pt_invD(2) [OF u(2)] u(3) this]
    have "umapped ?s 0 x = umapped s 0 x" for x by (simp add: umapped_def uentry_def)
    then have "copyin ?er (page2pa 0) PROCESS_SIGNAL_BASE 224 ?s = Some (ubytes ?s 0 PROCESS_SIGNAL_BASE (unat (224 :: u64)), ?s)"
      using pt_invD(2) [OF inv] lim um by (intro copyin_mapped) simp_all
    then have "\<exists>t. deliver ?er 0 5 (signal_action 0 3) s = Some t"
      using u(1) ku prem by (simp add: deliver_def Let_def signalProcessStart_def kassert_def sa)
    then show ?thesis
      using that prem first k b(5) by (auto simp: handleSignal.simps [of ?er 0 s])
  qed
  show ?thesis
    using signal_return_restores [OF abs prem(3,1) first prem(2) _ _ pt_invD(2) [OF inv] _ _ _ run] prem k b(5) lim um first run
    by fastforce
qed

text \<open>
  C39: a signal sent to a thread takes the first free context, which carries the signal's number and is
  not started, and makes it the head of the thread's pending list, all other lists unchanged. \<open>SIGKILL\<close>
  also marks the thread killed and makes it runnable; nothing else of the kernel changes. With no
  context left the kernel stops.
\<close>

theorem signalSend_correct:
  assumes "lists_abs (signal_links s) L" and "tid \<noteq> - 1"
    and "tid2Thread (word_of_int tid) False s = Some (0, Some th)"
    and "tgid = 0 \<or> processId (processes s (th_process (threads s th))) = word_of_int tgid"
  shows "case L SigFree of [] \<Rightarrow> signalSend tgid tid sig s = None
     | sc # fs \<Rightarrow> \<exists>t. signalSend tgid tid sig s = Some (0, t)
         \<and> t = (if sig = SIGKILL then upd_thread th (\<lambda>t. t\<lparr>th_state := RUNNABLE, killed := True\<rparr>) s else s)
                 \<lparr>signalContexts := signalContexts t, signal_links := signal_links t\<rparr>
         \<and> signalContexts t = (signalContexts s)(sc := (signalContexts s sc)\<lparr>sc_start := False, sc_signal := word_of_int sig\<rparr>)
         \<and> lists_abs (signal_links t) (L(SigFree := fs, Waiting th := sc # L (Waiting th)))"
proof (cases "L SigFree")
  case Nil
  then have "LIST_FIRST SigFree (signal_links s) = None" using lists_abs_first [OF assms(1), of SigFree] by simp
  then show ?thesis using assms(2-4) Nil by (auto simp: signalSend_def signalContextAlloc_def kassert_def)
next
  case (Cons sc fs)
  from signalSend_eq [OF assms(1) Cons assms(2-4), of sig] show ?thesis using Cons by auto
qed

theorem signalSend_correct_witness:
  "\<exists>t. signalSend 0 0 9 (zero_kproc\<lparr>currentThread := Some 3, signal_links := LIST_INSERT_HEAD SigFree 7 zero_lists\<rparr>) = Some (0, t)
     \<and> killed (threads t 3) \<and> sc_signal (signalContexts t 7) = 9"
proof -
  let ?s = "zero_kproc\<lparr>currentThread := Some 3, signal_links := LIST_INSERT_HEAD SigFree 7 zero_lists\<rparr>"
  have "lists_abs (signal_links ?s) ((\<lambda>_. [])(SigFree := [7]))"
    using lists_abs_insert_head [OF lists_abs_zero, of 7 SigFree] by (simp add: on_lists_def)
  from signalSend_correct [OF this, of 0 3 0 9] obtain t where "signalSend 0 0 9 ?s = Some (0, t)"
    and t: "t = (upd_thread 3 (\<lambda>t. t\<lparr>th_state := RUNNABLE, killed := True\<rparr>) ?s)\<lparr>signalContexts := signalContexts t, signal_links := signal_links t\<rparr>"
    and "signalContexts t = (signalContexts ?s)(7 := (signalContexts ?s 7)\<lparr>sc_start := False, sc_signal := 9\<rparr>)"
    by (auto simp: tid2Thread_def)
  moreover have "killed (threads t 3)" by (subst t) simp
  ultimately show ?thesis by simp
qed

end
