(* ===== verification/Process_Table.thy ===== *)
theory Process_Table
  imports File Signal
begin

text \<open>
  The life of processes and threads: the segment maps of \<^verbatim>\<open>src/kernel/trap/Exec.c\<close>, and the tables of
  \<^verbatim>\<open>src/kernel/yield/{Process,Thread}.c\<close> with allocation, release, the image of the first process and
  \<^verbatim>\<open>wait\<close>. \<^verbatim>\<open>kernelProcessCpuTimeBegin\<close> and \<^verbatim>\<open>kernelProcessCpuTimeEnd\<close> return at once.
\<close>

abbreviation (input) SEGMENT_MAP_NUMBER :: nat where "SEGMENT_MAP_NUMBER \<equiv> 1024"

abbreviation upd_psm :: "nat \<Rightarrow> (ProcessSegmentMap \<Rightarrow> ProcessSegmentMap) \<Rightarrow> 'z kproc_scheme \<Rightarrow> 'z kproc_scheme" where
  "upd_psm i f s \<equiv> s\<lparr>segmentMaps := (segmentMaps s)(i := f (segmentMaps s i))\<rparr>"

section \<open>Segment maps\<close>

definition segmentMapAlloc :: "'z kproc_scheme \<Rightarrow> (nat \<times> 'z kproc_scheme) option" where
  "segmentMapAlloc s = do {
     (i, bm) \<leftarrow> bitmap_alloc (segmentMapBitmap s) 0;
     Some (i, s\<lparr>segmentMapBitmap := bm\<rparr>) }"

definition appendSegmentMap :: "nat \<Rightarrow> nat \<Rightarrow> 'z kproc_scheme \<Rightarrow> 'z kproc_scheme" where
  "appendSegmentMap p psm s =
     (let s = upd_psm psm (\<lambda>m. m\<lparr>psm_next := segmentMapHead (processes s p)\<rparr>) s
      in upd_process p (\<lambda>x. x\<lparr>segmentMapHead := Some psm\<rparr>) s)"

definition segmentMapFree :: "nat \<Rightarrow> 'z kproc_scheme \<Rightarrow> 'z kproc_scheme option" where
  "segmentMapFree psm s = do {
     bm \<leftarrow> bitmap_free psm (segmentMapBitmap s);
     Some (s\<lparr>segmentMapBitmap := bm\<rparr>) }"

partial_function (option) map_free_loop :: "nat option \<Rightarrow> 'z kproc_scheme \<Rightarrow> 'z kproc_scheme option" where
  "map_free_loop psm s = (case psm of None \<Rightarrow> Some s
     | Some i \<Rightarrow> do { s \<leftarrow> segmentMapFree i s; map_free_loop (psm_next (segmentMaps s i)) s })"

definition processMapFree :: "nat \<Rightarrow> 'z kproc_scheme \<Rightarrow> 'z kproc_scheme option" where
  "processMapFree p s = do {
     s \<leftarrow> map_free_loop (segmentMapHead (processes s p)) s;
     Some (upd_process p (\<lambda>x. x\<lparr>segmentMapHead := None\<rparr>) s) }"

section \<open>Initialisation\<close>

definition SATP_SV39 :: u64 where "SATP_SV39 = push_bit 63 1"

definition MAKE_SATP :: "u64 \<Rightarrow> u64" where
  "MAKE_SATP pagetable = SATP_SV39 OR drop_bit 12 pagetable"

definition threadInit :: "'z kmem_scheme \<Rightarrow> 'z kmem_scheme" where
  "threadInit s =
     (let s = s\<lparr>thread_links := LIST_INIT Used (LIST_INIT Free (thread_links s)),
                sched_links := LIST_INIT 1 (LIST_INIT 0 (sched_links s))\<rparr>
      in fold (\<lambda>i s. let s = upd_thread i (\<lambda>t. t\<lparr>th_state := UNUSED,
                  trapframe := (trapframe t)(tf_kernelSatp := MAKE_SATP (kernelPageDirectory s))\<rparr>) s
                in s\<lparr>thread_links := LIST_INSERT_HEAD Free i (thread_links s)\<rparr>)
              (rev [0..<PROCESS_TOTAL_NUMBER]) s)"

text \<open>The register \<^verbatim>\<open>sscratch\<close> that is set at the end is not part of the state.\<close>

definition processInit :: "'z kmem_scheme \<Rightarrow> 'z kmem_scheme" where
  "processInit s =
     (let s = s\<lparr>process_links := LIST_INIT Used (LIST_INIT Free (process_links s))\<rparr>;
          s = fold (\<lambda>i s. s\<lparr>process_links := LIST_INSERT_HEAD Free i (process_links s)\<rparr>) (rev [0..<PROCESS_TOTAL_NUMBER]) s
      in threadInit s)"

section \<open>Release\<close>

definition close_fd :: "nat \<Rightarrow> nat \<Rightarrow> 'z kio_scheme \<Rightarrow> 'z kio_scheme option" where
  "close_fd p fd s = (case ofile (processes s p) fd of None \<Rightarrow> Some s
     | Some f \<Rightarrow> do {
         s \<leftarrow> fileclose f s;
         Some (upd_process p (\<lambda>x. x\<lparr>ofile := (ofile x)(fd := None)\<rparr>) s) })"

definition processFree :: "nat \<Rightarrow> 'z kio_scheme \<Rightarrow> 'z kio_scheme option" where
  "processFree p s = do {
     s \<leftarrow> pgdirFree (p_pgdir (processes s p)) s;
     let s = upd_process p (\<lambda>x. x\<lparr>p_state := ZOMBIE\<rparr>) s;
     s \<leftarrow> kfor 0 NOFILE (close_fd p) s;
     s \<leftarrow> processMapFree p s;
     if parentId (processes s p) > 0 then do {
       (r, parent) \<leftarrow> pid2Process (parentId (processes s p)) False s;
       if r = 0 then wakeup (case parent of None \<Rightarrow> NoChan | Some pp \<Rightarrow> ChanProcess pp) s
       else Some s }
     else Some s }"

text \<open>The signals that wait for a thread are taken off its list one by one.\<close>

partial_function (option) drop_signals :: "nat \<Rightarrow> 'z kproc_scheme \<Rightarrow> 'z kproc_scheme option" where
  "drop_signals th s = (case LIST_FIRST (Waiting th) (signal_links s) of None \<Rightarrow> Some s
     | Some sc \<Rightarrow> do {
         l \<leftarrow> LIST_REMOVE sc (signal_links s);
         drop_signals th (signalContextFree sc (s\<lparr>signal_links := l\<rparr>)) })"

definition threadFree :: "nat \<Rightarrow> 'z kio_scheme \<Rightarrow> 'z kio_scheme option" where
  "threadFree th s = do {
     let p = th_process (threads s th);
     s \<leftarrow> drop_signals th s;
     s \<leftarrow> (let ctid = clearChildTid (threads s th)
          in if ctid \<noteq> 0 then do {
               (r, s) \<leftarrow> copyout kernel_reader (p_pgdir (processes s p)) ctid [0, 0, 0, 0] 4 s;
               Some (futexWake ctid 1 s) }
             else Some s);
     let s = upd_process p (\<lambda>x. x\<lparr>threadCount := threadCount x - 1\<rparr>) s;
     s \<leftarrow> (if threadCount (processes s p) = 0
          then processFree p (upd_process p (\<lambda>x. x\<lparr>p_retValue := th_retValue (threads s th)\<rparr>) s)
          else Some s);
     let s = upd_thread th (\<lambda>t. t\<lparr>th_state := UNUSED\<rparr>) s;
     l \<leftarrow> LIST_REMOVE th (thread_links s);
     Some (s\<lparr>thread_links := LIST_INSERT_HEAD Free th l\<rparr>) }"

section \<open>Allocation\<close>

text \<open>A page of kernel memory at \<open>va\<close>; the kernel stops when no page is left.\<close>

definition kernel_page :: "u64 \<Rightarrow> 'z kmem_scheme \<Rightarrow> 'z kmem_scheme option" where
  "kernel_page va s = do {
     (page, s) \<leftarrow> pageAlloc s;
     (r, s) \<leftarrow> pageInsert (kernelPageDirectory s) va (page2pa page) (PTE_READ OR PTE_WRITE) s;
     Some s }"

text \<open>The pages that every address space shares with the kernel.\<close>

definition map_trampolines :: "u64 \<Rightarrow> 'z kmem_scheme \<Rightarrow> 'z kmem_scheme option" where
  "map_trampolines pgdir s = do {
     (r, s) \<leftarrow> pageInsert pgdir TRAMPOLINE_BASE (trampoline s) (PTE_READ OR PTE_WRITE OR PTE_EXECUTE) s;
     (r, s) \<leftarrow> pageInsert pgdir (TRAMPOLINE_BASE + PAGE_SIZE) (trampoline s + PAGE_SIZE) (PTE_READ OR PTE_WRITE OR PTE_EXECUTE) s;
     (r, s) \<leftarrow> pageInsert pgdir SIGNAL_TRAMPOLINE_BASE (signalTrampoline s) (PTE_USER OR PTE_EXECUTE OR PTE_READ OR PTE_WRITE) s;
     Some s }"

definition processSetup :: "nat \<Rightarrow> 'z kio_scheme \<Rightarrow> 'z kio_scheme option" where
  "processSetup p s = do {
     (page, s) \<leftarrow> allocPgdir s;
     let s = upd_process p (\<lambda>x. x\<lparr>p_pgdir := page2pa page, p_retValue := 0, p_state := UNUSED, parentId := 0,
       brkHeapBottom := USER_BRK_HEAP_BOTTOM, mmapHeapBottom := USER_MMAP_HEAP_BOTTOM\<rparr>) s;
     let s = (case rootFileSystem s of None \<Rightarrow> (let (f, s) = fsAlloc s in s\<lparr>rootFileSystem := f\<rparr>) | Some f \<Rightarrow> s);
     f \<leftarrow> rootFileSystem s;
     let s = upd_process p (\<lambda>x. x\<lparr>cwd := Some (root_of f), fd_hard := of_nat NOFILE, fd_soft := of_nat NOFILE\<rparr>) s;
     s \<leftarrow> map_trampolines (p_pgdir (processes s p)) s;
     kernel_page (getSignalHandler p) s }"

definition processAlloc :: "u64 \<Rightarrow> 'z kio_scheme \<Rightarrow> (nat \<times> 'z kio_scheme) option" where
  "processAlloc parent s = do {
     p \<leftarrow> LIST_FIRST Free (process_links s);
     l \<leftarrow> LIST_REMOVE p (process_links s);
     let s = s\<lparr>process_links := LIST_INSERT_HEAD Used p l\<rparr>;
     s \<leftarrow> processSetup p s;
     let (pid, s) = generateProcessId p s;
     Some (p, upd_process p (\<lambda>x. x\<lparr>processId := pid, p_state := RUNNABLE, parentId := ucast parent\<rparr>) s) }"

text \<open>The last page is allocated and then not mapped anywhere: its \<^verbatim>\<open>pageInsert\<close> is commented out.\<close>

definition threadSetup :: "nat \<Rightarrow> 'z kmem_scheme \<Rightarrow> 'z kmem_scheme option" where
  "threadSetup th s = do {
     let s = upd_thread th (\<lambda>t. t\<lparr>chan := NoChan, th_retValue := 0, th_state := UNUSED, reason := 0, setChildTid := 0,
       clearChildTid := 0, awakeTime := 0, robustHeadPointer := 0, killed := False\<rparr>) s;
     let s = s\<lparr>signal_links := LIST_INIT (Waiting th) (signal_links s)\<rparr>;
     s \<leftarrow> kernel_page (getThreadTopSp th - PAGE_SIZE) s;
     s \<leftarrow> kernel_page (getThreadTopSp th - PAGE_SIZE * 2) s;
     s \<leftarrow> kernel_page (getThreadTopSp th - PAGE_SIZE * 3) s;
     (page, s) \<leftarrow> pageAlloc s;
     Some s }"

text \<open>A free thread with its stack, as both allocation functions begin.\<close>

definition take_thread :: "u64 \<Rightarrow> 'z kmem_scheme \<Rightarrow> (nat \<times> 'z kmem_scheme) option" where
  "take_thread sp s = do {
     th \<leftarrow> LIST_FIRST Free (thread_links s);
     l \<leftarrow> LIST_REMOVE th (thread_links s);
     let s = s\<lparr>thread_links := LIST_INSERT_HEAD Used th l\<rparr>;
     s \<leftarrow> threadSetup th s;
     let (tid, s) = generateThreadId th s;
     Some (th, upd_thread th (\<lambda>t. t\<lparr>th_id := tid, th_state := RUNNABLE,
       trapframe := (trapframe t)(tf_kernelSp := getThreadTopSp th, tf_sp := sp)\<rparr>) s) }"

definition join_process :: "nat \<Rightarrow> nat \<Rightarrow> 'z kproc_scheme \<Rightarrow> 'z kproc_scheme" where
  "join_process th p s =
     (let s = upd_thread th (\<lambda>t. t\<lparr>th_process := p\<rparr>) s
      in upd_process p (\<lambda>x. x\<lparr>threadCount := threadCount x + 1\<rparr>) s)"

definition mainThreadAlloc :: "u64 \<Rightarrow> 'z kio_scheme \<Rightarrow> (nat \<times> 'z kio_scheme) option" where
  "mainThreadAlloc parent s = do {
     (th, s) \<leftarrow> take_thread (USER_STACK_TOP - 24) s;
     (p, s) \<leftarrow> processAlloc parent s;
     Some (th, join_process th p s) }"

definition threadAlloc :: "nat \<Rightarrow> u64 \<Rightarrow> 'z kmem_scheme \<Rightarrow> (nat \<times> 'z kmem_scheme) option" where
  "threadAlloc p userSp s = do {
     (th, s) \<leftarrow> take_thread userSp s;
     Some (th, join_process th p s) }"

section \<open>The image of a program in memory\<close>

abbreviation (input) USER_RWX :: u64 where "USER_RWX \<equiv> PTE_EXECUTE OR PTE_READ OR PTE_WRITE OR PTE_USER"

text \<open>A fresh page of the process at \<open>va\<close>.\<close>

definition image_page :: "u64 \<Rightarrow> u64 \<Rightarrow> 'z kmem_scheme \<Rightarrow> (nat \<times> 'z kmem_scheme) option" where
  "image_page pgdir va s = do {
     (page, s) \<leftarrow> pageAlloc s;
     (r, s) \<leftarrow> pageInsert pgdir va (page2pa page) USER_RWX s;
     Some (page, s) }"

text \<open>The page at \<open>va\<close>, a fresh one if there is none.\<close>

definition image_lookup :: "u64 \<Rightarrow> u64 \<Rightarrow> 'z kmem_scheme \<Rightarrow> (nat \<times> 'z kmem_scheme) option" where
  "image_lookup pgdir va s = (case pa2page (fst (pageLookup pgdir va s)) of
     None \<Rightarrow> image_page pgdir va s
   | Some page \<Rightarrow> Some (page, s))"

text \<open>The loops over whole pages: \<open>i\<close> is the position, \<open>r\<close> the size of the step made last.\<close>

partial_function (option) image_copy :: "u64 \<Rightarrow> u64 \<Rightarrow> u8 list \<Rightarrow> u32 \<Rightarrow> u64 \<Rightarrow> u64 \<Rightarrow> 'z kmem_scheme
    \<Rightarrow> ((u64 \<times> u64) \<times> 'z kmem_scheme) option" where
  "image_copy pgdir va binary binSize i r s =
     (if i < ucast binSize then do {
        (page, s) \<leftarrow> image_page pgdir (va + i) s;
        let r = min PAGE_SIZE (ucast binSize - i);
        let s = s\<lparr>mem := mem_write (mem s) (page2pa page) (take (unat r) (drop (unat i) binary))\<rparr>;
        image_copy pgdir va binary binSize (i + r) r s }
      else Some ((i, r), s))"

partial_function (option) image_zero :: "u64 \<Rightarrow> u64 \<Rightarrow> u32 \<Rightarrow> u64 \<Rightarrow> 'z kmem_scheme \<Rightarrow> 'z kmem_scheme option" where
  "image_zero pgdir va segmentSize i s =
     (if i < ucast segmentSize then do {
        (page, s) \<leftarrow> image_page pgdir (va + i) s;
        let r = min PAGE_SIZE (ucast segmentSize - i);
        let s = s\<lparr>mem := bzero (mem s) (page2pa page) (ucast r)\<rparr>;
        image_zero pgdir va segmentSize (i + r) s }
      else Some s)"

text \<open>
  The bytes of the file, then zeros up to the size of the segment. When the file part ends on a page
  boundary, \<open>r\<close> still holds the size of the last copy and the loop that follows starts that much too
  far.
\<close>

definition codeMapper :: "u64 \<Rightarrow> u64 \<Rightarrow> u32 \<Rightarrow> u8 list \<Rightarrow> u32 \<Rightarrow> 'z kmem_scheme \<Rightarrow> 'z kmem_scheme option" where
  "codeMapper pgdir va segmentSize binary binSize s = do {
     let offset = va - DOWN_ALIGN va PAGE_SIZE;
     (r, s) \<leftarrow> (if offset > 0 then do {
          (page, s) \<leftarrow> image_lookup pgdir va s;
          let r = min (ucast binSize) (PAGE_SIZE - offset);
          Some (r, s\<lparr>mem := mem_write (mem s) (page2pa page + offset) (take (unat r) binary)\<rparr>) }
        else Some (0, s));
     ((i, r), s) \<leftarrow> image_copy pgdir va binary binSize r r s;
     let offset = va + i - DOWN_ALIGN (va + i) PAGE_SIZE;
     (r, s) \<leftarrow> (if offset > 0 then do {
          (page, s) \<leftarrow> image_lookup pgdir (va + i) s;
          let r = min (ucast segmentSize - i) (PAGE_SIZE - offset);
          Some (r, s\<lparr>mem := bzero (mem s) (page2pa page + offset) (ucast r)\<rparr>) }
        else Some (r, s));
     image_zero pgdir va segmentSize (i + r) s }"

text \<open>The headers of an executable, read at their offsets in the file.\<close>

definition get64 :: "u8 list \<Rightarrow> nat \<Rightarrow> u64" where
  "get64 xs k = le_word (take 8 (drop k xs))"

record Ehdr =
  e_magic :: "u8 list"
  e_type :: u16
  e_entry :: u64
  e_phoff :: u64
  e_phentsize :: u16
  e_phnum :: u16

record Phdr =
  ph_type :: u32
  ph_flags :: u32
  ph_offset :: u64
  ph_vaddr :: u64
  ph_filesz :: u64
  ph_memsz :: u64

definition ehdr :: "u8 list \<Rightarrow> Ehdr" where
  "ehdr bs = \<lparr>e_magic = take 4 bs, e_type = get16 bs 16, e_entry = get64 bs 24, e_phoff = get64 bs 32,
     e_phentsize = get16 bs 54, e_phnum = get16 bs 56\<rparr>"

definition phdr :: "u8 list \<Rightarrow> Phdr" where
  "phdr bs = \<lparr>ph_type = get32 bs 0, ph_flags = get32 bs 4, ph_offset = get64 bs 8, ph_vaddr = get64 bs 16,
     ph_filesz = get64 bs 32, ph_memsz = get64 bs 40\<rparr>"

definition is_elf_format :: "Ehdr \<Rightarrow> bool" where
  "is_elf_format e \<longleftrightarrow> e_magic e = [0x7f, 0x45, 0x4c, 0x46]"

abbreviation (input) PT_LOAD :: u32 where "PT_LOAD \<equiv> 1"
abbreviation (input) NOT_ELF_FILE :: int where "NOT_ELF_FILE \<equiv> 6"

primrec load_segments :: "u64 \<Rightarrow> u8 list \<Rightarrow> nat \<Rightarrow> nat \<Rightarrow> nat \<Rightarrow> 'z kmem_scheme \<Rightarrow> 'z kmem_scheme option" where
  "load_segments pgdir binary table entry_size 0 s = Some s"
| "load_segments pgdir binary table entry_size (Suc k) s = do {
     let ph = phdr (drop table binary);
     s \<leftarrow> (if ph_type ph = PT_LOAD
          then codeMapper pgdir (ph_vaddr ph) (ucast (ph_memsz ph)) (drop (unat (ph_offset ph)) binary) (ucast (ph_filesz ph)) s
          else Some s);
     load_segments pgdir binary (table + entry_size) entry_size k s }"

text \<open>The result and the entry point.\<close>

definition loadElf :: "u64 \<Rightarrow> u8 list \<Rightarrow> int \<Rightarrow> 'z kmem_scheme \<Rightarrow> ((int \<times> u64) \<times> 'z kmem_scheme) option" where
  "loadElf pgdir binary sz s =
     (let e = ehdr binary
      in if sz < 4 \<or> \<not> is_elf_format e then Some ((- NOT_ELF_FILE, 0), s)
         else do {
           s \<leftarrow> load_segments pgdir binary (unat (e_phoff e)) (unat (e_phentsize e)) (unat (e_phnum e)) s;
           Some ((0, e_entry e), s) })"

definition processCreatePriority :: "u8 list \<Rightarrow> u32 \<Rightarrow> u32 \<Rightarrow> 'z kio_scheme \<Rightarrow> 'z kio_scheme option" where
  "processCreatePriority binary sz prio s = do {
     (th, s) \<leftarrow> mainThreadAlloc 0 s;
     let p = th_process (threads s th);
     let s = upd_process p (\<lambda>x. x\<lparr>priority := prio\<rparr>) s;
     ((r, entry), s) \<leftarrow> loadElf (p_pgdir (processes s p)) binary (sint sz) s;
     kassert (\<not> r < 0);
     let s = upd_thread th (\<lambda>t. t\<lparr>trapframe := (trapframe t)(tf_epc := entry)\<rparr>) s;
     l \<leftarrow> LIST_INSERT_TAIL 0 th (sched_links s);
     Some (s\<lparr>sched_links := l\<rparr>) }"

section \<open>Waiting for children\<close>

partial_function (option) updateAncestorsCpuTime :: "nat \<Rightarrow> nat \<Rightarrow> 'z kproc_scheme \<Rightarrow> 'z kproc_scheme option" where
  "updateAncestorsCpuTime p pp s =
     (if parentId (processes s pp) > 0 then do {
        (r, q) \<leftarrow> pid2Process (parentId (processes s pp)) False s;
        if r \<ge> 0 then do {
          q \<leftarrow> q;
          updateAncestorsCpuTime p q (upd_process q (\<lambda>x. x\<lparr>deadChildrenKernel := deadChildrenKernel x + cpu_kernel (processes s p),
            deadChildrenUser := deadChildrenUser x + cpu_user (processes s p)\<rparr>) s) }
        else Some s }
      else Some s)"

abbreviation (input) WNOHANG :: u32 where "WNOHANG \<equiv> 1"

text \<open>A child that the caller asked for and that has ended is taken off the table.\<close>

definition reap :: "nat \<Rightarrow> u64 \<Rightarrow> nat \<Rightarrow> 'z kio_scheme \<Rightarrow> (int \<times> 'z kio_scheme) option" where
  "reap p addr np s = do {
     let pid = sint (processId (processes s np));
     (r, s) \<leftarrow> (if addr \<noteq> 0
        then copyout kernel_reader (p_pgdir (processes s p)) addr (le_bytes 4 (ucast (p_retValue (processes s np)))) 4 s
        else Some (0, s));
     if r < 0 then Some (- 1, s)
     else do {
       s \<leftarrow> updateAncestorsCpuTime np np s;
       let s = upd_process np (\<lambda>x. x\<lparr>p_state := UNUSED\<rparr>) s;
       l \<leftarrow> LIST_REMOVE np (process_links s);
       Some (pid, s\<lparr>process_links := LIST_INSERT_HEAD Free np l\<rparr>) } }"

definition wait :: "int \<Rightarrow> u64 \<Rightarrow> u32 \<Rightarrow> 'z kio_scheme \<Rightarrow> ((int, unit) progress \<times> 'z kio_scheme) option" where
  "wait target addr flags s = do {
     p \<leftarrow> myProcess s;
     ps \<leftarrow> LIST_FOREACH (LIST_FIRST Used (process_links s)) (process_links s);
     let kids = filter (\<lambda>np. parentId (processes s np) = processId (processes s p)) ps;
     case find (\<lambda>np. (target = - 1 \<or> processId (processes s np) = word_of_int target) \<and> p_state (processes s np) = ZOMBIE) kids of
       Some np \<Rightarrow> do { (r, s) \<leftarrow> reap p addr np s; Some (Returns r, s) }
     | None \<Rightarrow>
         if flags AND WNOHANG \<noteq> 0 then Some (Returns (- 1), s)
         else if kids = [] then Some (Returns 0, s)
         else do { (b, s) \<leftarrow> sleep_begin (ChanProcess p) () s; Some (Blocks b, s) } }"

definition wait_resume :: "int \<Rightarrow> u64 \<Rightarrow> u32 \<Rightarrow> 'z kio_scheme \<Rightarrow> ((int, unit) progress \<times> 'z kio_scheme) option" where
  "wait_resume target addr flags s = do {
     (b, s) \<leftarrow> sleep_end () s;
     case b of Killed \<Rightarrow> Some (Blocks Killed, s)
     | Sleeps u \<Rightarrow> wait target addr flags s }"

end
