(* ===== verification/Scheduler.thy ===== *)
theory Scheduler
  imports Process_Table
begin

text \<open>
  Links between files, the switch to another thread and the choice of that thread: \<^verbatim>\<open>do_linkat\<close> and
  \<^verbatim>\<open>do_unlinkat\<close> of \<^verbatim>\<open>src/kernel/fs/Sysfile.c\<close>, \<^verbatim>\<open>threadRun\<close> and \<^verbatim>\<open>threadDestroy\<close> of
  \<^verbatim>\<open>src/kernel/yield/Thread.c\<close>, and \<^verbatim>\<open>src/kernel/yield/{Yield,Clone}.c\<close>.
\<close>

section \<open>Links\<close>

abbreviation (input) O_WRONLY :: u32 where "O_WRONLY \<equiv> 0x1"
abbreviation (input) O_RDWR :: u32 where "O_RDWR \<equiv> 0x2"
abbreviation (input) FAT32_MAX_PATH :: nat where "FAT32_MAX_PATH \<equiv> 260"

text \<open>A link is a file that holds the absolute path of its target.\<close>

definition do_linkat :: "int \<Rightarrow> u8 list \<Rightarrow> int \<Rightarrow> u8 list \<Rightarrow> 'z kfat_scheme \<Rightarrow> (int \<times> 'z kfat_scheme) option" where
  "do_linkat oldDirFd oldPath newDirFd newPath s = do {
     (entry, s) \<leftarrow> ename oldDirFd oldPath True s;
     case entry of None \<Rightarrow> Some (- 1, s)
     | Some entry \<Rightarrow> do {
         (target, s) \<leftarrow> create newDirFd newPath T_FILE O_RDWR s;
         case target of None \<Rightarrow> Some (- 1, s)
         | Some target \<Rightarrow> do {
             path \<leftarrow> absolute_path entry (int FAT32_MAX_PATH) s;
             case path of None \<Rightarrow> do { s \<leftarrow> eremove target s; Some (- 1, s) }
             | Some buf \<Rightarrow> do {
                 (r, s) \<leftarrow> ewrite kernel_reader target (Local buf) 0 (of_nat (length buf)) s;
                 if r \<noteq> int (length buf) then do { s \<leftarrow> eremove target s; Some (- 1, s) }
                 else Some (0, upd_dirent target (\<lambda>e. e\<lparr>nt_res := DT_LNK\<rparr>) s) } } } }"

definition do_unlinkat :: "int \<Rightarrow> u8 list \<Rightarrow> 'z kfat_scheme \<Rightarrow> (int \<times> 'z kfat_scheme) option" where
  "do_unlinkat fd path s = do {
     (entry, s) \<leftarrow> ename fd path True s;
     case entry of None \<Rightarrow> Some (- 1, s)
     | Some entry \<Rightarrow> do {
         s \<leftarrow> etrunc entry s;
         s \<leftarrow> eremove entry (upd_dirent entry (\<lambda>e. e\<lparr>nt_res := 0\<rparr>) s);
         Some (0, s) } }"

section \<open>The first thread\<close>

text \<open>The static variable \<^verbatim>\<open>first\<close> of \<^verbatim>\<open>threadRun\<close>.\<close>

record klife = kio +
  first :: bool

definition str :: "string \<Rightarrow> u8 list" where
  "str cs = map of_char cs"

text \<open>An entry that must come into being, and its device number.\<close>

definition boot_create :: "string \<Rightarrow> int \<Rightarrow> 'z kfat_scheme \<Rightarrow> (nat \<times> 'z kfat_scheme) option" where
  "boot_create path type s = do {
     (ep, s) \<leftarrow> create AT_FDCWD (str path) type 0 s;
     ep \<leftarrow> ep;
     Some (ep, s) }"

definition boot_device :: "string \<Rightarrow> u32 \<Rightarrow> 'z kfat_scheme \<Rightarrow> 'z kfat_scheme option" where
  "boot_device path dev s = do {
     (ep, s) \<leftarrow> boot_create path T_CHAR s;
     Some (upd_dirent ep (\<lambda>e. e\<lparr>d_dev := dev\<rparr>) s) }"

primrec boot_entries :: "(string \<times> int) list \<Rightarrow> 'z kfat_scheme \<Rightarrow> 'z kfat_scheme option" where
  "boot_entries [] s = Some s"
| "boot_entries (x # xs) s = do { (ep, s) \<leftarrow> boot_create (fst x) (snd x) s; boot_entries xs s }"

text \<open>The results of these are not looked at.\<close>

primrec boot_tries :: "(string \<times> int) list \<Rightarrow> 'z kfat_scheme \<Rightarrow> 'z kfat_scheme option" where
  "boot_tries [] s = Some s"
| "boot_tries (x # xs) s = do { (ep, s) \<leftarrow> create AT_FDCWD (str (fst x)) (snd x) 0 s; boot_tries xs s }"

definition boot_files :: "'z kfat_scheme \<Rightarrow> 'z kfat_scheme option" where
  "boot_files s = do {
     s \<leftarrow> boot_entries [(''/var/tmp/XXX'', T_FILE), (''/dev'', T_DIR)] s;
     (ep, s) \<leftarrow> boot_create ''/dev/vda2'' T_DIR s;
     let s = upd_dirent ep (\<lambda>e. e\<lparr>d_head := rootFileSystem s\<rparr>) s;
     s \<leftarrow> boot_entries [(''/dev/shm'', T_DIR)] s;
     s \<leftarrow> boot_device ''/dev/null'' DEV_NONE s;
     s \<leftarrow> boot_entries [(''/tmp'', T_DIR)] s;
     s \<leftarrow> boot_device ''/dev/zero'' DEV_ZERO s;
     s \<leftarrow> boot_entries [(''/dev/tty'', T_CHAR), (''/dev/rtc'', T_CHAR), (''/dev/rtc0'', T_CHAR), (''/dev/misc'', T_DIR),
       (''/dev/misc/rtc'', T_CHAR), (''/proc'', T_DIR), (''/proc/meminfo'', T_CHAR), (''/proc/mounts'', T_CHAR),
       (''/proc/localtime'', T_CHAR), (''/proc/sys'', T_DIR), (''/proc/sys/kernel'', T_DIR)] s;
     s \<leftarrow> boot_device ''/proc/sys/kernel/osrelease'' DEV_OSRELEASE s;
     s \<leftarrow> boot_entries [(''/proc/self'', T_DIR)] s;
     (r, s) \<leftarrow> do_linkat AT_FDCWD (str ''/'') AT_FDCWD (str ''/proc/self/exe'') s;
     kassert (\<not> r < 0);
     s \<leftarrow> boot_entries [(''/etc'', T_DIR), (''/etc/adjtime'', T_CHAR)] s;
     s \<leftarrow> boot_tries [(''/etc/localtime'', T_CHAR), (''/var'', T_DIR), (''/var/tmp'', T_DIR)] s;
     boot_entries [(''/var/tmp/XXX'', T_FILE)] s }"

text \<open>The file system is set up in the context of the first thread that runs.\<close>

definition boot_file_system :: "'z kfat_scheme \<Rightarrow> 'z kfat_scheme option" where
  "boot_file_system s = do {
     let s = (case rootFileSystem s of None \<Rightarrow> (let (f, s) = fsAlloc s in s\<lparr>rootFileSystem := f\<rparr>) | Some f \<Rightarrow> s);
     f \<leftarrow> rootFileSystem s;
     let s = upd_fs f (\<lambda>x. x\<lparr>fs_name := put_at 0 (str ''fat32'' @ [0]) (fs_name x), fs_reads := BlockRead\<rparr>) s;
     let s = direntInit s;
     (r, s) \<leftarrow> fatInit f s;
     boot_files s }"

section \<open>Switching\<close>

text \<open>
  How a thread goes on: inside the kernel, after the call of \<^verbatim>\<open>sleep\<close> in which it gave up the hart, or
  in user mode through \<^verbatim>\<open>userTrapReturn\<close>.
\<close>

datatype resumes = InKernel | ToUser

definition threadRun :: "nat \<Rightarrow> 'z klife_scheme \<Rightarrow> (resumes \<times> 'z klife_scheme) option" where
  "threadRun th s = do {
     let s = (case currentThread s of None \<Rightarrow> s | Some c \<Rightarrow> upd_thread c (\<lambda>t. t\<lparr>trapframe := hartTrapframe s\<rparr>) s);
     let s = upd_thread th (\<lambda>t. t\<lparr>th_state := RUNNING\<rparr>) s;
     if reason (threads s th) AND KERNEL_GIVE_UP \<noteq> 0 then do {
       let s = upd_thread th (\<lambda>t. t\<lparr>reason := reason t AND NOT KERNEL_GIVE_UP\<rparr>) s;
       let s = s\<lparr>currentThread := Some th\<rparr>;
       Some (InKernel, s\<lparr>hartTrapframe := trapframe (threads s th)\<rparr>) }
     else do {
       let s = s\<lparr>currentThread := Some th\<rparr>;
       s \<leftarrow> (if \<not> first s then boot_file_system (s\<lparr>first := True\<rparr>) else Some s);
       Some (ToUser, s\<lparr>hartTrapframe := trapframe (threads s th)\<rparr>) } }"

text \<open>
  The choice of the next thread: \<open>count\<close> and \<open>point\<close> are the remaining turns and the list in use, and
  \<open>clk k\<close> is what the clock shows at the \<open>k\<close>-th test of the loop.
\<close>

partial_function (option) yield_loop :: "(nat \<Rightarrow> u64) \<Rightarrow> nat \<Rightarrow> int \<Rightarrow> nat \<Rightarrow> nat option \<Rightarrow> 'z kproc_scheme
    \<Rightarrow> ((int \<times> nat \<times> nat) \<times> 'z kproc_scheme) option" where
  "yield_loop clk k count point thread s =
     (if count = 0 \<or> (case thread of None \<Rightarrow> True
         | Some t \<Rightarrow> th_state (threads s t) \<noteq> RUNNABLE \<or> awakeTime (threads s t) > clk k) then do {
        l \<leftarrow> (case thread of None \<Rightarrow> Some (sched_links s) | Some t \<Rightarrow> LIST_INSERT_TAIL (1 - point) t (sched_links s));
        let point = (if LIST_EMPTY point l then 1 - point else point);
        case LIST_FIRST point l of
          None \<Rightarrow> yield_loop clk (k + 1) count point thread (s\<lparr>sched_links := l\<rparr>)
        | Some t \<Rightarrow> do {
            l \<leftarrow> LIST_REMOVE t l;
            yield_loop clk (k + 1) 1 point (Some t) (s\<lparr>sched_links := l\<rparr>) } }
      else do { t \<leftarrow> thread; Some ((count, point, t), s) })"

text \<open>
  \<^verbatim>\<open>a0\<close> is cleared in the frame of the hart, which at this point still is the frame of the thread that
  gives up the hart.
\<close>

definition yield :: "(nat \<Rightarrow> u64) \<Rightarrow> 'z klife_scheme \<Rightarrow> (resumes \<times> 'z klife_scheme) option" where
  "yield clk s = do {
     let thread = myThread s;
     let s = (case thread of None \<Rightarrow> s
       | Some t \<Rightarrow>
           if th_state (threads s t) = RUNNING then
             (let s = (if reason (threads s t) AND KERNEL_GIVE_UP \<noteq> 0
                       then upd_thread t (\<lambda>x. x\<lparr>trapframe := hartTrapframe s\<rparr>) s else s)
              in upd_thread t (\<lambda>x. x\<lparr>th_state := RUNNABLE\<rparr>) s)
           else s);
     ((count, point, t), s) \<leftarrow> yield_loop clk 0 (processTimeCount s) (processBelongList s) thread s;
     let s = s\<lparr>processTimeCount := count - 1, processBelongList := point\<rparr>;
     let s = (if awakeTime (threads s t) > 0
       then upd_thread t (\<lambda>x. x\<lparr>awakeTime := 0\<rparr>) (s\<lparr>hartTrapframe := (hartTrapframe s)(tf_a0 := 0)\<rparr>) else s);
     threadRun t (futexClear t s) }"

text \<open>Destroying the current thread gives up the hart for good.\<close>

definition threadDestroy :: "(nat \<Rightarrow> u64) \<Rightarrow> nat \<Rightarrow> 'z klife_scheme \<Rightarrow> (resumes option \<times> 'z klife_scheme) option" where
  "threadDestroy clk th s = do {
     s \<leftarrow> threadFree th s;
     if currentThread s = Some th then do {
       (r, s) \<leftarrow> yield clk (s\<lparr>currentThread := None\<rparr>);
       Some (Some r, s) }
     else Some (None, s) }"

section \<open>Clone\<close>

partial_function (option) copy_maps :: "nat option \<Rightarrow> nat \<Rightarrow> 'z kproc_scheme \<Rightarrow> 'z kproc_scheme option" where
  "copy_maps psm p s = (case psm of None \<Rightarrow> Some s
     | Some i \<Rightarrow> do {
         (n, s) \<leftarrow> segmentMapAlloc s;
         let s = upd_psm n (\<lambda>_. segmentMaps s i) s;
         let s = appendSegmentMap p n s;
         copy_maps (psm_next (segmentMaps s i)) p s })"

definition dup_fd :: "nat \<Rightarrow> nat \<Rightarrow> nat \<Rightarrow> 'z kfat_scheme \<Rightarrow> 'z kfat_scheme option" where
  "dup_fd cur p i s = (case ofile (processes s cur) i of None \<Rightarrow> Some s
     | Some f \<Rightarrow> do {
         s \<leftarrow> filedup f s;
         Some (upd_process p (\<lambda>x. x\<lparr>ofile := (ofile x)(i := Some f)\<rparr>) s) })"

text \<open>One page of the parent: a writable page becomes copy-on-write in both.\<close>

definition fork_page :: "u64 \<Rightarrow> u64 \<Rightarrow> u64 \<Rightarrow> 'z kmem_scheme \<Rightarrow> 'z kmem_scheme option" where
  "fork_page child va addr s =
     (if load64 (mem s) addr AND PTE_VALID = 0 then Some s
      else if va = TRAMPOLINE_BASE \<or> va = TRAMPOLINE_BASE + PAGE_SIZE then Some s
      else do {
        let e = load64 (mem s) addr;
        let s = (if e AND PTE_WRITE \<noteq> 0
          then s\<lparr>mem := store64 (mem s) addr ((e OR PTE_COW) AND NOT PTE_WRITE)\<rparr> else s);
        let e = load64 (mem s) addr;
        (r, s) \<leftarrow> pageInsert child va (PTE2PA e) (PTE2PERM e) s;
        Some s })"

definition fork_pages :: "u64 \<Rightarrow> u64 \<Rightarrow> 'z kmem_scheme \<Rightarrow> 'z kmem_scheme option" where
  "fork_pages pgdir child s =
     kfor 0 512 (\<lambda>i s.
       let e = load64 (mem s) (pgdir + 8 * of_nat i) in
       if e AND PTE_VALID = 0 then Some s
       else kfor 0 512 (\<lambda>j s.
         let e2 = load64 (mem s) (PTE2PA e + 8 * of_nat j) in
         if e2 AND PTE_VALID = 0 then Some s
         else kfor 0 512 (\<lambda>k s.
           fork_page child (push_bit 30 (of_nat i) + push_bit 21 (of_nat j) + push_bit 12 (of_nat k))
             (PTE2PA e2 + 8 * of_nat k) s) s) s) s"

definition processFork :: "'z kio_scheme \<Rightarrow> (int \<times> 'z kio_scheme) option" where
  "processFork s = do {
     cur \<leftarrow> myProcess s;
     (th, s) \<leftarrow> mainThreadAlloc (ucast (processId (processes s cur))) s;
     let p = th_process (threads s th);
     let s = upd_process p (\<lambda>x. x\<lparr>cwd := cwd (processes s cur)\<rparr>) s;
     s \<leftarrow> copy_maps (segmentMapHead (processes s cur)) p s;
     s \<leftarrow> kfor 0 (unat (fd_hard (processes s p))) (dup_fd cur p) s;
     let s = upd_process p (\<lambda>x. x\<lparr>priority := priority (processes s cur), brkHeapBottom := brkHeapBottom (processes s cur),
       mmapHeapBottom := mmapHeapBottom (processes s cur)\<rparr>) s;
     let s = upd_thread th (\<lambda>t. t\<lparr>trapframe := (hartTrapframe s)(tf_a0 := 0, tf_kernelSp := getThreadTopSp th)\<rparr>) s;
     s \<leftarrow> fork_pages (p_pgdir (processes s cur)) (p_pgdir (processes s p)) s;
     l \<leftarrow> LIST_INSERT_TAIL 0 th (sched_links s);
     Some (sint (processId (processes s p)), s\<lparr>sched_links := l\<rparr>) }"

definition threadFork :: "u64 \<Rightarrow> u64 \<Rightarrow> u64 \<Rightarrow> u64 \<Rightarrow> 'z kio_scheme \<Rightarrow> (int \<times> 'z kio_scheme) option" where
  "threadFork stackVa ptid tls ctid s = do {
     cur \<leftarrow> myProcess s;
     (th, s) \<leftarrow> threadAlloc cur stackVa s;
     let s = upd_thread th (\<lambda>t. t\<lparr>trapframe := (hartTrapframe s)(tf_a0 := 0, tf_tp := tls, tf_kernelSp := getThreadTopSp th,
       tf_sp := stackVa)\<rparr>) s;
     s \<leftarrow> (if ptid \<noteq> 0 then do {
            (r, s) \<leftarrow> copyout kernel_reader (p_pgdir (processes s cur)) ptid (le_bytes 4 (ucast (th_id (threads s th)))) 4 s;
            Some s }
          else Some s);
     let s = upd_thread th (\<lambda>t. t\<lparr>clearChildTid := ctid\<rparr>) s;
     l \<leftarrow> LIST_INSERT_TAIL 0 th (sched_links s);
     Some (sint (th_id (threads s th)), s\<lparr>sched_links := l\<rparr>) }"

abbreviation (input) CLONE_VM :: u32 where "CLONE_VM \<equiv> 0x100"

definition clone :: "u32 \<Rightarrow> u64 \<Rightarrow> u64 \<Rightarrow> u64 \<Rightarrow> u64 \<Rightarrow> 'z kio_scheme \<Rightarrow> (int \<times> 'z kio_scheme) option" where
  "clone flags stackVa ptid tls ctid s =
     (if flags AND CLONE_VM \<noteq> 0 then threadFork stackVa ptid tls ctid s else processFork s)"

end
