(* ===== verification/Samples.thy ===== *)
theory Samples
  imports Fat_Table Scheduler
begin

text \<open>
  Small kernel states, from zeroed memory with an initialised buffer cache, on which the properties
  of the components are applied to concrete inputs.
\<close>

definition small_kio :: kio where
  "small_kio = kfat.extend small_kfat (kio.fields (\<lambda>_. \<lparr>so_used = False, so_process = None,
     so_addr = \<lparr>family = 0, port = 0, sa_addr = 0, sa_zero = []\<rparr>, target_addr = \<lparr>family = 0, port = 0, sa_addr = 0, sa_zero = []\<rparr>,
     so_head = 0, so_tail = 0, pending_queue = (\<lambda>_. \<lparr>family = 0, port = 0, sa_addr = 0, sa_zero = []\<rparr>), pending_h = 0, pending_t = 0,
     listening = False\<rparr>) 0 \<lparr>ai_buffer = (\<lambda>_. 0), ai_head = 0, ai_tail = 0\<rparr> [])"

lemma small_kio_sel [simp]:
  "currentThread small_kio = Some 0" "threads small_kio = (\<lambda>_. zero_thread)" "thread_links small_kio = zero_lists"
  "fileSystem small_kio = (\<lambda>_. small_fs)" "dirents small_kio = (\<lambda>_. blank_dirent)" "ftable small_kio = (\<lambda>_. blank_file)"
  "bcache small_kio = bcache fresh_cache" "sdcard small_kio = sdcard fresh_cache"
  "asynInputBuffer small_kio = \<lparr>ai_buffer = (\<lambda>_. 0), ai_head = 0, ai_tail = 0\<rparr>" "console_out small_kio = []"
proof -
  have "kfat.truncate small_kio = small_kfat" by (simp add: small_kio_def kfat.defs kio.defs)
  moreover have "currentThread s = currentThread (kfat.truncate s)" "threads s = threads (kfat.truncate s)"
    "thread_links s = thread_links (kfat.truncate s)" "fileSystem s = fileSystem (kfat.truncate s)"
    "dirents s = dirents (kfat.truncate s)" "ftable s = ftable (kfat.truncate s)" "bcache s = bcache (kfat.truncate s)"
    "sdcard s = sdcard (kfat.truncate s)" for s :: kio
    by (simp_all add: kfat.defs)
  ultimately show "currentThread small_kio = Some 0" "threads small_kio = (\<lambda>_. zero_thread)" "thread_links small_kio = zero_lists"
    "fileSystem small_kio = (\<lambda>_. small_fs)" "dirents small_kio = (\<lambda>_. blank_dirent)" "ftable small_kio = (\<lambda>_. blank_file)"
    "bcache small_kio = bcache fresh_cache" "sdcard small_kio = sdcard fresh_cache" by simp_all
  show "asynInputBuffer small_kio = \<lparr>ai_buffer = (\<lambda>_. 0), ai_head = 0, ai_tail = 0\<rparr>" "console_out small_kio = []"
    by (simp_all add: small_kio_def kfat.defs kio.defs)
qed

text \<open>The first thread has run, so the file system is set up.\<close>

definition small_klife :: klife where
  "small_klife = kio.extend small_kio (klife.fields True)"

lemma small_klife_sel [simp]: "first small_klife" "threads small_klife = (\<lambda>_. zero_thread)" "processTimeCount small_klife = 0"
  "processBelongList small_klife = 0"
proof -
  have "kio.truncate small_klife = small_kio" by (simp add: small_klife_def kio.defs klife.defs)
  moreover have "threads s = threads (kio.truncate s)" for s :: klife by (simp add: kio.defs)
  ultimately show "threads small_klife = (\<lambda>_. zero_thread)" by simp
  show "first small_klife" by (simp add: small_klife_def kio.defs klife.defs)
  show "processTimeCount small_klife = 0" "processBelongList small_klife = 0"
    by (simp_all add: small_klife_def small_kio_def small_kfat_def fresh_cache_def binit_eq zero_kbio_def zero_kpipe_def zero_kmem_def
        zero_kproc_def kproc.defs kmem.defs kpipe.defs kbio.defs kfat.defs kio.defs klife.defs)
qed

end
