(* ===== verification/Console_Queue.thy ===== *)
theory Console_Queue
  imports Pipe_Queue Samples
begin

text \<open>
  The console input of \<^verbatim>\<open>src/kernel/driver/Console.c\<close> is a ring of the size of a pipe, filled by one hart and
  drained by the others: another instance of the contract \<open>fifo\<close>, obtained from that of pipes.
\<close>

section \<open>The ring as a queue\<close>

definition as_pipe :: "AsynInput \<Rightarrow> pipe" where
  "as_pipe b = \<lparr>pi_data = ai_buffer b, nread = ai_head b, nwrite = ai_tail b, readopen = True, writeopen = True\<rparr>"

definition ai_push :: "u8 \<Rightarrow> AsynInput \<Rightarrow> AsynInput" where
  "ai_push c b = b\<lparr>ai_buffer := (ai_buffer b)(unat (ai_tail b AND (IO_BUFFER - 1)) := c), ai_tail := ai_tail b + 1\<rparr>"

definition ai_pop :: "AsynInput \<Rightarrow> u8 \<times> AsynInput" where
  "ai_pop b = (ai_buffer b (unat (ai_head b AND (IO_BUFFER - 1))), b\<lparr>ai_head := ai_head b + 1\<rparr>)"

definition ai_ok :: "AsynInput \<Rightarrow> bool" where
  "ai_ok b \<longleftrightarrow> pipe_ok (as_pipe b)"

definition ai_contents :: "AsynInput \<Rightarrow> u8 list" where
  "ai_contents b = pipe_contents (as_pipe b)"

lemma as_pipe_push: "as_pipe (ai_push c b) = pipe_push c (as_pipe b)"
  by (simp add: as_pipe_def ai_push_def pipe_push_def)

lemma as_pipe_pop: "fst (ai_pop b) = fst (pipe_pop (as_pipe b))" "as_pipe (snd (ai_pop b)) = snd (pipe_pop (as_pipe b))"
  by (simp_all add: as_pipe_def ai_pop_def pipe_pop_def)

interpretation cq: fifo ai_ok ai_contents 65536 ai_push ai_pop
  by unfold_locales
     (use pq.bound pq.put_law pq.get_law in \<open>auto simp: ai_ok_def ai_contents_def as_pipe_push as_pipe_pop\<close>)

lemma ai_full_iff: "ai_ok b \<Longrightarrow> ai_tail b - ai_head b = IO_BUFFER \<longleftrightarrow> length (ai_contents b) = 65536"
  using pipe_full_iff [of "as_pipe b"] by (simp add: ai_ok_def ai_contents_def as_pipe_def diff_eq_eq add.commute)

lemma ai_empty_iff: "ai_head b = ai_tail b \<longleftrightarrow> ai_contents b = []"
  using pipe_empty_iff [of "as_pipe b"] by (simp add: ai_contents_def as_pipe_def)

lemma asynInput_eq:
  "asynInput uart s = (if ai_tail (asynInputBuffer s) - ai_head (asynInputBuffer s) = IO_BUFFER then (uart, s)
     else case uart of [] \<Rightarrow> ([], s)
       | c # cs \<Rightarrow> (cs, if c = - 1 then s else s\<lparr>asynInputBuffer := ai_push c (asynInputBuffer s)\<rparr>))"
  by (simp add: asynInput_def getchar_def ai_push_def Let_def split: list.split)

text \<open>The characters a turn takes from the UART.\<close>

definition taken :: "u8 list \<Rightarrow> u8 list \<Rightarrow> u8 list" where
  "taken uart rest = filter (\<lambda>c. c \<noteq> - 1) (take (length uart - length rest) uart)"

lemma asynInput_cases:
  assumes "asynInput uart t = (rest, u)"
  obtains "u = t" "taken uart rest = []"
  | c where "\<not> ai_tail (asynInputBuffer t) - ai_head (asynInputBuffer t) = IO_BUFFER" "uart = c # rest" "taken uart rest = [c]"
      "asynInputBuffer u = ai_push c (asynInputBuffer t)"
  using assms by (auto simp: asynInput_eq taken_def split: if_splits list.splits)

lemma asynGetChar_eq:
  "asynGetChar s = (if hasChar s then (fst (ai_pop (asynInputBuffer s)), s\<lparr>asynInputBuffer := snd (ai_pop (asynInputBuffer s))\<rparr>) else (- 1, s))"
  by (simp add: asynGetChar_def ai_pop_def hasChar_def Let_def)

section \<open>Properties\<close>

text \<open>
  Any interleaving of the turns of the input loop, of readers, and of steps that leave the ring alone.
  \<open>w\<close> are the characters the loop took from the UART, without the byte that stands for no character;
  \<open>r\<close> are the characters read.
\<close>

inductive console_trace :: "'z kio_scheme \<Rightarrow> u8 list \<Rightarrow> u8 list \<Rightarrow> 'z kio_scheme \<Rightarrow> bool" for s where
  start: "console_trace s [] [] s"
| typed: "console_trace s w r t \<Longrightarrow> asynInput uart t = (rest, u) \<Longrightarrow> console_trace s (w @ taken uart rest) r u"
| got: "console_trace s w r t \<Longrightarrow> asynGetChar t = (c, u) \<Longrightarrow> console_trace s w (if hasChar t then r @ [c] else r) u"
| other: "console_trace s w r t \<Longrightarrow> asynInputBuffer u = asynInputBuffer t \<Longrightarrow> console_trace s w r u"

text \<open>
  C26: however typing and reading interleave, the console delivers every character the input loop takes
  from the UART exactly once and in order, the byte that stands for no character apart; and the ring
  never holds more than its size, also where its counters wrap. While it is full the characters stay
  with the UART.
\<close>

theorem console_fifo_order:
  assumes "console_trace s w r t" and "ai_ok (asynInputBuffer s)"
  shows "ai_ok (asynInputBuffer t) \<and> length (ai_contents (asynInputBuffer t)) \<le> 65536
    \<and> ai_contents (asynInputBuffer s) @ w = r @ ai_contents (asynInputBuffer t)"
  using assms
proof (induction rule: console_trace.induct)
  case start
  then show ?case using cq.bound by simp
next
  case (typed w r t uart rest u)
  then have ok: "ai_ok (asynInputBuffer t)" "ai_contents (asynInputBuffer s) @ w = r @ ai_contents (asynInputBuffer t)" by auto
  show ?case
    using typed(2)
  proof (cases rule: asynInput_cases)
    case 1
    then show ?thesis using typed by simp
  next
    case (2 c)
    then have "length (ai_contents (asynInputBuffer t)) \<noteq> 65536" using ai_full_iff [OF ok(1)] by auto
    then show ?thesis using 2(3,4) ok cq.put_law [OF ok(1), of c] cq.bound [OF ok(1)] by auto
  qed
next
  case (got w r t c u)
  then have ok: "ai_ok (asynInputBuffer t)" "ai_contents (asynInputBuffer s) @ w = r @ ai_contents (asynInputBuffer t)" by auto
  show ?case
  proof (cases "hasChar t")
    case True
    then obtain x xs where x: "ai_contents (asynInputBuffer t) = x # xs"
      using ai_empty_iff [of "asynInputBuffer t"] by (cases "ai_contents (asynInputBuffer t)") (auto simp: hasChar_def)
    have "c = fst (ai_pop (asynInputBuffer t))" "asynInputBuffer u = snd (ai_pop (asynInputBuffer t))"
      using got(2) True by (auto simp: asynGetChar_eq)
    then show ?thesis using True ok x cq.get_law [OF ok(1) x] cq.bound [OF ok(1)] by auto
  next
    case False
    then have "u = t" using got(2) by (auto simp: asynGetChar_eq)
    then show ?thesis using False got by simp
  qed
next
  case (other w r t u)
  then show ?case by simp
qed

theorem console_fifo_order_witness: "fst (asynGetChar (snd (asynInput [65] small_kio))) = 65"
proof -
  let ?t = "snd (asynInput [65] small_kio)"
  have e: "ai_contents (asynInputBuffer small_kio) = []" using ai_empty_iff [of "asynInputBuffer small_kio"] by simp
  have ok: "ai_ok (asynInputBuffer small_kio)" by (simp add: ai_ok_def pipe_ok_def pipe_len_def as_pipe_def)
  have t: "console_trace small_kio [65] [] ?t"
    using console_trace.typed [OF console_trace.start, of "[65]" small_kio "[]" ?t] by (simp add: asynInput_eq taken_def)
  from console_fifo_order [OF this ok] have "ai_contents (asynInputBuffer ?t) = [65]" using e by simp
  then have h: "hasChar ?t" using ai_empty_iff [of "asynInputBuffer ?t"] by (auto simp: hasChar_def)
  obtain c u where g: "asynGetChar ?t = (c, u)" by (cases "asynGetChar ?t")
  from console_fifo_order [OF console_trace.got [OF t g] ok] show ?thesis using e h g by simp
qed

end
