(* ===== verification/Exec.thy ===== *)
theory Exec
  imports Scheduler
begin

text \<open>
  Running a program, \<^verbatim>\<open>src/kernel/trap/Exec.c\<close>: scripts, the segments of an executable, its interpreter
  and the first stack. Strings on the way are given by their bytes without the NUL; \<open>junk d\<close> is what the
  stack buffer of the \<open>d\<close>-th nested script held before. A jump to the label \<^verbatim>\<open>bad\<close> is the result
  \<open>None\<close> of the part that jumps.
\<close>

abbreviation (input) MAXARG :: nat where "MAXARG \<equiv> 32"
abbreviation (input) ENOEXEC :: int where "ENOEXEC \<equiv> 8"
abbreviation (input) EINVAL :: int where "EINVAL \<equiv> 22"
abbreviation (input) MAP_ZERO :: u32 where "MAP_ZERO \<equiv> 1"
abbreviation (input) MAP_PRIVATE :: u32 where "MAP_PRIVATE \<equiv> 2"
abbreviation (input) ET_EXEC :: u16 where "ET_EXEC \<equiv> 2"
abbreviation (input) ET_DYN :: u16 where "ET_DYN \<equiv> 3"
abbreviation (input) PT_INTERP :: u32 where "PT_INTERP \<equiv> 3"
abbreviation (input) PT_GNU_PROPERTY :: u32 where "PT_GNU_PROPERTY \<equiv> 0x6474e553"
abbreviation (input) no_reader :: "'z fat_reader" where "no_reader \<equiv> \<lambda>_ _ _ _ _. None"

definition kmalloc :: "int \<Rightarrow> 'z kmem_scheme \<Rightarrow> (u64 \<times> 'z kmem_scheme) option" where
  "kmalloc sz s = do {
     kassert (\<not> sz > 4096);
     (page, s) \<leftarrow> pageAlloc s;
     Some (page2pa page, s) }"

definition kfree :: "u64 \<Rightarrow> 'z kmem_scheme \<Rightarrow> 'z kmem_scheme option" where
  "kfree m s = do { page \<leftarrow> pa2page m; Some (pageFree page s) }"

section \<open>Scripts\<close>

definition is_blank :: "u8 \<Rightarrow> bool" where
  "is_blank c \<longleftrightarrow> c = 32 \<or> c = 9"

text \<open>
  The first line of a script after its two leading bytes: the interpreter and its argument, if any.
  The outer \<open>None\<close> is a line without an end, the inner one a line that names no interpreter.
\<close>

definition script_line :: "u8 list \<Rightarrow> (u8 list \<times> u8 list option) option option" where
  "script_line buf =
     (let line = takeWhile (\<lambda>c. c \<noteq> 10 \<and> c \<noteq> 0) buf
      in if length line = length buf then None
         else let line = rev (dropWhile is_blank (rev line));
                  rest = dropWhile is_blank (drop 2 line);
                  name = takeWhile (\<lambda>c. \<not> is_blank c) rest;
                  arg = dropWhile is_blank (drop (length name) rest)
              in Some (if rest = [] then None else Some (name, if arg = [] then None else Some arg)))"

text \<open>The arguments the interpreter gets; the array that holds them ends with a NULL pointer.\<close>

definition script_argv :: "u8 list \<Rightarrow> u8 list option \<Rightarrow> u8 list list \<Rightarrow> u8 list list option" where
  "script_argv name arg argv = do {
     let argv = name # (case arg of None \<Rightarrow> [] | Some a \<Rightarrow> [a]) @ argv;
     kassert (length argv < MAXARG);
     Some argv }"

section \<open>The interpreter\<close>

definition total_mapping_size :: "Phdr list \<Rightarrow> u64" where
  "total_mapping_size phs =
     (let load = filter (\<lambda>p. ph_type p = PT_LOAD) phs;
          lo = fold (\<lambda>p m. min m (DOWN_ALIGN (ph_vaddr p) PAGE_SIZE)) load (- 1);
          hi = fold (\<lambda>p m. max m (ph_vaddr p + ph_memsz p)) load 0
      in if load = [] then 0 else hi - lo)"

definition mmap_now :: "nat option \<Rightarrow> u64 \<Rightarrow> u64 \<Rightarrow> u64 \<Rightarrow> u32 \<Rightarrow> u64 \<Rightarrow> 'z kio_scheme \<Rightarrow> (u64 \<times> 'z kio_scheme) option" where
  "mmap_now fd start len perm flags off s = do {
     (r, s) \<leftarrow> do_mmap fd start len perm flags off s;
     case r of Returns a \<Rightarrow> Some (a, s) | _ \<Rightarrow> None }"

definition elf_map :: "nat \<Rightarrow> u64 \<Rightarrow> Phdr \<Rightarrow> u64 \<Rightarrow> u32 \<Rightarrow> u64 \<Rightarrow> 'z kio_scheme \<Rightarrow> (u64 \<times> 'z kio_scheme) option" where
  "elf_map filep addr ph prot type total_size s = do {
     let sz = ph_filesz ph + PAGE_OFFSET (ph_vaddr ph) PAGE_SIZE;
     let off = ph_offset ph - PAGE_OFFSET (ph_vaddr ph) PAGE_SIZE;
     let addr = DOWN_ALIGN addr PAGE_SIZE;
     if sz = 0 then Some (addr, s)
     else do {
       (addr, s) \<leftarrow> (if total_size \<noteq> 0 then mmap_now None addr (UP_ALIGN total_size PAGE_SIZE) prot type off s else Some (addr, s));
       (map_addr, s) \<leftarrow> mmap_now (Some filep) addr sz prot type off s;
       kassert (map_addr \<noteq> - 1);
       Some (map_addr, s) } }"

definition make_prot :: u64 where
  "make_prot = PTE_READ OR PTE_WRITE OR PTE_EXECUTE OR PTE_USER OR PTE_ACCESSED"

text \<open>
  The loop over the segments of the interpreter. The file structure on the stack is the cell behind
  the table of files; \<open>base\<close> is the address of the image and \<open>set\<close> tells whether it is known.
\<close>

primrec interp_segments :: "Ehdr \<Rightarrow> nat \<Rightarrow> u64 \<Rightarrow> Phdr list \<Rightarrow> u64 \<Rightarrow> bool \<Rightarrow> u64 \<Rightarrow> 'z kio_scheme \<Rightarrow> (u64 \<times> 'z kio_scheme) option" where
  "interp_segments ex interp no_base [] base set_base total_size s = Some (base, s)"
| "interp_segments ex interp no_base (ph # phs) base set_base total_size s =
     (if ph_type ph = PT_LOAD then do {
        let fixed = (e_type ex = ET_EXEC \<or> set_base);
        let flags = (if fixed then MAP_PRIVATE OR MAP_FIXED else MAP_PRIVATE);
        let base = (if \<not> fixed \<and> no_base \<noteq> 0 \<and> e_type ex = ET_DYN then - ph_vaddr ph else base);
        let s = upd_file NFILE (\<lambda>f. f\<lparr>f_ep := Some interp, f_type := FD_ENTRY, f_readable := True\<rparr>) s;
        (map_addr, s) \<leftarrow> elf_map NFILE (base + ph_vaddr ph) ph make_prot flags total_size s;
        kassert (map_addr \<noteq> - 1);
        if \<not> set_base \<and> e_type ex = ET_DYN
        then interp_segments ex interp no_base phs (map_addr - PAGE_OFFSET (ph_vaddr ph) PAGE_SIZE) True 0 s
        else interp_segments ex interp no_base phs base set_base 0 s }
      else interp_segments ex interp no_base phs base set_base total_size s)"

definition load_elf_interp :: "Ehdr \<Rightarrow> nat \<Rightarrow> u64 \<Rightarrow> Phdr list \<Rightarrow> 'z kio_scheme \<Rightarrow> (u64 \<times> 'z kio_scheme) option" where
  "load_elf_interp ex interp no_base phs s =
     (let total_size = total_mapping_size phs
      in if total_size = 0 then Some (word_of_int (- EINVAL), s)
         else interp_segments ex interp no_base phs 0 False total_size s)"

section \<open>The segments of the program\<close>

definition read_phdr :: "nat \<Rightarrow> u32 \<Rightarrow> 'z kfat_scheme \<Rightarrow> (Phdr option \<times> 'z kfat_scheme) option" where
  "read_phdr de off s = do {
     ((r, pl), s) \<leftarrow> eread no_reader de (Local []) off 56 s;
     Some (case pl of Local bs \<Rightarrow> if r = 56 then Some (phdr bs) else None | _ \<Rightarrow> None, s) }"

definition new_segment :: "nat \<Rightarrow> nat option \<Rightarrow> u64 \<Rightarrow> u64 \<Rightarrow> u64 \<Rightarrow> u32 \<Rightarrow> 'z kproc_scheme \<Rightarrow> 'z kproc_scheme option" where
  "new_segment p src va off len flag s = do {
     (i, s) \<leftarrow> segmentMapAlloc s;
     let s = upd_psm i (\<lambda>m. m\<lparr>sourceFile := src, psm_va := va, fileOffset := off, psm_len := ucast len, psm_flag := flag\<rparr>) s;
     Some (appendSegmentMap p i s) }"

primrec exec_segments :: "nat \<Rightarrow> nat \<Rightarrow> Ehdr \<Rightarrow> u64 \<Rightarrow> nat \<Rightarrow> u32 \<Rightarrow> u64 \<Rightarrow> 'z kfat_scheme \<Rightarrow> (u64 option \<times> 'z kfat_scheme) option" where
  "exec_segments p de elf offset 0 off phdr_addr s = Some (Some phdr_addr, s)"
| "exec_segments p de elf offset (Suc k) off phdr_addr s = do {
     (ph, s) \<leftarrow> read_phdr de off s;
     case ph of None \<Rightarrow> Some (None, s)
     | Some ph \<Rightarrow>
         if ph_type ph \<noteq> PT_LOAD then exec_segments p de elf offset k (off + 56) phdr_addr s
         else if ph_memsz ph < ph_filesz ph then Some (None, s)
         else do {
           s \<leftarrow> (if ph_filesz ph > 0
                then new_segment p (Some de) (ph_vaddr ph + offset) (ph_offset ph) (ph_filesz ph)
                       (ucast (PTE_EXECUTE OR PTE_READ OR PTE_WRITE)) s
                else Some s);
           s \<leftarrow> (if ph_memsz ph > ph_filesz ph
                then new_segment p None (ph_vaddr ph + ph_filesz ph + offset) 0 (ph_memsz ph - ph_filesz ph)
                       (ucast (PTE_READ OR PTE_WRITE) OR MAP_ZERO) s
                else Some s);
           let phdr_addr = (if ph_offset ph \<le> e_phoff elf \<and> e_phoff elf < ph_offset ph + ph_filesz ph
             then e_phoff elf - ph_offset ph + ph_vaddr ph + offset else phdr_addr);
           exec_segments p de elf offset k (off + 56) phdr_addr s } }"

text \<open>The interpreter a segment names, and the page that holds its header.\<close>

definition open_interp :: "nat \<Rightarrow> Phdr \<Rightarrow> 'z kfat_scheme \<Rightarrow> ((nat \<times> u64) \<times> 'z kfat_scheme) option" where
  "open_interp de ph s = do {
     kassert (\<not> (ph_filesz ph > 4096 \<or> ph_filesz ph < 2));
     (name, s) \<leftarrow> kmalloc (to_int (ph_filesz ph)) s;
     ((r, pl), s) \<leftarrow> eread no_reader de (KernelAt name) (ucast (ph_offset ph)) (ucast (ph_filesz ph)) s;
     kassert (\<not> r < 0);
     kassert (mem s (name + ph_filesz ph - 1) = 0);
     (interp, s) \<leftarrow> ename AT_FDCWD (cstr (mem_bytes (mem s) name (unat (ph_filesz ph)))) True s;
     interp \<leftarrow> interp;
     (hdr, s) \<leftarrow> kmalloc 64 s;
     ((r, pl), s) \<leftarrow> eread no_reader interp (KernelAt hdr) 0 64 s;
     kassert (\<not> r < 0);
     Some ((interp, hdr), s) }"

primrec find_interp :: "nat \<Rightarrow> nat \<Rightarrow> u32 \<Rightarrow> (nat \<times> u64) option \<Rightarrow> 'z kfat_scheme \<Rightarrow> ((nat \<times> u64) option option \<times> 'z kfat_scheme) option" where
  "find_interp de 0 off found s = Some (Some found, s)"
| "find_interp de (Suc k) off found s = do {
     (ph, s) \<leftarrow> read_phdr de off s;
     case ph of None \<Rightarrow> Some (None, s)
     | Some ph \<Rightarrow> do {
         kassert (ph_type ph \<noteq> PT_GNU_PROPERTY);
         if ph_type ph \<noteq> PT_INTERP then find_interp de k (off + 56) found s
         else if ph_memsz ph < ph_filesz ph then Some (None, s)
         else do {
           (found, s) \<leftarrow> open_interp de ph s;
           find_interp de k (off + 56) (Some found) s } } }"

text \<open>The entry point, and the address of the interpreter.\<close>

definition exec_entry :: "(nat \<times> u64) option \<Rightarrow> Ehdr \<Rightarrow> u64 \<Rightarrow> 'z kio_scheme \<Rightarrow> ((u64 \<times> u64) \<times> 'z kio_scheme) option" where
  "exec_entry found elf offset s = (case found of
     None \<Rightarrow> Some ((e_entry elf + offset, 0), s)
   | Some (interp, hdr) \<Rightarrow> do {
       let ex = ehdr (mem_bytes (mem s) hdr 64);
       let sz = 56 * unat (e_phnum ex);
       (tab, s) \<leftarrow> kmalloc (int sz) s;
       ((r, pl), s) \<leftarrow> eread no_reader interp (KernelAt tab) (ucast (e_phoff ex)) (of_nat sz) s;
       let phs = map (\<lambda>i. phdr (mem_bytes (mem s) (tab + of_nat (56 * i)) 56)) [0..<unat (e_phnum ex)];
       (base, s) \<leftarrow> load_elf_interp ex interp 0 phs s;
       Some ((base + e_entry (ehdr (mem_bytes (mem s) hdr 64)), base), s) })"

section \<open>The first stack\<close>

text \<open>\<open>n\<close> bytes below the stack pointer, which stays a multiple of 16.\<close>

definition push_down :: "u64 \<Rightarrow> u64 \<Rightarrow> u64" where
  "push_down sp n = (let sp = sp - n in sp - sp mod 16)"

definition push_bytes :: "u64 \<Rightarrow> u64 \<Rightarrow> u64 \<Rightarrow> u64 \<Rightarrow> u8 list \<Rightarrow> 'z kfat_scheme \<Rightarrow> (u64 option \<times> 'z kfat_scheme) option" where
  "push_bytes pgdir base sp n bs s = do {
     let sp = push_down sp n;
     if sp < base then Some (None, s)
     else do {
       (r, s) \<leftarrow> copyout kernel_reader pgdir sp bs (of_nat (length bs)) s;
       Some (if r < 0 then None else Some sp, s) } }"

text \<open>The strings, and their addresses on the stack.\<close>

primrec push_strings :: "u64 \<Rightarrow> u64 \<Rightarrow> u8 list list \<Rightarrow> u64 \<Rightarrow> u64 list \<Rightarrow> 'z kfat_scheme \<Rightarrow> ((u64 \<times> u64 list) option \<times> 'z kfat_scheme) option" where
  "push_strings pgdir base [] sp acc s = Some (Some (sp, acc), s)"
| "push_strings pgdir base (x # xs) sp acc s =
     (if length acc \<ge> MAXARG then Some (None, s)
      else do {
        (sp, s) \<leftarrow> push_bytes pgdir base sp (of_nat (length x + 1)) (x @ [0]) s;
        case sp of None \<Rightarrow> Some (None, s)
        | Some sp \<Rightarrow> push_strings pgdir base xs sp (acc @ [sp]) s })"

definition envVariable :: "u8 list list" where
  "envVariable = [str ''LD_LIBRARY_PATH=/'', str ''PATH=/:/usr/bin:/musl-gcc/include:/bin/'']"

definition k_rand_bytes :: "u8 list" where
  "k_rand_bytes = map of_nat [0..<16]"

definition aux_entries :: "Ehdr \<Rightarrow> u64 \<Rightarrow> u64 \<Rightarrow> u64 \<Rightarrow> u64 \<Rightarrow> u64 \<Rightarrow> u64 list" where
  "aux_entries elf offset phdr_addr interp_addr rand execfn =
     [16, 0, 6, PAGE_SIZE, 3, phdr_addr, 4, 56, 5, ucast (e_phnum elf), 7, interp_addr, 9, e_entry elf + offset,
      11, 0, 12, 0, 13, 0, 14, 0, 23, 0, 25, rand, 31, execfn, 0, 0]"

definition exec_stack :: "u64 \<Rightarrow> u8 list list \<Rightarrow> Ehdr \<Rightarrow> u64 \<Rightarrow> u64 \<Rightarrow> u64 \<Rightarrow> 'z kfat_scheme \<Rightarrow> (u64 option \<times> 'z kfat_scheme) option" where
  "exec_stack pgdir argv elf offset phdr_addr interp_addr s = do {
     let base = USER_STACK_TOP - PAGE_SIZE;
     (page, s) \<leftarrow> pageAlloc s;
     (r, s) \<leftarrow> pageInsert pgdir base (page2pa page) USER_RWX s;
     (args, s) \<leftarrow> push_strings pgdir base argv USER_STACK_TOP [] s;
     case args of None \<Rightarrow> Some (None, s)
     | Some (sp, args) \<Rightarrow> do {
         (envs, s) \<leftarrow> push_strings pgdir base envVariable sp [] s;
         case envs of None \<Rightarrow> Some (None, s)
         | Some (sp, envs) \<Rightarrow> do {
             (rand, s) \<leftarrow> push_bytes pgdir base sp 32 k_rand_bytes s;
             case rand of None \<Rightarrow> Some (None, s)
             | Some rand \<Rightarrow> do {
                 let ustack = of_nat (length args) # args @ [0] @ envs @ [0]
                   @ aux_entries elf offset phdr_addr interp_addr rand (hd (args @ [0]));
                 push_bytes pgdir base rand (8 * of_nat (length ustack)) (concat (map (le_bytes 8) ustack)) s } } } }"

section \<open>Exec\<close>

text \<open>Everything after the new table is in place: the entry point and the stack pointer.\<close>

definition exec_image :: "nat \<Rightarrow> nat \<Rightarrow> u64 \<Rightarrow> u8 list list \<Rightarrow> 'z kio_scheme \<Rightarrow> ((u64 \<times> u64) option \<times> 'z kio_scheme) option" where
  "exec_image p de pgdir argv s = do {
     ((r, pl), s) \<leftarrow> eread no_reader de (Local []) 0 64 s;
     let elf = ehdr (case pl of Local bs \<Rightarrow> bs | _ \<Rightarrow> []);
     if r \<noteq> 64 \<or> \<not> is_elf_format elf then Some (None, s)
     else do {
       let offset = (if e_type elf = ET_DYN then 0x10000 else 0);
       (addr, s) \<leftarrow> exec_segments p de elf offset (unat (e_phnum elf)) (ucast (e_phoff elf)) 0 s;
       case addr of None \<Rightarrow> Some (None, s)
       | Some phdr_addr \<Rightarrow> do {
           (found, s) \<leftarrow> find_interp de (unat (e_phnum elf)) (ucast (e_phoff elf)) None s;
           case found of None \<Rightarrow> Some (None, s)
           | Some found \<Rightarrow> do {
               ((entry, interp_addr), s) \<leftarrow> exec_entry found elf offset s;
               (sp, s) \<leftarrow> exec_stack pgdir argv elf offset phdr_addr interp_addr s;
               Some (map_option (\<lambda>sp. (entry, sp)) sp, s) } } } }"

text \<open>The point of no return: the path of the program goes into the link \<^verbatim>\<open>/proc/self/exe\<close>.\<close>

definition exec_commit :: "nat \<Rightarrow> nat \<Rightarrow> u64 \<Rightarrow> u64 \<Rightarrow> u64 \<Rightarrow> 'z kio_scheme \<Rightarrow> 'z kio_scheme option" where
  "exec_commit p de oldpagetable entry sp s = do {
     let s = s\<lparr>hartTrapframe := (hartTrapframe s)(tf_a1 := sp, tf_epc := entry, tf_sp := sp)\<rparr>;
     let s = upd_process p (\<lambda>x. x\<lparr>brkHeapBottom := USER_BRK_HEAP_BOTTOM, mmapHeapBottom := USER_MMAP_HEAP_BOTTOM, execFile := Some de\<rparr>) s;
     path \<leftarrow> absolute_path de (int FAT32_MAX_PATH) s;
     path \<leftarrow> path;
     (link, s) \<leftarrow> ename AT_FDCWD (str ''/proc/self/exe'') False s;
     link \<leftarrow> link;
     (r, s) \<leftarrow> ewrite kernel_reader link (Local path) 0 (of_nat (length path)) s;
     kassert (\<not> r < 0);
     th \<leftarrow> myThread s;
     let s = upd_thread th (\<lambda>t. t\<lparr>clearChildTid := 0\<rparr>) s;
     pgdirFree oldpagetable s }"

definition exec_elf :: "nat \<Rightarrow> nat \<Rightarrow> u8 list list \<Rightarrow> 'z kio_scheme \<Rightarrow> (int \<times> 'z kio_scheme) option" where
  "exec_elf p de argv s = do {
     let oldpagetable = p_pgdir (processes s p);
     (page, s) \<leftarrow> allocPgdir s;
     let pgdir = page2pa page;
     s \<leftarrow> map_trampolines pgdir s;
     (page, s) \<leftarrow> pageAlloc s;
     (r, s) \<leftarrow> pageInsert pgdir (USER_STACK_TOP - PAGE_SIZE) (page2pa page) USER_RWX s;
     let s = upd_process p (\<lambda>x. x\<lparr>p_pgdir := pgdir\<rparr>) s;
     (image, s) \<leftarrow> exec_image p de pgdir argv s;
     case image of None \<Rightarrow> do {
         s \<leftarrow> pgdirFree pgdir (upd_process p (\<lambda>x. x\<lparr>p_pgdir := oldpagetable\<rparr>) s);
         Some (- 1, s) }
     | Some (entry, sp) \<Rightarrow> do {
         s \<leftarrow> exec_commit p de oldpagetable entry sp s;
         Some (0, s) } }"

text \<open>The segments of the old program are released first, whatever happens then.\<close>

partial_function (option) exec_at :: "(nat \<Rightarrow> u8 list) \<Rightarrow> nat \<Rightarrow> u8 list \<Rightarrow> u8 list list \<Rightarrow> 'z kio_scheme \<Rightarrow> (int \<times> 'z kio_scheme) option" where
  "exec_at junk d path argv s = do {
     p \<leftarrow> myProcess s;
     s \<leftarrow> processMapFree p s;
     (de, s) \<leftarrow> ename AT_FDCWD path True s;
     case de of None \<Rightarrow> Some (- 1, s)
     | Some de \<Rightarrow> do {
         ((r, pl), s) \<leftarrow> eread no_reader de (Local []) 0 127 s;
         let buf = (case pl of Local bs \<Rightarrow> bs @ drop (length bs) (junk d) | _ \<Rightarrow> []);
         if take 2 buf = [35, 33] then do {
           line \<leftarrow> script_line buf;
           case line of None \<Rightarrow> Some (- ENOEXEC, s)
           | Some (name, arg) \<Rightarrow> do {
               argv \<leftarrow> script_argv name arg argv;
               exec_at junk (d + 1) name argv s } }
         else exec_elf p de argv s } }"

abbreviation exec :: "(nat \<Rightarrow> u8 list) \<Rightarrow> u8 list \<Rightarrow> u8 list list \<Rightarrow> 'z kio_scheme \<Rightarrow> (int \<times> 'z kio_scheme) option" where
  "exec junk \<equiv> exec_at junk 0"

text \<open>
  The arguments come from user memory, one page each: the pages and the strings so far; false when
  something is wrong with them.
\<close>

primrec fetch_args :: "nat \<Rightarrow> u64 \<Rightarrow> nat list \<Rightarrow> u8 list list \<Rightarrow> 'z kio_scheme \<Rightarrow> ((bool \<times> nat list \<times> u8 list list) \<times> 'z kio_scheme) option" where
  "fetch_args 0 uargv pages argv s = Some ((False, pages, argv), s)"
| "fetch_args (Suc k) uargv pages argv s = do {
     (uarg, s) \<leftarrow> fetchaddr kernel_reader uargv s;
     if uarg = 0 then Some ((True, pages, argv), s)
     else do {
       (page, s) \<leftarrow> pageAlloc s;
       ((n, x), s) \<leftarrow> fetchstr kernel_reader uarg 4096 s;
       if n < 0 then Some ((False, pages @ [page], argv), s)
       else fetch_args k (uargv + 8) (pages @ [page]) (argv @ [x])
         (s\<lparr>mem := mem_write (mem s) (page2pa page) (x @ [0])\<rparr>) } }"

abbreviation (input) MAXPATH :: u64 where "MAXPATH \<equiv> 128"

definition sys_exec :: "(nat \<Rightarrow> u8 list) \<Rightarrow> 'z kio_scheme \<Rightarrow> (int \<times> 'z kio_scheme) option" where
  "sys_exec junk s = do {
     ((n, path), s) \<leftarrow> fetchstr kernel_reader (hartTrapframe s tf_a0) MAXPATH s;
     if n < 0 then Some (- 1, s)
     else do {
         ((ok, pages, argv), s) \<leftarrow> fetch_args MAXARG (hartTrapframe s tf_a1) [] [] s;
         (r, s) \<leftarrow> (if ok then exec junk path argv s else Some (- 1, s));
         Some (r, fold pageFree pages s) } }"

end
