(* ===== verification/Sysfile.thy ===== *)
theory Sysfile
  imports Exec
begin

text \<open>
  The system calls on files, \<^verbatim>\<open>src/kernel/fs/Sysfile.c\<close>. A handler takes its arguments from the trap
  frame of the hart and leaves its result there in \<^verbatim>\<open>a0\<close>.
\<close>

section \<open>How a system call ends\<close>

text \<open>What is on the kernel stack of a thread that sleeps inside a system call.\<close>

datatype suspended =
    InRead u64 nat u64 int u64
  | InWrite u64 nat u64 int "int \<times> u64"
  | InReadV u64 nat nat "(u64 \<times> u64) list" u64 u64
  | InWriteV u64 nat nat "(u64 \<times> u64) list" u64 "int \<times> u64"
  | InMap u64 nat u64 int u64
  | InWait int u64 u32
  | InConnect
  | InSendRead u64 nat "u64 \<times> nat \<times> nat" u32 u32 u64
  | InSendWrite u64 nat "u64 \<times> nat \<times> nat" u32 u32 int "int \<times> u64"

text \<open>
  A call is done, sleeps, ends with its thread destroyed, or yields for good: a thread that yields
  without sleeping goes on in user mode.
\<close>

datatype outcome = Done | Sleeping suspended | Destroyed | Yields

abbreviation arg :: "nat \<Rightarrow> 'z kproc_scheme \<Rightarrow> u64" where
  "arg r s \<equiv> hartTrapframe s r"

abbreviation iarg :: "nat \<Rightarrow> 'z kproc_scheme \<Rightarrow> int" where
  "iarg r s \<equiv> to_int (hartTrapframe s r)"

definition ret64 :: "u64 \<Rightarrow> 'z kproc_scheme \<Rightarrow> 'z kproc_scheme" where
  "ret64 v s = s\<lparr>hartTrapframe := (hartTrapframe s)(tf_a0 := v)\<rparr>"

abbreviation ret :: "int \<Rightarrow> 'z kproc_scheme \<Rightarrow> 'z kproc_scheme" where
  "ret v s \<equiv> ret64 (word_of_int v) s"

text \<open>The end of a call that stores what an operation returns; \<open>k\<close> describes where it sleeps.\<close>

definition finish :: "('r \<Rightarrow> u64) \<Rightarrow> ('l \<Rightarrow> suspended) \<Rightarrow> ('r, 'l) progress \<times> 'z kproc_scheme \<Rightarrow> outcome \<times> 'z kproc_scheme" where
  "finish v k x = (let (r, s) = x in case r of Returns r \<Rightarrow> (Done, ret64 (v r) s)
     | Blocks (Sleeps l) \<Rightarrow> (Sleeping (k l), s) | Blocks Killed \<Rightarrow> (Destroyed, s) | Retries \<Rightarrow> (Yields, s))"

text \<open>The table of the current process.\<close>

definition my_pgdir :: "'z kproc_scheme \<Rightarrow> u64 option" where
  "my_pgdir s = map_option (\<lambda>p. p_pgdir (processes s p)) (myProcess s)"

text \<open>A string argument of at most \<open>mx\<close> bytes; \<open>None\<close> when it has no end.\<close>

definition path_arg :: "u64 \<Rightarrow> nat \<Rightarrow> 'z kfat_scheme \<Rightarrow> (u8 list option \<times> 'z kfat_scheme) option" where
  "path_arg uva mx s = do {
     ((n, x), s) \<leftarrow> fetchstr kernel_reader uva (of_nat mx) s;
     Some (if n < 0 then None else Some x, s) }"

definition argfd :: "nat \<Rightarrow> 'z kproc_scheme \<Rightarrow> (int \<times> int \<times> nat option) option" where
  "argfd n s = do {
     fd \<leftarrow> argint n s;
     f \<leftarrow> fd_file fd s;
     Some (case f of None \<Rightarrow> (- 1, - 1, None) | Some f \<Rightarrow> (0, fd, Some f)) }"

section \<open>Descriptors\<close>

abbreviation (input) EMFILE :: int where "EMFILE \<equiv> 24"
abbreviation (input) ENOENT :: int where "ENOENT \<equiv> 2"
abbreviation (input) EEXIST :: int where "EEXIST \<equiv> 17"
abbreviation (input) EBADF :: int where "EBADF \<equiv> 9"

definition syscallDup :: "'z kio_scheme \<Rightarrow> 'z kio_scheme option" where
  "syscallDup s = do {
     f \<leftarrow> fd_file (iarg tf_a0 s) s;
     case f of None \<Rightarrow> Some (ret (- 1) s)
     | Some f \<Rightarrow> do {
         (fd, s) \<leftarrow> fdalloc f s;
         if fd < 0 then Some (ret (- EMFILE) s)
         else do { s \<leftarrow> filedup f s; Some (ret fd s) } } }"

definition syscallDupAndSet :: "'z kio_scheme \<Rightarrow> 'z kio_scheme option" where
  "syscallDupAndSet s = do {
     let fdnew = iarg tf_a1 s;
     p \<leftarrow> myProcess s;
     f \<leftarrow> fd_file (iarg tf_a0 s) s;
     case f of None \<Rightarrow> Some (ret (- 1) s)
     | Some f \<Rightarrow>
         if fdnew < 0 \<or> fdnew \<ge> int NOFILE then Some (ret (- 1) s)
         else do {
           s \<leftarrow> (case ofile (processes s p) (nat fdnew) of None \<Rightarrow> Some s | Some f2 \<Rightarrow> fileclose f2 s);
           let s = upd_process p (\<lambda>x. x\<lparr>ofile := (ofile x)(nat fdnew := Some f)\<rparr>) s;
           s \<leftarrow> filedup f s;
           Some (ret fdnew s) } }"

definition syscall_fcntl :: "'z kio_scheme \<Rightarrow> 'z kio_scheme option" where
  "syscall_fcntl s = do {
     f \<leftarrow> fd_file (iarg tf_a0 s) s;
     case f of None \<Rightarrow> Some (ret (- 1) s)
     | Some f \<Rightarrow> do {
         let cmd = arg tf_a1 s;
         if cmd = 1 then Some (ret 1 s)
         else if cmd = 2 then Some (ret 0 s)
         else if cmd = 3 then Some (ret 0x800 s)
         else if cmd = 1030 then do {
           (fd, s) \<leftarrow> fdalloc f s;
           s \<leftarrow> filedup f s;
           Some (ret fd s) }
         else do { kassert (cmd = 4); Some (ret 0 s) } } }"

definition syscallClose :: "'z kio_scheme \<Rightarrow> 'z kio_scheme option" where
  "syscallClose s = do {
     p \<leftarrow> myProcess s;
     let fd = iarg tf_a0 s;
     f \<leftarrow> fd_file fd s;
     case f of None \<Rightarrow> Some (ret (- 1) s)
     | Some f \<Rightarrow> do {
         s \<leftarrow> fileclose f (upd_process p (\<lambda>x. x\<lparr>ofile := (ofile x)(nat fd := None)\<rparr>) s);
         Some (ret 0 s) } }"

section \<open>Reading and writing\<close>

definition syscallRead :: "'z kio_scheme \<Rightarrow> (outcome \<times> 'z kio_scheme) option" where
  "syscallRead s = do {
     let len = iarg tf_a2 s;
     let uva = arg tf_a1 s;
     pgdir \<leftarrow> my_pgdir s;
     f \<leftarrow> fd_file (iarg tf_a0 s) s;
     case f of None \<Rightarrow> Some (Done, ret (- 1) s)
     | Some f \<Rightarrow>
         if len < 0 then Some (Done, ret (- 1) s)
         else map_option (finish word_of_int (InRead pgdir (f_pipe (ftable s f)) uva len)) (fileread f True uva len s) }"

definition syscallWrite :: "'z kio_scheme \<Rightarrow> (outcome \<times> 'z kio_scheme) option" where
  "syscallWrite s = do {
     let len = iarg tf_a2 s;
     let uva = arg tf_a1 s;
     pgdir \<leftarrow> my_pgdir s;
     f \<leftarrow> fd_file (iarg tf_a0 s) s;
     case f of None \<Rightarrow> Some (Done, ret (- 1) s)
     | Some f \<Rightarrow>
         if len < 0 then Some (Done, ret (- 1) s)
         else map_option (finish word_of_int (InWrite pgdir (f_pipe (ftable s f)) uva len)) (filewrite f True uva len s) }"

abbreviation (input) IOVMAX :: int where "IOVMAX \<equiv> 64"

primrec iovecs :: "nat \<Rightarrow> u8 list \<Rightarrow> (u64 \<times> u64) list" where
  "iovecs 0 bs = []"
| "iovecs (Suc n) bs = (get64 bs 0, get64 bs 8) # iovecs n (drop 16 bs)"

text \<open>The loops over the vectors that are left; \<open>len\<close> is the sum of the results so far.\<close>

primrec writev_loop :: "u64 \<Rightarrow> nat \<Rightarrow> (u64 \<times> u64) list \<Rightarrow> u64 \<Rightarrow> 'z kio_scheme \<Rightarrow> (outcome \<times> 'z kio_scheme) option" where
  "writev_loop pgdir f [] len s = Some (Done, ret64 len s)"
| "writev_loop pgdir f (v # vs) len s = do {
     (r, s) \<leftarrow> filewrite f True (fst v) (to_int (snd v)) s;
     case r of Returns r \<Rightarrow> writev_loop pgdir f vs (len + word_of_int r) s
     | _ \<Rightarrow> Some (finish word_of_int (InWriteV pgdir (f_pipe (ftable s f)) f (v # vs) len) (r, s)) }"

primrec readv_loop :: "u64 \<Rightarrow> nat \<Rightarrow> (u64 \<times> u64) list \<Rightarrow> u64 \<Rightarrow> 'z kio_scheme \<Rightarrow> (outcome \<times> 'z kio_scheme) option" where
  "readv_loop pgdir f [] len s = Some (Done, ret64 len s)"
| "readv_loop pgdir f (v # vs) len s = do {
     (r, s) \<leftarrow> fileread f True (fst v) (to_int (snd v)) s;
     case r of Returns r \<Rightarrow> readv_loop pgdir f vs (len + word_of_int r) s
     | _ \<Rightarrow> Some (finish word_of_int (InReadV pgdir (f_pipe (ftable s f)) f (v # vs) len) (r, s)) }"

text \<open>The vectors of a call, \<open>None\<close> when the descriptor or the count is bad.\<close>

definition vector_args :: "'z kio_scheme \<Rightarrow> ((nat \<times> (u64 \<times> u64) list) option \<times> 'z kio_scheme) option" where
  "vector_args s = do {
     f \<leftarrow> fd_file (iarg tf_a0 s) s;
     pgdir \<leftarrow> my_pgdir s;
     let cnt = iarg tf_a2 s;
     case f of None \<Rightarrow> Some (None, s)
     | Some f \<Rightarrow>
         if cnt < 0 \<or> cnt \<ge> IOVMAX then Some (None, s)
         else do {
           (bs, s) \<leftarrow> copyin kernel_reader pgdir (arg tf_a1 s) (word_of_int (cnt * 16)) s;
           Some (Some (f, iovecs (nat cnt) bs), s) } }"

definition syscallWriteVector :: "'z kio_scheme \<Rightarrow> (outcome \<times> 'z kio_scheme) option" where
  "syscallWriteVector s = do {
     pgdir \<leftarrow> my_pgdir s;
     (v, s) \<leftarrow> vector_args s;
     case v of None \<Rightarrow> Some (Done, ret (- 1) s) | Some (f, vs) \<Rightarrow> writev_loop pgdir f vs 0 s }"

definition syscallReadVector :: "'z kio_scheme \<Rightarrow> (outcome \<times> 'z kio_scheme) option" where
  "syscallReadVector s = do {
     pgdir \<leftarrow> my_pgdir s;
     (v, s) \<leftarrow> vector_args s;
     case v of None \<Rightarrow> Some (Done, ret (- 1) s) | Some (f, vs) \<Rightarrow> readv_loop pgdir f vs 0 s }"

definition syscallPRead :: "'z kio_scheme \<Rightarrow> 'z kio_scheme option" where
  "syscallPRead s = do {
     p \<leftarrow> myProcess s;
     let fd = iarg tf_a0 s;
     kassert (0 \<le> fd \<and> fd < int NOFILE);
     case ofile (processes s p) (nat fd) of None \<Rightarrow> Some (ret (- 1) s)
     | Some f \<Rightarrow> do {
         ep \<leftarrow> f_ep (ftable s f);
         ((r, pl), s) \<leftarrow> eread kernel_reader ep (UserAt (arg tf_a1 s)) (ucast (arg tf_a3 s)) (ucast (arg tf_a2 s)) s;
         Some (ret r s) } }"

definition syscallLSeek :: "'z kio_scheme \<Rightarrow> 'z kio_scheme option" where
  "syscallLSeek s = do {
     f \<leftarrow> fd_file (iarg tf_a0 s) s;
     let mode = iarg tf_a2 s;
     case f of None \<Rightarrow> Some (ret (- 1) s)
     | Some f \<Rightarrow>
         if mode < 0 \<or> mode > 2 then Some (ret (- 1) s)
         else do {
           base \<leftarrow> (if mode = 0 then Some 0 else if mode = 1 then Some (ucast (f_off (ftable s f)))
                  else map_option (\<lambda>ep. ucast (file_size (dirents s ep))) (f_ep (ftable s f)));
           let off = arg tf_a1 s + base;
           Some (ret64 off (upd_file f (\<lambda>x. x\<lparr>f_off := ucast off\<rparr>) s)) } }"

section \<open>State of files and directories\<close>

definition syscallGetFileState :: "u8 list \<Rightarrow> 'z kio_scheme \<Rightarrow> 'z kio_scheme option" where
  "syscallGetFileState junk s = do {
     f \<leftarrow> fd_file (iarg tf_a0 s) s;
     case f of None \<Rightarrow> Some (ret (- 1) s)
     | Some f \<Rightarrow> do { (r, s) \<leftarrow> filestat junk f (arg tf_a1 s) s; Some (ret r s) } }"

definition syscallGetFileStateAt :: "u8 list \<Rightarrow> 'z kio_scheme \<Rightarrow> 'z kio_scheme option" where
  "syscallGetFileStateAt junk s = do {
     (path, s) \<leftarrow> path_arg (arg tf_a1 s) FAT32_MAX_PATH s;
     case path of None \<Rightarrow> Some (ret (- 1) s)
     | Some path \<Rightarrow> do {
         (ep, s) \<leftarrow> ename (iarg tf_a0 s) path True s;
         case ep of None \<Rightarrow> Some (ret (- ENOENT) s)
         | Some ep \<Rightarrow> do {
             (st, s) \<leftarrow> estat ep s;
             pgdir \<leftarrow> my_pgdir s;
             (r, s) \<leftarrow> copyout kernel_reader pgdir (arg tf_a2 s) (stat_bytes junk st) 128 s;
             Some (ret (if r < 0 then - 1 else 0) s) } } }"

abbreviation (input) dirent_prefix :: int where "dirent_prefix \<equiv> 19"

definition dirent_header :: "int \<Rightarrow> bool \<Rightarrow> u8 list" where
  "dirent_header reclen dir = le_bytes 8 0 @ le_bytes 8 0 @ le_bytes 2 (word_of_int reclen) @ [if dir then 4 else 8]"

partial_function (option) getdents_loop :: "u64 \<Rightarrow> nat \<Rightarrow> u64 \<Rightarrow> int \<Rightarrow> int \<Rightarrow> 'z kio_scheme \<Rightarrow> 'z kio_scheme option" where
  "getdents_loop pgdir f addr n got s = (case f_curChild (ftable s f) of
     None \<Rightarrow> Some (ret got s)
   | Some cur \<Rightarrow> do {
       let name = cstr (filename (dirents s cur));
       let reclen = int (length name) + dirent_prefix + 1;
       if n < reclen then Some (ret got s)
       else do {
         (r, s) \<leftarrow> copyout kernel_reader pgdir addr (dirent_header reclen (attribute (dirents s cur) AND ATTR_DIRECTORY \<noteq> 0)) 19 s;
         if r \<noteq> 0 then Some (ret (- 4) s)
         else do {
           (r, s) \<leftarrow> copyout kernel_reader pgdir (addr + word_of_int dirent_prefix) (name @ [0]) (of_nat (length name + 1)) s;
           if r \<noteq> 0 then Some (ret (- 114) s)
           else getdents_loop pgdir f (addr + word_of_int reclen) (n - reclen) (got + reclen)
             (upd_file f (\<lambda>x. x\<lparr>f_curChild := nextBrother (dirents s cur)\<rparr>) s) } } })"

definition syscallGetDirent :: "'z kio_scheme \<Rightarrow> 'z kio_scheme option" where
  "syscallGetDirent s = do {
     (r, fd, f) \<leftarrow> argfd 0 s;
     case f of None \<Rightarrow> Some (ret (- 2) s)
     | Some f \<Rightarrow> do {
         addr \<leftarrow> argaddr 1 s;
         n \<leftarrow> argint 2 s;
         pgdir \<leftarrow> my_pgdir s;
         if f_type (ftable s f) = FD_ENTRY then getdents_loop pgdir f addr n 0 s else Some (ret (- 5) s) } }"

definition syscallAccess :: "'z kio_scheme \<Rightarrow> 'z kio_scheme option" where
  "syscallAccess s = do {
     (path, s) \<leftarrow> path_arg (arg tf_a1 s) FAT32_MAX_PATH s;
     case path of None \<Rightarrow> Some (ret (- 1) s)
     | Some path \<Rightarrow> do {
         (ep, s) \<leftarrow> ename (iarg tf_a0 s) path True s;
         Some (ret (if ep = None then - ENOENT else 0) s) } }"

definition syscallReadLinkAt :: "'z kio_scheme \<Rightarrow> 'z kio_scheme option" where
  "syscallReadLinkAt s = do {
     let dirFd = iarg tf_a0 s;
     (path, s) \<leftarrow> path_arg (arg tf_a1 s) FAT32_MAX_PATH s;
     case path of None \<Rightarrow> Some (ret (- 1) s)
     | Some path \<Rightarrow> do {
         (ep, s) \<leftarrow> ename dirFd path False (ret (- 1) s);
         Some (ret (case ep of None \<Rightarrow> - 1 | Some ep \<Rightarrow> if nt_res (dirents s ep) \<noteq> DT_LNK then - 1 else 0) s) } }"

definition timespec_of :: "u8 list \<Rightarrow> TimeSpec" where
  "timespec_of bs = \<lparr>second = get64 bs 0, nanoSecond = sint (get64 bs 8)\<rparr>"

definition syscallUtimensat :: "'z kio_scheme \<Rightarrow> 'z kio_scheme option" where
  "syscallUtimensat s = do {
     let dirFd = iarg tf_a0 s;
     (de, s) \<leftarrow> (if arg tf_a1 s \<noteq> 0 then do {
          (path, s) \<leftarrow> path_arg (arg tf_a1 s) FAT32_MAX_PATH s;
          case path of None \<Rightarrow> Some (Inl (- 1), s)
          | Some path \<Rightarrow>
              if (dirFd < 0 \<and> dirFd \<noteq> AT_FDCWD) \<or> dirFd \<ge> int NOFILE then Some (Inl (- EBADF), s)
              else do {
                (ep, s) \<leftarrow> ename dirFd path True s;
                Some (case ep of None \<Rightarrow> Inl (- ENOENT) | Some ep \<Rightarrow> Inr (Some ep), s) } }
        else do {
          f \<leftarrow> fd_file dirFd s;
          Some (case f of None \<Rightarrow> Inl (- EBADF) | Some f \<Rightarrow> Inr (f_ep (ftable s f)), s) });
     case de of Inl e \<Rightarrow> Some (ret e s)
     | Inr de \<Rightarrow> do {
         s \<leftarrow> (if arg tf_a2 s \<noteq> 0 then do {
                pgdir \<leftarrow> my_pgdir s;
                (bs, s) \<leftarrow> copyin kernel_reader pgdir (arg tf_a2 s) 32 s;
                de \<leftarrow> de;
                eSetTime de (timespec_of bs) (timespec_of (drop 16 bs)) s }
              else Some s);
         Some (ret 0 s) } }"

section \<open>Sending a file\<close>

text \<open>
  \<^verbatim>\<open>syscallSendFile\<close> passes the data through \<^verbatim>\<open>u8 buf[512]\<close> on the kernel stack. The address of that array is
  a parameter; its bytes are taken to be at consecutive physical addresses, as they are unless the
  array lies across two pages of the stack. A round of the loop has three parts, since the read and
  the write may both sleep; \<open>c\<close> is the address with the two files.
\<close>

datatype send_phase = Reading | HaveRead int | HaveWritten int

definition send_len :: "u32 \<Rightarrow> int" where
  "send_len count = int (min (unat count) 512)"

text \<open>The rest of the count goes down: the bound for the termination of the loop.\<close>

definition send_rank :: "nat \<Rightarrow> send_phase \<Rightarrow> nat" where
  "send_rank n ph = (case ph of Reading \<Rightarrow> 3 * n
     | HaveRead r \<Rightarrow> if n = 0 then 2 else 3 * n - 1 | HaveWritten r \<Rightarrow> if n = 0 then 1 else 3 * n - 2)"

lemma send_rest: "unat (count - word_of_int (send_len count)) = unat count - min (unat count) 512"
proof -
  have "unat (word_of_int (send_len count) :: u32) = min (unat count) 512"
    by (simp add: send_len_def unsigned_of_nat take_bit_nat_eq_self)
  then show ?thesis
    by (simp add: unat_sub word_le_nat_alt)
qed

lemma send_nonzero: "(count :: u32) \<noteq> 0 \<Longrightarrow> 0 < unat count"
  by (simp add: unat_gt_0)

definition send_end :: "nat \<Rightarrow> u32 \<Rightarrow> 'z kio_scheme \<Rightarrow> (outcome \<times> 'z kio_scheme) option" where
  "send_end inn sent s = do {
     pgdir \<leftarrow> my_pgdir s;
     s \<leftarrow> (if arg tf_a2 s \<noteq> 0 then do {
            (r, s) \<leftarrow> copyout kernel_reader pgdir (arg tf_a2 s) (le_bytes 4 (ucast (f_off (ftable s inn)))) 4 s;
            Some s }
          else Some s);
     Some (Done, ret64 (ucast sent) s) }"

function send_loop :: "u64 \<times> nat \<times> nat \<Rightarrow> u32 \<Rightarrow> u32 \<Rightarrow> send_phase \<Rightarrow> 'z kio_scheme
    \<Rightarrow> (outcome \<times> 'z kio_scheme) option" where
  "send_loop c count sent ph s = (case c of (buf, out, inn) \<Rightarrow> case ph of
     Reading \<Rightarrow>
       if count = 0 then send_end inn sent s
       else do {
         pgdir \<leftarrow> my_pgdir s;
         (r, s) \<leftarrow> fileread inn False buf (send_len count) s;
         case r of Returns r \<Rightarrow> send_loop c count sent (HaveRead r) s
         | _ \<Rightarrow> Some (finish word_of_int (InSendRead pgdir (f_pipe (ftable s inn)) c count sent) (r, s)) }
   | HaveRead r \<Rightarrow>
       if r > 0 then do {
         pgdir \<leftarrow> my_pgdir s;
         (w, s) \<leftarrow> filewrite out False buf r s;
         case w of Returns w \<Rightarrow> send_loop c count sent (HaveWritten w) s
         | _ \<Rightarrow> Some (finish word_of_int (InSendWrite pgdir (f_pipe (ftable s out)) c count sent r) (w, s)) }
       else send_loop c count sent (HaveWritten r) s
   | HaveWritten r \<Rightarrow>
       let sent = sent + word_of_int r in
       if r \<noteq> send_len count then send_end inn sent s
       else send_loop c (count - word_of_int (send_len count)) sent Reading s)"
  by pat_completeness auto
termination
  by (relation "measure (\<lambda>(c, count, sent, ph, s). send_rank (unat count) ph)") (auto simp: send_rank_def send_rest intro: send_nonzero)

declare send_loop.simps [simp del]

definition syscallSendFile :: "u64 \<Rightarrow> 'z kio_scheme \<Rightarrow> (outcome \<times> 'z kio_scheme) option" where
  "syscallSendFile buf s = do {
     out \<leftarrow> fd_file (iarg tf_a0 s) s;
     inn \<leftarrow> fd_file (iarg tf_a1 s) s;
     pgdir \<leftarrow> my_pgdir s;
     case (out, inn) of (Some out, Some inn) \<Rightarrow> do {
         s \<leftarrow> (if arg tf_a2 s \<noteq> 0 then do {
                (bs, s) \<leftarrow> copyin kernel_reader pgdir (arg tf_a2 s) 4 s;
                Some (upd_file inn (\<lambda>f. f\<lparr>f_off := get32 bs 0\<rparr>) s) }
              else Some s);
         send_loop (buf, out, inn) (ucast (arg tf_a3 s)) 0 Reading s }
     | _ \<Rightarrow> Some (Done, ret (- 1) s) }"

section \<open>Opening\<close>

abbreviation (input) O_CREATE_GLIBC :: u32 where "O_CREATE_GLIBC \<equiv> 0x40"
abbreviation (input) O_CREATE_GPP :: u32 where "O_CREATE_GPP \<equiv> 0x200"
abbreviation (input) O_TRUNC :: u32 where "O_TRUNC \<equiv> 0x200"
abbreviation (input) O_APPEND :: u32 where "O_APPEND \<equiv> 0x400"
abbreviation (input) O_DIRECTORY :: u32 where "O_DIRECTORY \<equiv> 0x200000"

text \<open>The entry that is opened, or the error.\<close>

definition open_entry :: "int \<Rightarrow> u8 list \<Rightarrow> bool \<Rightarrow> u32 \<Rightarrow> u32 \<Rightarrow> 'z kfat_scheme \<Rightarrow> ((int + nat) \<times> 'z kfat_scheme) option" where
  "open_entry startFd path creates flags mode s =
     (if creates then do {
        (ep, s) \<leftarrow> create startFd path T_FILE mode s;
        Some (case ep of None \<Rightarrow> Inl (- 1) | Some ep \<Rightarrow> Inr ep, s) }
      else do {
        (ep, s) \<leftarrow> ename startFd path True s;
        Some (case ep of None \<Rightarrow> Inl (- 2)
          | Some ep \<Rightarrow> (let dir = (attribute (dirents s ep) AND ATTR_DIRECTORY \<noteq> 0)
              in if \<not> dir \<and> flags AND O_DIRECTORY \<noteq> 0 then Inl (- 1)
                 else if dir \<and> flags AND 0xFFF \<noteq> 0 then Inl (- 1) else Inr ep), s) })"

text \<open>A new file and a descriptor for it; \<open>None\<close> when one of them is missing.\<close>

definition new_fd :: "'z kio_scheme \<Rightarrow> ((nat \<times> int) option \<times> 'z kio_scheme) option" where
  "new_fd s =
     (let (f, s) = filealloc s
      in case f of None \<Rightarrow> Some (None, s)
         | Some f \<Rightarrow> do {
             (fd, s) \<leftarrow> fdalloc f s;
             if fd < 0 then do { s \<leftarrow> fileclose f s; Some (None, s) } else Some (Some (f, fd), s) })"

text \<open>The rest of both calls; only \<^verbatim>\<open>syscallOpenAt\<close> sets the position in a directory.\<close>

definition open_file :: "bool \<Rightarrow> nat \<Rightarrow> u32 \<Rightarrow> 'z kio_scheme \<Rightarrow> 'z kio_scheme option" where
  "open_file sets_child ep flags s = do {
     (x, s) \<leftarrow> new_fd s;
     case x of None \<Rightarrow> Some (ret (- 24) s)
     | Some (f, fd) \<Rightarrow> do {
         let dir = (attribute (dirents s ep) AND ATTR_DIRECTORY \<noteq> 0);
         s \<leftarrow> (if \<not> dir \<and> flags AND O_TRUNC \<noteq> 0 then etrunc ep s else Some s);
         let s = upd_file f (\<lambda>x. x\<lparr>f_type := FD_ENTRY, f_off := (if flags AND O_APPEND \<noteq> 0 then file_size (dirents s ep) else 0),
           f_ep := Some ep, f_readable := (flags AND O_WRONLY = 0),
           f_writable := (flags AND O_WRONLY \<noteq> 0 \<or> flags AND O_RDWR \<noteq> 0)\<rparr>) s;
         let s = (if sets_child
           then upd_file f (\<lambda>x. x\<lparr>f_curChild := (if dir then firstChild (dirents s ep) else None)\<rparr>) s else s);
         Some (ret fd s) } }"

definition syscallOpenAt :: "'z kio_scheme \<Rightarrow> 'z kio_scheme option" where
  "syscallOpenAt s = do {
     let startFd = iarg tf_a0 s;
     let flags = (ucast (arg tf_a2 s) :: u32);
     let mode = (ucast (arg tf_a3 s) :: u32);
     (path, s) \<leftarrow> path_arg (arg tf_a1 s) FAT32_MAX_PATH s;
     case path of None \<Rightarrow> Some (ret (- 1) s)
     | Some path \<Rightarrow> do {
         (ep, s) \<leftarrow> open_entry startFd path (flags AND O_CREATE_GLIBC \<noteq> 0) flags mode s;
         case ep of Inl e \<Rightarrow> Some (ret e s) | Inr ep \<Rightarrow> open_file True ep flags s } }"

definition syscallOpen :: "'z kio_scheme \<Rightarrow> 'z kio_scheme option" where
  "syscallOpen s = do {
     let flags = (ucast (arg tf_a1 s) :: u32);
     (path, s) \<leftarrow> path_arg (arg tf_a0 s) FAT32_MAX_PATH s;
     case path of None \<Rightarrow> Some (ret (- 1) s)
     | Some path \<Rightarrow> do {
         (ep, s) \<leftarrow> open_entry AT_FDCWD path (flags AND O_CREATE_GPP \<noteq> 0) flags 0 s;
         case ep of Inl e \<Rightarrow> Some (ret e s) | Inr ep \<Rightarrow> open_file False ep flags s } }"

definition syscallDevice :: "'z kio_scheme \<Rightarrow> 'z kio_scheme option" where
  "syscallDevice s = do {
     let omode = (ucast (arg tf_a1 s) :: u32);
     let major = iarg tf_a0 s;
     kassert (omode AND O_CREATE_GLIBC = 0);
     if major < 0 \<or> major \<ge> NDEV then Some (ret (- 1) s)
     else do {
       (x, s) \<leftarrow> new_fd s;
       case x of None \<Rightarrow> Some (ret (- 1) s)
       | Some (f, fd) \<Rightarrow>
           Some (ret fd (upd_file f (\<lambda>x. x\<lparr>f_type := FD_DEVICE, f_off := 0, f_ep := None, f_major := major,
             f_readable := (omode AND O_WRONLY = 0), f_writable := (omode AND O_WRONLY \<noteq> 0 \<or> omode AND O_RDWR \<noteq> 0)\<rparr>) s)) } }"

definition drop_fd :: "nat \<Rightarrow> int \<Rightarrow> 'z kproc_scheme \<Rightarrow> 'z kproc_scheme" where
  "drop_fd p fd s = upd_process p (\<lambda>x. x\<lparr>ofile := (ofile x)(nat fd := None)\<rparr>) s"

definition syscallPipe :: "'z kio_scheme \<Rightarrow> 'z kio_scheme option" where
  "syscallPipe s = do {
     let fdarray = arg tf_a0 s;
     p \<leftarrow> myProcess s;
     (fs, s) \<leftarrow> pipeNew s;
     case fs of None \<Rightarrow> Some (ret (- 1) s)
     | Some (rf, wrf) \<Rightarrow> do {
         (fd0, s) \<leftarrow> fdalloc rf s;
         (fd1, s) \<leftarrow> (if fd0 < 0 then Some (- 1, s) else fdalloc wrf s);
         if fd0 < 0 \<or> fd1 < 0 then do {
           let s = (if fd0 \<ge> 0 then drop_fd p fd0 s else s);
           s \<leftarrow> fileclose rf s;
           s \<leftarrow> fileclose wrf s;
           Some (ret (- 1) s) }
         else do {
           let pgdir = p_pgdir (processes s p);
           (r, s) \<leftarrow> copyout kernel_reader pgdir fdarray (le_bytes 4 (word_of_int fd0)) 4 s;
           (r2, s) \<leftarrow> (if r < 0 then Some (r, s) else copyout kernel_reader pgdir (fdarray + 4) (le_bytes 4 (word_of_int fd1)) 4 s);
           if r2 < 0 then do {
             s \<leftarrow> fileclose rf (drop_fd p fd1 (drop_fd p fd0 s));
             s \<leftarrow> fileclose wrf s;
             Some (ret (- 1) s) }
           else Some (ret 0 s) } } }"

section \<open>Directories, mounts and links\<close>

definition syscallMakeDirAt :: "'z kio_scheme \<Rightarrow> 'z kio_scheme option" where
  "syscallMakeDirAt s = do {
     let dirFd = iarg tf_a0 s;
     let mode = (ucast (arg tf_a2 s) :: u32);
     (path, s) \<leftarrow> path_arg (arg tf_a1 s) FAT32_MAX_PATH s;
     case path of None \<Rightarrow> Some (ret (- 1) s)
     | Some path \<Rightarrow>
         if list_all (\<lambda>c. c = 47) path then Some (ret (- EEXIST) s)
         else do {
           (ep, s) \<leftarrow> create dirFd path T_DIR mode s;
           Some (ret (if ep = None then - 1 else 0) s) } }"

definition syscallChangeDir :: "'z kio_scheme \<Rightarrow> 'z kio_scheme option" where
  "syscallChangeDir s = do {
     p \<leftarrow> myProcess s;
     (path, s) \<leftarrow> path_arg (arg tf_a0 s) FAT32_MAX_PATH s;
     case path of None \<Rightarrow> Some (ret (- 1) s)
     | Some path \<Rightarrow> do {
         (ep, s) \<leftarrow> ename AT_FDCWD path True s;
         case ep of None \<Rightarrow> Some (ret (- 1) s)
         | Some ep \<Rightarrow>
             if attribute (dirents s ep) AND ATTR_DIRECTORY = 0 then Some (ret (- 1) s)
             else Some (ret 0 (upd_process p (\<lambda>x. x\<lparr>cwd := Some ep\<rparr>) s)) } }"

definition syscallGetWorkDir :: "'z kio_scheme \<Rightarrow> 'z kio_scheme option" where
  "syscallGetWorkDir s = do {
     let uva = arg tf_a0 s;
     kassert (uva \<noteq> 0);
     p \<leftarrow> myProcess s;
     d \<leftarrow> cwd (processes s p);
     ((len, pl), s) \<leftarrow> getAbsolutePath d (UserAt uva) (iarg tf_a1 s) s;
     Some (if len < 0 then ret (- 1) s else ret64 uva s) }"

definition syscallRenameAt :: "'z kproc_scheme \<Rightarrow> 'z kproc_scheme" where
  "syscallRenameAt s = ret 0 s"

text \<open>
  A path argument of the mount calls: up to 260 bytes are copied into a buffer of 255; a longer
  string destroys what lies behind it.
\<close>

definition mount_path :: "u64 \<Rightarrow> 'z kfat_scheme \<Rightarrow> (nat option \<times> 'z kfat_scheme) option" where
  "mount_path uva s = do {
     (path, s) \<leftarrow> path_arg uva FAT32_MAX_PATH s;
     case path of None \<Rightarrow> Some (None, s)
     | Some path \<Rightarrow> do {
         kassert (length path < FAT32_MAX_FILENAME);
         ename AT_FDCWD path True s } }"

definition mount_image :: "nat \<Rightarrow> nat \<Rightarrow> 'z kio_scheme \<Rightarrow> (nat \<times> 'z kio_scheme) option" where
  "mount_image ep fs s = do {
     let (f, s) = filealloc s;
     f \<leftarrow> f;
     let s = upd_file f (\<lambda>x. x\<lparr>f_off := 0, f_readable := True, f_writable := True\<rparr>) s;
     s \<leftarrow> (case d_head (dirents s ep) of
          Some h \<Rightarrow> do {
            i \<leftarrow> fs_image (fileSystem s h);
            Some (upd_file f (\<lambda>x. x\<lparr>f_type := f_type (ftable s i), f_ep := f_ep (ftable s i)\<rparr>) s) }
        | None \<Rightarrow> Some (upd_file f (\<lambda>x. x\<lparr>f_type := FD_ENTRY, f_ep := Some ep\<rparr>) s));
     let s = upd_fs fs (\<lambda>x. x\<lparr>fs_name := put_at 0 [109, 0] (fs_name x), fs_image := Some f, fs_reads := MountBlockRead\<rparr>) s;
     Some (f, s) }"

definition syscallMount :: "'z kio_scheme \<Rightarrow> 'z kio_scheme option" where
  "syscallMount s = do {
     let imageUva = arg tf_a0 s;
     let mountUva = arg tf_a1 s;
     let dataUva = arg tf_a4 s;
     let flag = iarg tf_a3 s;
     (type, s) \<leftarrow> path_arg (arg tf_a2 s) 10 s;
     if (case type of None \<Rightarrow> True | Some x \<Rightarrow> strncmp_bytes 4 x (str ''vfat'') \<noteq> 0) then Some (ret (- 1) s)
     else do {
       (ep, s) \<leftarrow> mount_path imageUva s;
       case ep of None \<Rightarrow> Some (ret (- 1) s)
       | Some ep \<Rightarrow> do {
           (dp, s) \<leftarrow> mount_path mountUva s;
           case dp of None \<Rightarrow> Some (ret (- 1) s)
           | Some dp \<Rightarrow> do {
               (ok, s) \<leftarrow> (if dataUva \<noteq> 0 then do { (x, s) \<leftarrow> path_arg dataUva 10 s; Some (x \<noteq> None, s) } else Some (True, s));
               if \<not> ok then Some (ret (- 1) s)
               else do {
                 kassert (flag = 0);
                 let (fs, s) = fsAlloc s;
                 case fs of None \<Rightarrow> Some (ret (- 1) s)
                 | Some fs \<Rightarrow> do {
                     (f, s) \<leftarrow> mount_image ep fs s;
                     (r, s) \<leftarrow> fatInit fs s;
                     let s = upd_fs fs (\<lambda>x. x\<lparr>fs_next := d_head (dirents s dp)\<rparr>) s;
                     Some (ret 0 (upd_dirent dp (\<lambda>e. e\<lparr>d_head := Some fs\<rparr>) s)) } } } } } }"

definition syscallUmount :: "'z kio_scheme \<Rightarrow> 'z kio_scheme option" where
  "syscallUmount s = do {
     let flag = iarg tf_a1 s;
     (ep, s) \<leftarrow> mount_path (arg tf_a0 s) s;
     case ep of None \<Rightarrow> Some (ret (- 1) s)
     | Some ep \<Rightarrow> do {
         kassert (flag = 0);
         case d_head (dirents s ep) of None \<Rightarrow> Some (ret (- 1) s)
         | Some h \<Rightarrow> do {
             let s = upd_fs h (\<lambda>x. x\<lparr>fs_valid := False\<rparr>) s;
             Some (ret 0 (upd_dirent ep (\<lambda>e. e\<lparr>d_head := fs_next (fileSystem s h)\<rparr>) s)) } } }"

definition syscallLinkAt :: "'z kio_scheme \<Rightarrow> 'z kio_scheme option" where
  "syscallLinkAt s = do {
     let oldDirFd = iarg tf_a0 s;
     let newDirFd = iarg tf_a2 s;
     kassert (iarg tf_a4 s = 0);
     (old, s) \<leftarrow> path_arg (arg tf_a1 s) FAT32_MAX_PATH s;
     case old of None \<Rightarrow> Some (ret (- 1) s)
     | Some old \<Rightarrow> do {
         (new, s) \<leftarrow> path_arg (arg tf_a3 s) FAT32_MAX_PATH s;
         case new of None \<Rightarrow> Some (ret (- 1) s)
         | Some new \<Rightarrow> do { (r, s) \<leftarrow> do_linkat oldDirFd old newDirFd new s; Some (ret r s) } } }"

definition syscallUnlinkAt :: "'z kio_scheme \<Rightarrow> 'z kio_scheme option" where
  "syscallUnlinkAt s = do {
     let dirFd = iarg tf_a0 s;
     (path, s) \<leftarrow> path_arg (arg tf_a1 s) FAT32_MAX_PATH s;
     case path of None \<Rightarrow> Some (ret (- 1) s)
     | Some path \<Rightarrow> do { (r, s) \<leftarrow> do_unlinkat dirFd path s; Some (ret r s) } }"

definition syscallUmask :: "'z kproc_scheme \<Rightarrow> 'z kproc_scheme" where
  "syscallUmask s = ret 0 s"

definition syscallFileSychornize :: "'z kproc_scheme \<Rightarrow> 'z kproc_scheme" where
  "syscallFileSychornize s = ret 0 s"

definition syscallChangeModAt :: "'z kproc_scheme \<Rightarrow> 'z kproc_scheme" where
  "syscallChangeModAt s = ret 0 s"

end
