(* ===== verification/Descriptors.thy ===== *)
theory Descriptors
  imports Samples Sysfile
begin

text \<open>
  Descriptors and the table of open files: the reference count of a file is the number of
  descriptors that name it, in all processes, plus what the kernel itself holds (the image files of
  mounted file systems). The calls of \<^verbatim>\<open>src/kernel/fs/Sysfile.c\<close> that copy and close descriptors keep it so.
\<close>

section \<open>Counting\<close>

definition open_fds :: "(nat \<Rightarrow> Process) \<Rightarrow> nat \<Rightarrow> (nat \<times> nat) set" where
  "open_fds ps f = {(p, fd). p < 1024 \<and> fd < NOFILE \<and> ofile (ps p) fd = Some f}"

definition refs_ok :: "(nat \<Rightarrow> int) \<Rightarrow> 'z kfat_scheme \<Rightarrow> bool" where
  "refs_ok H s \<longleftrightarrow> (\<forall>f. f_ref (ftable s f) = int (card (open_fds (processes s) f)) + H f)"

lemma open_fds_finite [simp]: "finite (open_fds ps f)"
  by (rule finite_subset [of _ "{..<1024} \<times> {..<NOFILE}"]) (auto simp: open_fds_def)

lemma open_fds_set:
  assumes "p < 1024" "fd < NOFILE"
  shows "open_fds (ps(p := (ps p)\<lparr>ofile := (ofile (ps p))(fd := x)\<rparr>)) f
    = (if x = Some f then insert (p, fd) (open_fds ps f) else open_fds ps f - {(p, fd)})"
  using assms by (auto simp: open_fds_def split: if_splits)

lemma card_open_fds_set:
  assumes "p < 1024" "fd < NOFILE"
  shows "int (card (open_fds (ps(p := (ps p)\<lparr>ofile := (ofile (ps p))(fd := x)\<rparr>)) f))
    = int (card (open_fds ps f)) + (if x = Some f then 1 else 0) - (if ofile (ps p) fd = Some f then 1 else 0)"
proof -
  have m: "(p, fd) \<in> open_fds ps f \<longleftrightarrow> ofile (ps p) fd = Some f" using assms by (simp add: open_fds_def)
  have "card (open_fds ps f) > 0" if "(p, fd) \<in> open_fds ps f" using that by (auto simp: card_gt_0_iff)
  then show ?thesis unfolding open_fds_set [OF assms] using m
    by (auto simp: card_insert_if card_Diff_singleton_if)
qed

text \<open>A file that a descriptor names has a reference.\<close>

lemma refs_pos:
  assumes "refs_ok H s" "\<And>f. 0 \<le> H f" "p < 1024" "fd < NOFILE" "ofile (processes s p) fd = Some f"
  shows "1 \<le> f_ref (ftable s f)"
proof -
  have "(p, fd) \<in> open_fds (processes s) f" using assms(3-5) by (simp add: open_fds_def)
  then have "0 < card (open_fds (processes s) f)" by (auto simp: card_gt_0_iff)
  then show ?thesis using assms(1) assms(2) [of f] by (simp add: refs_ok_def)
qed

section \<open>What closing leaves alone\<close>

lemma wakeup_frame: "wakeup ch s = Some t \<Longrightarrow> t = s\<lparr>threads := threads t\<rparr>"
  by (auto simp: wakeup_def bind_simps wake_fold)

lemma pipeClose_frame:
  assumes "pipeClose pi w (s :: 'z kfat_scheme) = Some t"
  shows "ftable t = ftable s" "processes t = processes s"
proof -
  have "\<exists>u. wakeup ch (upd_pipe pi g s) = Some u \<and> (u = t \<or> pipeFree pi u = Some t)" if
    "(ch, g) = (if w then (ChanPipeRead pi, \<lambda>p. p\<lparr>writeopen := False\<rparr>) else (ChanPipeWrite pi, \<lambda>p. p\<lparr>readopen := False\<rparr>))" for ch g
    using assms that by (auto simp: pipeClose_def bind_simps split: if_splits)
  then obtain ch g u where u: "wakeup ch (upd_pipe pi g s) = Some u" "u = t \<or> pipeFree pi u = Some t" by (metis surj_pair)
  have "ftable u = ftable s" "processes u = processes s"
    by (subst wakeup_frame [OF u(1)], simp)+
  moreover have "ftable t = ftable u" "processes t = processes u" using u(2) by (auto simp: pipeFree_def bind_simps)
  ultimately show "ftable t = ftable s" "processes t = processes s" by simp_all
qed

lemma socketFree_frame:
  assumes "socketFree i (s :: 'z kio_scheme) = Some t"
  shows "ftable t = ftable s" "processes t = processes s"
  using assms by (auto simp: socketFree_def pageRemove_def pageFree_def Let_def bind_simps split: prod.splits if_splits)

lemma fileclose_frame:
  assumes "fileclose f (s :: 'z kio_scheme) = Some t"
  shows "processes t = processes s" "f_ref (ftable t g) = f_ref (ftable s g) - (if g = f then 1 else 0)" "1 \<le> f_ref (ftable s f)"
proof -
  let ?s2 = "upd_file f (\<lambda>x. x\<lparr>f_ref := 0, f_type := FD_NONE\<rparr>) s"
  have pos: "1 \<le> f_ref (ftable s f)" using assms unfolding fileclose_def by (auto elim!: bind_SomeE)
  have "processes t = processes s \<and> (\<forall>g. f_ref (ftable t g) = f_ref (ftable s g) - (if g = f then 1 else 0))"
  proof (cases "f_ref (ftable s f) = 1")
    case False
    then have "t = upd_file f (\<lambda>x. x\<lparr>f_ref := f_ref x - 1\<rparr>) s" using assms pos by (simp add: fileclose_def Let_def)
    then show ?thesis by simp
  next
    case True
    let ?ff = "ftable s f"
    have c: "(if f_type ?ff = FD_PIPE then pipeClose (f_pipe ?ff) (f_writable ?ff) ?s2
        else if f_type ?ff = FD_SOCKET then socketFree (f_socket ?ff) ?s2 else Some ?s2) = Some t"
      using assms True by (simp add: fileclose_def Let_def cong: if_cong)
    have "processes t = processes ?s2 \<and> ftable t = ftable ?s2"
      using c pipeClose_frame [of "f_pipe ?ff" "f_writable ?ff" ?s2 t] socketFree_frame [of "f_socket ?ff" ?s2 t] by (auto split: if_splits)
    then show ?thesis using True by simp
  qed
  then show "processes t = processes s" "f_ref (ftable t g) = f_ref (ftable s g) - (if g = f then 1 else 0)" "1 \<le> f_ref (ftable s f)"
    using pos by auto
qed

lemma filedup_eq: "1 \<le> f_ref (ftable s f) \<Longrightarrow> filedup f s = Some (upd_file f (\<lambda>x. x\<lparr>f_ref := f_ref x + 1\<rparr>) s)"
  by (simp add: filedup_def)

lemma ret64_frame [simp]:
  "processes (ret64 v s) = processes s" "ftable (ret64 v (u :: 'z kfat_scheme)) = ftable u" "hartTrapframe (ret64 v s) tf_a0 = v"
  by (simp_all add: ret64_def)

text \<open>The lowest free descriptor.\<close>

definition free_fd :: "Process \<Rightarrow> nat option" where
  "free_fd p = find (\<lambda>fd. ofile p fd = None) [0..<unat (fd_hard p)]"

lemma free_fd_Some:
  "free_fd p = Some fd \<Longrightarrow> fd < unat (fd_hard p) \<and> ofile p fd = None \<and> (\<forall>k<fd. ofile p k \<noteq> None)"
  by (auto simp: free_fd_def find_Some_iff)

lemma fdalloc_eq:
  assumes "myProcess s = Some p" "unat (fd_hard (processes s p)) \<le> NOFILE"
  shows "fdalloc f s = Some (case free_fd (processes s p) of None \<Rightarrow> (- 1, s)
    | Some fd \<Rightarrow> (int fd, upd_process p (\<lambda>x. x\<lparr>ofile := (ofile x)(fd := Some f)\<rparr>) s))"
  using assms by (simp add: fdalloc_def free_fd_def min_absorb1 split: option.split)

lemma refs_upd:
  assumes "refs_ok H s" "p < 1024" "fd < NOFILE" "processes t = (processes s)(p := (processes s p)\<lparr>ofile := (ofile (processes s p))(fd := x)\<rparr>)"
    and "\<And>g. f_ref (ftable t g) = f_ref (ftable s g) + (if x = Some g then 1 else 0) - (if ofile (processes s p) fd = Some g then 1 else 0)"
  shows "refs_ok H t"
  using assms card_open_fds_set [OF assms(2,3), of "processes s" x] by (simp add: refs_ok_def)

lemma dup_run:
  assumes refs: "refs_ok H s" "\<And>f. 0 \<le> H f" and p: "myProcess s = Some p" "p < 1024" "unat (fd_hard (processes s p)) \<le> NOFILE"
    and f: "fd_file (iarg tf_a0 s) s = Some (Some f)"
  shows "\<exists>t. syscallDup s = Some t \<and> refs_ok H t
    \<and> (case free_fd (processes s p) of
         None \<Rightarrow> t = ret (- EMFILE) s
       | Some n \<Rightarrow> hartTrapframe t tf_a0 = of_nat n \<and> ofile (processes s p) n = None \<and> (\<forall>k<n. ofile (processes s p) k \<noteq> None)
           \<and> processes t = (processes s)(p := (processes s p)\<lparr>ofile := (ofile (processes s p))(n := Some f)\<rparr>)
           \<and> f_ref (ftable t f) = f_ref (ftable s f) + 1)"
proof -
  have "0 \<le> iarg tf_a0 s \<and> iarg tf_a0 s < int NOFILE \<and> ofile (processes s p) (nat (iarg tf_a0 s)) = Some f"
    using f p(1) by (auto simp: fd_file_def split: if_splits)
  then have pos: "1 \<le> f_ref (ftable s f)" using refs_pos [OF refs p(2), of "nat (iarg tf_a0 s)" f] by (auto simp: nat_less_iff)
  show ?thesis
  proof (cases "free_fd (processes s p)")
    case None
    then show ?thesis using refs by (simp add: syscallDup_def f fdalloc_eq [OF p(1,3)] refs_ok_def)
  next
    case (Some n)
    note n = free_fd_Some [OF Some]
    let ?t = "ret (int n) (upd_file f (\<lambda>x. x\<lparr>f_ref := f_ref x + 1\<rparr>) (upd_process p (\<lambda>x. x\<lparr>ofile := (ofile x)(n := Some f)\<rparr>) s))"
    have run: "syscallDup s = Some ?t" using Some n pos by (simp add: syscallDup_def f fdalloc_eq [OF p(1,3)] filedup_eq)
    have "refs_ok H ?t"
      by (rule refs_upd [OF refs(1) p(2), where fd = n and x = "Some f"]) (use n p(3) in simp_all)
    then show ?thesis using run Some n by simp
  qed
qed

lemma dup3_refs:
  assumes refs: "refs_ok H s" and p: "myProcess s = Some p" "p < 1024" and run: "syscallDupAndSet s = Some t"
  shows "refs_ok H t"
proof -
  let ?n = "nat (iarg tf_a1 s)"
  let ?close = "case ofile (processes s p) ?n of None \<Rightarrow> Some s | Some f2 \<Rightarrow> fileclose f2 s"
  obtain x where x: "fd_file (iarg tf_a0 s) s = Some x" using p by (auto simp: fd_file_def)
  show ?thesis
  proof (cases "x = None \<or> iarg tf_a1 s < 0 \<or> iarg tf_a1 s \<ge> int NOFILE")
    case True
    then have "t = ret (- 1) s" using run p x by (auto simp: syscallDupAndSet_def Let_def split: option.splits)
    then show ?thesis using refs by (simp add: refs_ok_def)
  next
    case False
    then obtain f where f: "x = Some f" by auto
    have n: "?n < NOFILE" using False by (simp add: nat_less_iff)
    obtain s1 where s1: "?close = Some s1"
      and t: "t = ret (iarg tf_a1 s) (upd_file f (\<lambda>x. x\<lparr>f_ref := f_ref x + 1\<rparr>) (upd_process p (\<lambda>x. x\<lparr>ofile := (ofile x)(?n := Some f)\<rparr>) s1))"
      using run False unfolding syscallDupAndSet_def x f p(1) Let_def filedup_def by (auto elim!: bind_SomeE)
    have fr: "processes s1 = processes s \<and> (\<forall>g. f_ref (ftable s1 g) = f_ref (ftable s g) - (if ofile (processes s p) ?n = Some g then 1 else 0))"
    proof (cases "ofile (processes s p) ?n")
      case None
      then show ?thesis using s1 by simp
    next
      case (Some f2)
      then have c: "fileclose f2 s = Some s1" using s1 by simp
      show ?thesis using fileclose_frame [OF c] Some by auto
    qed
    show ?thesis unfolding t by (rule refs_upd [OF refs p(2) n, where x = "Some f"]) (simp_all add: fr)
  qed
qed

lemma close_refs:
  assumes refs: "refs_ok H s" and p: "myProcess s = Some p" "p < 1024" and run: "syscallClose s = Some t"
  shows "refs_ok H t"
proof -
  let ?n = "nat (iarg tf_a0 s)"
  obtain x where x: "fd_file (iarg tf_a0 s) s = Some x" using p by (auto simp: fd_file_def)
  show ?thesis
  proof (cases x)
    case None
    then have "t = ret (- 1) s" using run p x by (simp add: syscallClose_def Let_def)
    then show ?thesis using refs by (simp add: refs_ok_def)
  next
    case (Some f)
    have n: "?n < NOFILE" "ofile (processes s p) ?n = Some f" using x Some p by (auto simp: fd_file_def nat_less_iff split: if_splits)
    obtain s1 where s1: "fileclose f (upd_process p (\<lambda>x. x\<lparr>ofile := (ofile x)(?n := None)\<rparr>) s) = Some s1" and t: "t = ret 0 s1"
      using run unfolding syscallClose_def x Some p(1) Let_def by (auto elim!: bind_SomeE)
    show ?thesis unfolding t
      by (rule refs_upd [OF refs p(2) n(1), where x = None]) (use fileclose_frame(1,2) [OF s1] n(2) in simp_all)
  qed
qed

section \<open>Properties\<close>

text \<open>
  C25: \<^verbatim>\<open>dup\<close> of an open descriptor always comes back: with the lowest descriptor that was free, which now
  names the same file and has been counted, or with the error when the process has none left, and
  then nothing has changed but the result.
\<close>

theorem syscallDup_correct:
  assumes "refs_ok H s" "\<And>f. 0 \<le> H f" and "myProcess s = Some p" "p < 1024" "unat (fd_hard (processes s p)) \<le> NOFILE"
    and "0 \<le> iarg tf_a0 s" "iarg tf_a0 s < int NOFILE" "ofile (processes s p) (nat (iarg tf_a0 s)) = Some f"
  shows "\<exists>t. syscallDup s = Some t \<and> refs_ok H t
    \<and> (case free_fd (processes s p) of
         None \<Rightarrow> t = ret (- EMFILE) s
       | Some n \<Rightarrow> hartTrapframe t tf_a0 = of_nat n \<and> ofile (processes s p) n = None \<and> (\<forall>k<n. ofile (processes s p) k \<noteq> None)
           \<and> processes t = (processes s)(p := (processes s p)\<lparr>ofile := (ofile (processes s p))(n := Some f)\<rparr>)
           \<and> f_ref (ftable t f) = f_ref (ftable s f) + 1)"
  using dup_run [OF assms(1-5), of f] assms(3,6-8) by (simp add: fd_file_def)

text \<open>A process with the descriptor 3 open.\<close>

definition one_open :: "(nat \<Rightarrow> u64) \<Rightarrow> kio" where
  "one_open tf = small_kio\<lparr>hartTrapframe := tf, processes := (\<lambda>p. zero_process\<lparr>fd_hard := 1024, ofile := (if p = 0 then [3 \<mapsto> 5] else Map.empty)\<rparr>),
     ftable := (\<lambda>f. blank_file\<lparr>f_ref := (if f = 5 then 1 else 0)\<rparr>)\<rparr>"

lemma one_open_sel [simp]:
  "myProcess (one_open tf) = Some 0" "hartTrapframe (one_open tf) = tf"
  "processes (one_open tf) p = zero_process\<lparr>fd_hard := 1024, ofile := (if p = 0 then [3 \<mapsto> 5] else Map.empty)\<rparr>"
  "ftable (one_open tf) f = blank_file\<lparr>f_ref := (if f = 5 then 1 else 0)\<rparr>"
proof -
  show "myProcess (one_open tf) = Some 0" by (simp add: one_open_def myProcess_def myThread_def zero_thread_def)
qed (simp_all add: one_open_def)

lemma one_open_refs: "refs_ok (\<lambda>_. 0) (one_open tf)"
proof -
  have "open_fds (processes (one_open tf)) f = (if f = 5 then {(0, 3)} else {})" for f
    by (auto simp: open_fds_def split: if_splits)
  then show ?thesis by (simp add: refs_ok_def)
qed

theorem syscallDup_correct_witness:
  "\<exists>t. syscallDup (one_open (\<lambda>r. 3)) = Some t \<and> hartTrapframe t tf_a0 = 0 \<and> ofile (processes t 0) 0 = Some 5"
proof -
  have "free_fd (processes (one_open (\<lambda>r. 3)) 0) = Some 0" unfolding free_fd_def by (subst upt_conv_Cons) simp_all
  then show ?thesis
    using syscallDup_correct [OF one_open_refs [of "\<lambda>r. 3"], where p = 0 and f = 5] by (auto simp: to_int_def)
qed

text \<open>
  C12: whenever \<^verbatim>\<open>dup\<close>, \<^verbatim>\<open>dup3\<close> or \<^verbatim>\<open>close\<close> comes back, every reference count is again the number of
  descriptors that name the file plus the kernel's own references.
\<close>

theorem descriptors_counted:
  assumes "refs_ok H s" "\<And>f. 0 \<le> H f" and "myProcess s = Some p" "p < 1024" "unat (fd_hard (processes s p)) \<le> NOFILE"
    and "syscallDup s = Some t \<or> syscallDupAndSet s = Some t \<or> syscallClose s = Some t"
  shows "refs_ok H t"
proof -
  have "refs_ok H t" if d: "syscallDup s = Some t"
  proof (cases "fd_file (iarg tf_a0 s) s = Some None")
    case True
    then have "t = ret (- 1) s" using d by (simp add: syscallDup_def)
    then show ?thesis using assms(1) by (simp add: refs_ok_def)
  next
    case False
    then obtain f where "fd_file (iarg tf_a0 s) s = Some (Some f)" using assms(3) by (auto simp: fd_file_def split: if_splits)
    from dup_run [OF assms(1-5) this] show ?thesis using d by auto
  qed
  then show ?thesis using dup3_refs [OF assms(1,3,4)] close_refs [OF assms(1,3,4)] assms(6) by blast
qed

theorem descriptors_counted_witness:
  "\<exists>t. syscallClose (one_open (\<lambda>r. 3)) = Some t \<and> refs_ok (\<lambda>_. 0) t"
proof -
  obtain t where t: "syscallClose (one_open (\<lambda>r. 3)) = Some t"
    by (auto simp: syscallClose_def fd_file_def to_int_def fileclose_def blank_file_def)
  then show ?thesis using descriptors_counted [OF one_open_refs [of "\<lambda>r. 3"], where p = 0 and t = t] by simp
qed

text \<open>
  C30: \<^verbatim>\<open>dup3\<close> of a descriptor onto itself stops the kernel when the descriptor is the only reference to
  a file that is neither a pipe nor a socket: the file is closed first, and \<^verbatim>\<open>filedup\<close> then finds no
  reference.
\<close>

theorem dup3_same_fd_stops:
  assumes "myProcess s = Some p" and "iarg tf_a0 s = fd" "iarg tf_a1 s = fd" "0 \<le> fd" "fd < int NOFILE"
    and "ofile (processes s p) (nat fd) = Some f" "f_ref (ftable s f) = 1" "f_type (ftable s f) \<noteq> FD_PIPE" "f_type (ftable s f) \<noteq> FD_SOCKET"
  shows "syscallDupAndSet s = None"
  using assms by (simp add: syscallDupAndSet_def fd_file_def fileclose_def filedup_def Let_def)

theorem dup3_same_fd_stops_witness: "syscallDupAndSet (one_open (\<lambda>r. 3)) = None"
  using dup3_same_fd_stops [of "one_open (\<lambda>r. 3)" 0 3 5] by (simp add: to_int_def blank_file_def)

end
