(* ===== verification/Round_Robin.thy ===== *)
theory Round_Robin
  imports Samples
begin

text \<open>
  The scheduler of \<^verbatim>\<open>src/kernel/yield/Yield.c\<close> as a queue. The two schedule lists and the index of the one
  in use represent one sequence of threads: the list in use, then the other one, at whose tail a
  thread that gives up the hart is put. \<^verbatim>\<open>yield\<close> takes the first thread of the sequence that may run.
\<close>

section \<open>Two lists as one queue\<close>

definition queue_abs :: "(nat, nat) lists \<Rightarrow> nat \<Rightarrow> nat list \<Rightarrow> bool" where
  "queue_abs l p Q \<longleftrightarrow> p \<le> 1 \<and> (\<exists>L. lists_abs l L \<and> (\<forall>h>1. L h = []) \<and> Q = L p @ L (1 - p))"

lemma other_list: "p \<le> 1 \<Longrightarrow> p \<noteq> 1 - (p :: nat) \<and> 1 - (1 - p) = p"
  by (cases "p = 0") auto

lemma queue_on_lists:
  fixes p :: nat
  assumes "p \<le> 1" "\<forall>h>1. L h = []"
  shows "on_lists L = set (L p @ L (1 - p))"
proof -
  have "h = p \<or> h = 1 - p \<or> h > 1" for h :: nat using assms(1) by linarith
  then show ?thesis using assms(2) by (auto simp: on_lists_def) (metis empty_iff list.set(1))
qed

lemma queue_distinct: "queue_abs l p Q \<Longrightarrow> distinct Q"
proof -
  assume "queue_abs l p Q"
  then obtain L where L: "p \<le> 1" "lists_abs l L" "Q = L p @ L (1 - p)" by (auto simp: queue_abs_def)
  have "p \<noteq> 1 - p" using other_list [OF L(1)] by simp
  then show ?thesis using L lists_absD [OF L(2)] by auto
qed

lemma queue_put:
  assumes "queue_abs l p Q" and "c \<notin> set Q"
  shows "\<exists>l'. LIST_INSERT_TAIL (1 - p) c l = Some l' \<and> queue_abs l' p (Q @ [c])"
proof -
  obtain L where L: "p \<le> 1" "lists_abs l L" "\<forall>h>1. L h = []" "Q = L p @ L (1 - p)" using assms(1) by (auto simp: queue_abs_def)
  have "c \<notin> on_lists L" using queue_on_lists [OF L(1,3)] assms(2) L(4) by simp
  then obtain l' where l': "LIST_INSERT_TAIL (1 - p) c l = Some l'" "lists_abs l' (L(1 - p := L (1 - p) @ [c]))"
    using lists_abs_insert_tail [OF L(2)] by blast
  have "p \<noteq> 1 - p" using other_list [OF L(1)] by simp
  then have "queue_abs l' p (Q @ [c])" unfolding queue_abs_def using l'(2) L
    by (intro conjI exI [of _ "L(1 - p := L (1 - p) @ [c])"]) auto
  with l' show ?thesis by blast
qed

lemma queue_get:
  assumes "queue_abs l p (x # Q)"
  defines "q \<equiv> if LIST_EMPTY p l then 1 - p else p"
  shows "LIST_FIRST q l = Some x" "\<exists>l'. LIST_REMOVE x l = Some l' \<and> queue_abs l' q Q"
proof -
  obtain L where L: "p \<le> 1" "lists_abs l L" "\<forall>h>1. L h = []" "x # Q = L p @ L (1 - p)" using assms(1) by (auto simp: queue_abs_def)
  have q: "q = (if L p = [] then 1 - p else p)" using lists_abs_empty [OF L(2)] by (simp add: q_def)
  have pp: "p \<noteq> 1 - p" "1 - (1 - p) = p" using other_list [OF L(1)] by simp_all
  obtain xs where xs: "L q = x # xs" "Q = xs @ (if L p = [] then [] else L (1 - p))" using L(4) [symmetric] q by (cases "L p") auto
  note m = lists_abs_move_first [OF L(2) xs(1)]
  show "LIST_FIRST q l = Some x" by (rule m(1))
  obtain l' where l': "LIST_REMOVE x l = Some l'" "lists_abs l' (L(q := xs))" using m(2) by blast
  have "queue_abs l' q Q" unfolding queue_abs_def using l'(2) L q xs pp
    by (intro conjI exI [of _ "L(q := xs)"]) (auto split: if_splits)
  with l' show "\<exists>l'. LIST_REMOVE x l = Some l' \<and> queue_abs l' q Q" by blast
qed

section \<open>The loop\<close>

definition ready :: "(nat \<Rightarrow> Thread) \<Rightarrow> u64 \<Rightarrow> nat \<Rightarrow> bool" where
  "ready f now t \<longleftrightarrow> th_state (f t) = RUNNABLE \<and> awakeTime (f t) \<le> now"

lemma yield_loop_ends:
  "count \<noteq> 0 \<Longrightarrow> ready (threads s) (clk k) t \<Longrightarrow> yield_loop clk k count p (Some t) s = Some ((count, p, t), s)"
  by (subst yield_loop.simps) (auto simp: ready_def)

text \<open>The threads in the order in which they get their turn, the one that gives up the hart last.\<close>

definition turns :: "nat option \<Rightarrow> nat list \<Rightarrow> nat list" where
  "turns thread Q = Q @ (case thread of None \<Rightarrow> [] | Some c \<Rightarrow> [c])"

definition gives_up :: "(nat \<Rightarrow> Thread) \<Rightarrow> u64 \<Rightarrow> int \<Rightarrow> nat option \<Rightarrow> nat list \<Rightarrow> bool" where
  "gives_up f now count thread Q \<longleftrightarrow> (case thread of None \<Rightarrow> Q \<noteq> [] | Some c \<Rightarrow> c \<notin> set Q \<and> (count = 0 \<or> \<not> ready f now c))"

text \<open>One turn: the thread goes to the end of the queue and the first is taken.\<close>

lemma yield_loop_turn:
  assumes q: "queue_abs (sched_links s) p Q" and c: "gives_up (threads s) (clk k) count thread Q"
  obtains p' l' where "yield_loop clk k count p thread s = yield_loop clk (Suc k) 1 p' (Some (hd (turns thread Q))) (s\<lparr>sched_links := l'\<rparr>)"
    "queue_abs l' p' (tl (turns thread Q))"
proof -
  let ?R = "turns thread Q"
  obtain l where l: "(case thread of None \<Rightarrow> Some (sched_links s) | Some t \<Rightarrow> LIST_INSERT_TAIL (1 - p) t (sched_links s)) = Some l"
    "queue_abs l p ?R" using c q queue_put [OF q] by (cases thread) (auto simp: turns_def gives_up_def)
  have R: "?R = hd ?R # tl ?R" using c by (cases thread) (auto simp: turns_def gives_up_def)
  let ?p = "if LIST_EMPTY p l then 1 - p else p"
  have g: "queue_abs l p (hd ?R # tl ?R)" using l(2) R by simp
  obtain l' where l': "LIST_REMOVE (hd ?R) l = Some l'" "queue_abs l' ?p (tl ?R)" using queue_get(2) [OF g] by blast
  have "count = 0 \<or> (case thread of None \<Rightarrow> True
         | Some t \<Rightarrow> th_state (threads s t) \<noteq> RUNNABLE \<or> awakeTime (threads s t) > clk k)"
    using c by (cases thread) (auto simp: ready_def gives_up_def)
  then have "yield_loop clk k count p thread s = yield_loop clk (Suc k) 1 ?p (Some (hd ?R)) (s\<lparr>sched_links := l'\<rparr>)"
    using l(1) l' queue_get(1) [OF g] by (subst yield_loop.simps) (simp add: Let_def)
  with l' show thesis using that by blast
qed

lemma yield_loop_finds:
  assumes "queue_abs (sched_links s) p Q" and "gives_up (threads s) (clk k) count thread Q" and "R = turns thread Q"
    and "n < length R" "ready (threads s) (clk (Suc (k + n))) (R ! n)" "\<And>m. m < n \<Longrightarrow> \<not> ready (threads s) (clk (Suc (k + m))) (R ! m)"
  shows "\<exists>p' l'. yield_loop clk k count p thread s = Some ((1, p', R ! n), s\<lparr>sched_links := l'\<rparr>)
    \<and> queue_abs l' p' (drop (Suc n) R @ take n R)"
  using assms
proof (induction n arbitrary: s p Q thread R count k)
  case 0
  obtain p' l' where t: "yield_loop clk k count p thread s = yield_loop clk (Suc k) 1 p' (Some (hd R)) (s\<lparr>sched_links := l'\<rparr>)"
    "queue_abs l' p' (tl R)" unfolding 0(3) by (rule yield_loop_turn [OF 0(1), where clk = clk and k = k, OF 0(2)])
  have "R ! 0 = hd R" using 0(4) by (simp add: hd_conv_nth)
  then show ?case using t yield_loop_ends [of 1 "s\<lparr>sched_links := l'\<rparr>" clk "Suc k" "hd R" p'] 0(5) by (auto simp: drop_Suc)
next
  case (Suc n)
  obtain p' l' where t: "yield_loop clk k count p thread s = yield_loop clk (Suc k) 1 p' (Some (hd R)) (s\<lparr>sched_links := l'\<rparr>)"
    and q': "queue_abs l' p' (tl R)" unfolding Suc(4) by (rule yield_loop_turn [OF Suc(2), where clk = clk and k = k, OF Suc(3)])
  obtain x xs where R: "R = x # xs" using Suc(5) by (cases R) auto
  have d: "distinct R" using Suc(2-4) queue_distinct by (cases thread) (auto simp: turns_def gives_up_def)
  have nx: "\<not> ready (threads s) (clk (Suc k)) x" using Suc(7) [of 0] R by simp
  have "\<exists>p'' l''. yield_loop clk (Suc k) 1 p' (Some x) (s\<lparr>sched_links := l'\<rparr>)
      = Some ((1, p'', (xs @ [x]) ! n), s\<lparr>sched_links := l'\<rparr>\<lparr>sched_links := l''\<rparr>)
    \<and> queue_abs l'' p'' (drop (Suc n) (xs @ [x]) @ take n (xs @ [x]))"
  proof (rule Suc.IH)
    show "queue_abs (sched_links (s\<lparr>sched_links := l'\<rparr>)) p' xs" using q' R by simp
    show "gives_up (threads (s\<lparr>sched_links := l'\<rparr>)) (clk (Suc k)) 1 (Some x) xs" using d R nx by (simp add: gives_up_def)
    show "ready (threads (s\<lparr>sched_links := l'\<rparr>)) (clk (Suc (Suc k + n))) ((xs @ [x]) ! n)" using Suc(5,6) R by (simp add: nth_append)
    show "\<not> ready (threads (s\<lparr>sched_links := l'\<rparr>)) (clk (Suc (Suc k + m))) ((xs @ [x]) ! m)" if "m < n" for m
      using Suc(5) Suc(7) [of "Suc m"] that R by (simp add: nth_append)
  qed (use Suc(5) R in \<open>simp_all add: turns_def\<close>)
  then show ?case using t R Suc(5) by (auto simp: nth_append)
qed

section \<open>Giving up the hart\<close>

text \<open>The current thread, if it was running, can be chosen again.\<close>

definition marked :: "'z klife_scheme \<Rightarrow> 'z klife_scheme" where
  "marked s = (case currentThread s of None \<Rightarrow> s
     | Some t \<Rightarrow>
         if th_state (threads s t) = RUNNING then
           (let s = (if reason (threads s t) AND KERNEL_GIVE_UP \<noteq> 0
                     then upd_thread t (\<lambda>x. x\<lparr>trapframe := hartTrapframe s\<rparr>) s else s)
            in upd_thread t (\<lambda>x. x\<lparr>th_state := RUNNABLE\<rparr>) s)
         else s)"

definition eligible :: "'z klife_scheme \<Rightarrow> u64 \<Rightarrow> nat \<Rightarrow> bool" where
  "eligible s now t \<longleftrightarrow> (th_state (threads s t) = RUNNABLE \<or> currentThread s = Some t \<and> th_state (threads s t) = RUNNING)
     \<and> awakeTime (threads s t) \<le> now"

lemma marked_frame [simp]:
  "sched_links (marked s) = sched_links s" "processTimeCount (marked s) = processTimeCount s" "processBelongList (marked s) = processBelongList s"
  "currentThread (marked s) = currentThread s" "first (marked s) = first s" "hartTrapframe (marked s) = hartTrapframe s"
  "awakeTime (threads (marked s) t) = awakeTime (threads s t)" "reason (threads (marked s) t) = reason (threads s t)"
  "currentThread s \<noteq> Some t \<Longrightarrow> threads (marked s) t = threads s t"
  by (auto simp: marked_def Let_def split: option.split)

lemma ready_marked: "ready (threads (marked s)) now t \<longleftrightarrow> eligible s now t"
  by (auto simp: ready_def eligible_def marked_def Let_def split: option.split)

lemma yield_run:
  assumes "yield_loop clk 0 (processTimeCount s) (processBelongList s) (currentThread s) (marked s) = Some ((1, p, t), (marked s)\<lparr>sched_links := l\<rparr>)"
    and "first s"
  shows "\<exists>r u. yield clk s = Some (r, u) \<and> currentThread u = Some t \<and> th_state (threads u t) = RUNNING
    \<and> sched_links u = l \<and> processBelongList u = p \<and> processTimeCount u = 0
    \<and> (r = InKernel \<longleftrightarrow> reason (threads s t) AND KERNEL_GIVE_UP \<noteq> 0)
    \<and> (currentThread s \<noteq> Some t \<longrightarrow> hartTrapframe u = trapframe (threads s t))
    \<and> (\<forall>c. currentThread s = Some c \<and> c \<noteq> t \<longrightarrow> trapframe (threads u c)
         = (if awakeTime (threads s t) > 0 then (hartTrapframe s)(tf_a0 := 0) else hartTrapframe s))"
proof -
  have "yield clk s = (let s = (marked s)\<lparr>sched_links := l, processTimeCount := 0, processBelongList := p\<rparr>;
     s = (if awakeTime (threads s t) > 0
       then upd_thread t (\<lambda>x. x\<lparr>awakeTime := 0\<rparr>) (s\<lparr>hartTrapframe := (hartTrapframe s)(tf_a0 := 0)\<rparr>) else s)
     in threadRun t (futexClear t s))"
    using assms(1) unfolding yield_def myThread_def Let_def marked_def [symmetric, unfolded Let_def] by simp
  then show ?thesis using assms(2)
    by (auto simp: Let_def threadRun_def futexClear_def split: option.split)
qed

section \<open>Properties\<close>

text \<open>
  C9: \<^verbatim>\<open>yield\<close> is round robin. The two schedule lists are one queue; the thread that gives up the hart goes
  to its end, and the first thread in the order of the queue that is runnable and whose sleeping time
  is over at its turn gets the hart, when the queue has such a thread on the first pass over it. The
  search ends there, the threads it passed over are at the end of the queue in their order, and none
  is lost. The chosen thread goes on from its own saved registers.
\<close>

theorem yield_round_robin:
  assumes q: "queue_abs (sched_links s) (processBelongList s) Q" and c: "\<And>c. currentThread s = Some c \<Longrightarrow> c \<notin> set Q"
    and "processTimeCount s = 0" "first s"
    and n: "n < length (turns (currentThread s) Q)" "eligible s (clk (Suc n)) (turns (currentThread s) Q ! n)"
      "\<And>m. m < n \<Longrightarrow> \<not> eligible s (clk (Suc m)) (turns (currentThread s) Q ! m)"
  shows "\<exists>r u. yield clk s = Some (r, u) \<and> currentThread u = Some (turns (currentThread s) Q ! n)
    \<and> th_state (threads u (turns (currentThread s) Q ! n)) = RUNNING
    \<and> queue_abs (sched_links u) (processBelongList u) (drop (Suc n) (turns (currentThread s) Q) @ take n (turns (currentThread s) Q))
    \<and> processTimeCount u = 0
    \<and> (currentThread s \<noteq> Some (turns (currentThread s) Q ! n) \<longrightarrow> hartTrapframe u = trapframe (threads s (turns (currentThread s) Q ! n)))"
proof -
  let ?R = "turns (currentThread s) Q"
  have g: "gives_up (threads (marked s)) (clk 0) (processTimeCount s) (currentThread s) Q"
    using c n(1) assms(3) by (auto simp: gives_up_def turns_def split: option.splits)
  obtain p l where "yield_loop clk 0 (processTimeCount s) (processBelongList s) (currentThread s) (marked s)
      = Some ((1, p, ?R ! n), (marked s)\<lparr>sched_links := l\<rparr>)" "queue_abs l p (drop (Suc n) ?R @ take n ?R)"
    using yield_loop_finds [of "marked s" "processBelongList s" Q clk 0 "processTimeCount s" "currentThread s" ?R n] q g n
    by (auto simp: ready_marked)
  from yield_run [OF this(1) assms(4)] this(2) show ?thesis by auto
qed

lemma one_waiting: "queue_abs (LIST_INSERT_HEAD 0 2 zero_lists) 0 [2]"
proof -
  have "lists_abs (LIST_INSERT_HEAD 0 2 zero_lists) ((\<lambda>_. [])(0 :: nat := [2 :: nat]))"
    using lists_abs_insert_head [OF lists_abs_zero, of "2 :: nat" "0 :: nat"] by (simp add: on_lists_def)
  then show ?thesis unfolding queue_abs_def by (intro conjI exI [of _ "(\<lambda>_. [])(0 := [2 :: nat])"]) auto
qed

theorem yield_round_robin_witness:
  "\<exists>r u. yield (\<lambda>_. 7) (small_klife\<lparr>currentThread := Some 1, sched_links := LIST_INSERT_HEAD 0 2 zero_lists,
       threads := (\<lambda>_. zero_thread\<lparr>th_state := RUNNABLE\<rparr>)\<rparr>) = Some (r, u) \<and> currentThread u = Some 2"
proof -
  let ?s = "small_klife\<lparr>currentThread := Some 1, sched_links := LIST_INSERT_HEAD 0 2 zero_lists,
       threads := (\<lambda>_. zero_thread\<lparr>th_state := RUNNABLE\<rparr>)\<rparr>"
  have "queue_abs (sched_links ?s) (processBelongList ?s) [2]" using one_waiting by simp
  from yield_round_robin [OF this, of 0 "\<lambda>_. 7"] show ?thesis
    by (auto simp: turns_def eligible_def zero_thread_def)
qed

text \<open>
  C28: the result register of a thread that was preempted is lost when the thread that gets the hart
  had slept for some time: \<^verbatim>\<open>yield\<close> clears \<^verbatim>\<open>a0\<close> in the frame of the hart, which at that point is still
  that of the outgoing thread, and it is what \<^verbatim>\<open>threadRun\<close> then saves for it. The frame of the incoming
  thread, for which the zero is meant, is left alone.
\<close>

theorem yield_clears_outgoing_a0:
  assumes q: "queue_abs (sched_links s) (processBelongList s) (t # Q)" and c: "currentThread s = Some c" "c \<notin> set (t # Q)"
    and "processTimeCount s = 0" "first s" and t: "th_state (threads s t) = RUNNABLE" "awakeTime (threads s t) \<le> clk 1" "0 < awakeTime (threads s t)"
  shows "\<exists>r u. yield clk s = Some (r, u) \<and> currentThread u = Some t
    \<and> trapframe (threads u c) = (hartTrapframe s)(tf_a0 := 0) \<and> hartTrapframe u = trapframe (threads s t)"
proof -
  have g: "gives_up (threads (marked s)) (clk 0) (processTimeCount s) (currentThread s) (t # Q)"
    using c assms(4) by (simp add: gives_up_def)
  have e: "ready (threads (marked s)) (clk (Suc (0 + 0))) t" using t by (simp add: ready_marked eligible_def)
  obtain p l where "yield_loop clk 0 (processTimeCount s) (processBelongList s) (currentThread s) (marked s) = Some ((1, p, t), (marked s)\<lparr>sched_links := l\<rparr>)"
    using yield_loop_finds [of "marked s" "processBelongList s" "t # Q" clk 0 "processTimeCount s" "currentThread s" "turns (currentThread s) (t # Q)" 0] q g e
    by (auto simp: turns_def)
  from yield_run [OF this assms(5)] show ?thesis using c t(3) by auto
qed

theorem yield_clears_outgoing_a0_witness:
  "\<exists>r u. yield (\<lambda>_. 7) (small_klife\<lparr>currentThread := Some 1, sched_links := LIST_INSERT_HEAD 0 2 zero_lists,
       threads := (\<lambda>_. zero_thread\<lparr>th_state := RUNNABLE, awakeTime := 5\<rparr>), hartTrapframe := (\<lambda>_. 99)\<rparr>) = Some (r, u)
     \<and> trapframe (threads u 1) tf_a0 = 0"
proof -
  let ?s = "small_klife\<lparr>currentThread := Some 1, sched_links := LIST_INSERT_HEAD 0 2 zero_lists,
       threads := (\<lambda>_. zero_thread\<lparr>th_state := RUNNABLE, awakeTime := 5\<rparr>), hartTrapframe := (\<lambda>_. 99)\<rparr>"
  have "queue_abs (sched_links ?s) (processBelongList ?s) [2]" using one_waiting by simp
  from yield_clears_outgoing_a0 [OF this, of 1 "\<lambda>_. 7"] show ?thesis by auto
qed

end
