(* ===== verification/Segment_Maps.thy ===== *)
theory Segment_Maps
  imports Samples
begin

text \<open>
  The segment maps of a process: the singly linked lists through which \<^verbatim>\<open>src/kernel/trap/Exec.c\<close> finds the part
  of the file behind a page, with their pool. Releasing the maps of a process ends and gives back
  exactly its maps.
\<close>

section \<open>The pool and the lists\<close>

interpretation segment_pool: slot_pool "\<lambda>s. bm_used (segmentMapBitmap s)" "64 * 16" segmentMapAlloc segmentMapFree "\<lambda>s. length (segmentMapBitmap s) = 16"
  by (rule slot_pool_lift) (auto simp: segmentMapAlloc_def segmentMapFree_def bind_eq_None_conv bind_eq_Some_conv split: prod.splits)

fun map_chain :: "(nat \<Rightarrow> ProcessSegmentMap) \<Rightarrow> nat option \<Rightarrow> nat list \<Rightarrow> bool" where
  "map_chain f h [] \<longleftrightarrow> h = None"
| "map_chain f h (x # xs) \<longleftrightarrow> h = Some x \<and> map_chain f (psm_next (f x)) xs"

lemma map_chain_unique: "map_chain f h xs \<Longrightarrow> map_chain f h ys \<Longrightarrow> xs = ys"
  by (induction xs arbitrary: h ys; case_tac ys) auto

lemma map_chain_suffix: "map_chain f h (as @ x # bs) \<Longrightarrow> map_chain f (Some x) (x # bs)"
  by (induction as arbitrary: h) auto

lemma map_chain_distinct: "map_chain f h xs \<Longrightarrow> distinct xs"
proof (rule ccontr)
  assume c: "map_chain f h xs" and "\<not> distinct xs"
  then obtain as x bs cs where "xs = as @ x # bs @ x # cs" by (metis append_Cons append_assoc not_distinct_decomp append_Nil)
  then have "map_chain f (Some x) (x # bs @ x # cs)" "map_chain f (Some x) (x # cs)"
    using c map_chain_suffix [of f h as x "bs @ x # cs"] map_chain_suffix [of f h "as @ x # bs" x cs] by simp_all
  from map_chain_unique [OF this] show False by (auto dest: arg_cong [of _ _ length])
qed

lemma map_chain_cong: "(\<And>x. x \<in> set xs \<Longrightarrow> psm_next (f x) = psm_next (g x)) \<Longrightarrow> map_chain f h xs \<longleftrightarrow> map_chain g h xs"
  by (induction xs arbitrary: h) auto

text \<open>The list of a process: it ends, and its maps are taken from the pool.\<close>

definition maps_ok :: "nat \<Rightarrow> nat list \<Rightarrow> 'z kproc_scheme \<Rightarrow> bool" where
  "maps_ok p xs s \<longleftrightarrow> map_chain (segmentMaps s) (segmentMapHead (processes s p)) xs
     \<and> set xs \<subseteq> bm_used (segmentMapBitmap s) \<and> length (segmentMapBitmap s) = 16"

lemma map_free_loop_run:
  assumes "map_chain (segmentMaps s) h xs" "set xs \<subseteq> bm_used (segmentMapBitmap s)" "length (segmentMapBitmap s) = 16"
  shows "\<exists>bm. map_free_loop h s = Some (s\<lparr>segmentMapBitmap := bm\<rparr>) \<and> bm_used bm = bm_used (segmentMapBitmap s) - set xs \<and> length bm = 16"
  using assms
proof (induction xs arbitrary: h s)
  case Nil
  then show ?case by (intro exI [of _ "segmentMapBitmap s"], subst map_free_loop.simps) simp
next
  case (Cons x xs)
  then have x: "x \<in> bm_used (segmentMapBitmap s)" "x \<notin> set xs" "h = Some x" using map_chain_distinct [OF Cons.prems(1)] by auto
  obtain bm where bm: "bitmap_free x (segmentMapBitmap s) = Some bm" "bm_used bm = bm_used (segmentMapBitmap s) - {x}" "length bm = 16"
    using bitmap_free_Some [OF bm_used_bound [OF x(1)]] Cons.prems(3) by auto
  let ?s = "s\<lparr>segmentMapBitmap := bm\<rparr>"
  obtain bm' where "map_free_loop (psm_next (segmentMaps s x)) ?s = Some (?s\<lparr>segmentMapBitmap := bm'\<rparr>)"
    "bm_used bm' = bm_used bm - set xs" "length bm' = 16"
    using Cons.IH [of ?s "psm_next (segmentMaps s x)"] Cons.prems bm x by auto
  moreover have "map_free_loop h s = map_free_loop (psm_next (segmentMaps s x)) ?s"
    using bm x by (subst map_free_loop.simps) (simp add: segmentMapFree_def)
  ultimately show ?case using bm by (intro exI [of _ bm']) auto
qed

section \<open>Properties\<close>

text \<open>
  C27: \<^verbatim>\<open>processMapFree\<close> of a process whose list of maps is well formed comes back: it frees exactly the maps
  of the list, leaves the process without maps, and changes nothing else.
\<close>

theorem processMapFree_ends:
  assumes "maps_ok p xs s"
  shows "\<exists>bm. processMapFree p s = Some (upd_process p (\<lambda>x. x\<lparr>segmentMapHead := None\<rparr>) (s\<lparr>segmentMapBitmap := bm\<rparr>))
    \<and> bm_used bm = bm_used (segmentMapBitmap s) - set xs \<and> distinct xs"
  using map_free_loop_run [of s "segmentMapHead (processes s p)" xs] map_chain_distinct assms
  by (auto simp: processMapFree_def maps_ok_def)

definition one_map :: kproc where
  "one_map = zero_kproc\<lparr>segmentMapBitmap := 32 # replicate 15 0, processes := (\<lambda>_. zero_process\<lparr>segmentMapHead := Some 5\<rparr>),
     segmentMaps := (\<lambda>i. (segmentMaps zero_kproc i)\<lparr>psm_next := None\<rparr>)\<rparr>"

lemma one_map_ok: "maps_ok 3 [5] one_map"
proof -
  have "5 \<in> bm_used (32 # replicate 15 0)" by (simp add: bm_used_def bit_iff_odd)
  then show ?thesis by (simp add: maps_ok_def one_map_def)
qed

theorem processMapFree_ends_witness: "\<exists>t. processMapFree 3 one_map = Some t \<and> segmentMapHead (processes t 3) = None"
proof -
  obtain bm where "processMapFree 3 one_map = Some (upd_process 3 (\<lambda>x. x\<lparr>segmentMapHead := None\<rparr>) (one_map\<lparr>segmentMapBitmap := bm\<rparr>))"
    using processMapFree_ends [OF one_map_ok] by blast
  then show ?thesis by simp
qed

end
