(* ===== verification/Copy_On_Write.thy ===== *)
theory Copy_On_Write
  imports User_Memory
begin

text \<open>
  What \<^verbatim>\<open>cowHandler\<close> of \<^verbatim>\<open>src/kernel/memory/Page.c\<close> does to a page that a fork left shared: it gives the process
  a copy of its own, and the page of the other process stays as it is.
\<close>

section \<open>Entries and the words that hold them\<close>

lemma entry_word:
  assumes "pt_entry c r i j k \<noteq> 0"
  shows "\<exists>lf. node_page c r (Leaf i j) = Some lf \<and> c lf k = pt_entry c r i j k"
  using assms by (auto simp: pt_entry_def simp del: node_page.simps split: option.splits)

lemma lookup_word:
  assumes ok: "table_ok (pcells s) r F" and e: "uentry s r va = e" "e AND PTE_VALID \<noteq> 0"
  shows "\<exists>lf. lf \<in> tables (pcells s) r \<and> lf < PHYSICAL_PAGE_NUM
    \<and> pageLookup (page2pa r) va s = (PTE2PA e, Some (page2pa lf + 8 * of_nat (ix va 0))) \<and> pcells s lf (ix va 0) = e"
proof -
  let ?i = "ix va 2" and ?j = "ix va 1" and ?k = "ix va 0"
  have "e \<noteq> 0" using e by auto
  then obtain lf where lf: "node_page (pcells s) r (Leaf ?i ?j) = Some lf" "pcells s lf ?k = e"
    using entry_word [of "pcells s" r ?i ?j ?k] e by (auto simp: uentry_def)
  have v: "valid_node (Leaf ?i ?j)" using ix_less by simp
  have "lf \<in> tables (pcells s) r" unfolding tables_def using lf v by blast
  moreover have "lf < PHYSICAL_PAGE_NUM" by (rule table_okD(1) [OF ok v lf(1)])
  moreover have "pageLookup (page2pa r) va s = (PTE2PA e, Some (page2pa lf + 8 * of_nat ?k))"
    using e lf by (simp add: pageLookup_eq [OF ok] uentry_def Let_def del: node_page.simps)
  ultimately show ?thesis using lf by blast
qed

section \<open>The permissions of the copy\<close>

definition cow_perm :: "u64 \<Rightarrow> u64" where
  "cow_perm e = (PTE2PERM e OR PTE_WRITE) AND NOT PTE_COW"

lemma perm_only_PTE2PERM: "perm_only (PTE2PERM e)"
  unfolding perm_only_def by (rule bit_word_eqI) (auto simp: bit_PTE2PERM)

lemma perm_only_and: "perm_only a \<Longrightarrow> perm_only (a AND b)"
  unfolding perm_only_def by (auto simp: bit_eq_iff bit_PTE2PERM bit_and_iff)

lemma cow_perm_only: "perm_only (cow_perm e)"
  unfolding cow_perm_def by (intro perm_only_and perm_only_or perm_only_PTE2PERM perm_only_numeral)

lemma cow_entry_writable: "new_entry pa (cow_perm e) AND PTE_WRITE \<noteq> 0" "new_entry pa (cow_perm e) AND PTE_COW = 0"
proof -
  have *: "x AND 4 = 0 \<longleftrightarrow> \<not> bit x 2" "x AND 256 = 0 \<longleftrightarrow> \<not> bit x 8" for x :: u64
    using and_exp_eq_0_iff_not_bit [of x 2] and_exp_eq_0_iff_not_bit [of x 8] by simp_all
  have b: "bit (4 :: u64) 2" "\<not> bit (256 :: u64) 2" "bit (256 :: u64) 8" "\<not> bit (0xC0 :: u64) 8" "\<not> bit (1 :: u64) 8"
    by code_simp+
  show "new_entry pa (cow_perm e) AND PTE_WRITE \<noteq> 0" "new_entry pa (cow_perm e) AND PTE_COW = 0"
    unfolding * new_entry_def cow_perm_def using b by (auto simp: bit_or_iff bit_and_iff bit_not_iff bit_PA2PTE)
qed

section \<open>The copy\<close>

lemma alloc_ref: "pt_inv s r (q # F) \<Longrightarrow> pageAlloc s = Some (q, t) \<Longrightarrow> page_ref t = page_ref s"
  using pageAlloc_Cons [OF pt_invD(1), of s r q F] by auto

lemma distinct_pages:
  assumes "p < PHYSICAL_PAGE_NUM" "q < PHYSICAL_PAGE_NUM" "p \<noteq> q" "in_range a (page2pa p) 4096"
  shows "\<not> in_range a (page2pa q) 4096"
  using assms by (auto simp: in_page_iff)

lemma page_bcopy:
  assumes "p < PHYSICAL_PAGE_NUM" "q < PHYSICAL_PAGE_NUM" "p \<noteq> q"
  shows "bcopy m (page2pa p) (page2pa q) 4096 = copied m (page2pa q) (page2pa p) 4096"
proof -
  have "\<not> in_range (page2pa q) (page2pa p) 4096"
    using assms unat_page2pa [OF assms(2)] by (auto simp: in_page_iff)
  then show ?thesis
    using assms unat_page2pa [OF assms(1)] by (subst bcopy_eq) (auto simp: in_range_def not_less)
qed

text \<open>Filling a page that is neither a table nor free does not disturb the map.\<close>

lemma fill_page_inv:
  assumes inv: "pt_inv s r F" and q: "q < PHYSICAL_PAGE_NUM" "q \<notin> tables (pcells s) r"
    and m: "\<forall>a. \<not> in_range a (page2pa q) 4096 \<longrightarrow> m a = mem s a"
  shows "pt_inv (s\<lparr>mem := m\<rparr>) r F" "tables (pcells (s\<lparr>mem := m\<rparr>)) r = tables (pcells s) r"
    "a < 512 \<Longrightarrow> b < 512 \<Longrightarrow> k < 512 \<Longrightarrow> entry_at (s\<lparr>mem := m\<rparr>) r a b k = entry_at s r a b k"
    "p \<in> tables (pcells s) r \<Longrightarrow> k < 512 \<Longrightarrow> pcells (s\<lparr>mem := m\<rparr>) p k = pcells s p k"
proof -
  have N: "p < PHYSICAL_PAGE_NUM" if "p \<in> tables (pcells s) r" for p
    using that table_okD(1) [OF pt_invD(2) [OF inv]] by (auto simp: tables_def)
  have eq: "mem (s\<lparr>mem := m\<rparr>) a = mem s a" if "p \<in> tables (pcells s) r" "in_range a (page2pa p) 4096" for a p
    using distinct_pages [OF N [OF that(1)] q(1) _ that(2)] that q(2) m by auto
  note C = pt_inv_cong [OF inv, of "s\<lparr>mem := m\<rparr>", OF _ _ eq]
  show "pt_inv (s\<lparr>mem := m\<rparr>) r F" "tables (pcells (s\<lparr>mem := m\<rparr>)) r = tables (pcells s) r"
    "a < 512 \<Longrightarrow> b < 512 \<Longrightarrow> k < 512 \<Longrightarrow> entry_at (s\<lparr>mem := m\<rparr>) r a b k = entry_at s r a b k"
    using C by simp_all
  show "pcells (s\<lparr>mem := m\<rparr>) p k = pcells s p k" if "p \<in> tables (pcells s) r" "k < 512"
    using cells_cong [OF N [OF that(1)] that(2), of "mem (s\<lparr>mem := m\<rparr>)" "mem s"] eq [OF that(1)] by simp
qed

text \<open>
  The state in front of the \<^verbatim>\<open>pageInsert\<close> of \<^verbatim>\<open>cowHandler\<close>: the first free page holds a copy of the shared
  one, and the table is as before.
\<close>

lemma cow_copied:
  assumes inv: "pt_inv s r (q # F)" and p: "p < PHYSICAL_PAGE_NUM" "p \<noteq> q" "p \<notin> tables (pcells s) r"
  shows "\<exists>s1. pageAlloc s = Some (q, s1) \<and> pt_inv s1 r F \<and> tables (pcells s1) r = tables (pcells s) r
    \<and> (\<forall>a < 512. \<forall>b < 512. \<forall>k < 512. entry_at s1 r a b k = entry_at s r a b k) \<and> only_mem s s1
    \<and> (\<forall>s2. s2 = s1\<lparr>mem := bcopy (mem s1) (page2pa p) (page2pa q) 4096\<rparr> \<longrightarrow>
        pt_inv s2 r F \<and> insertable s2 r F va q \<and> page_ref s2 = page_ref s \<and> tables (pcells s2) r = tables (pcells s) r
        \<and> (\<forall>a < 512. \<forall>b < 512. \<forall>k < 512. entry_at s2 r a b k = entry_at s r a b k)
        \<and> (\<forall>x \<in> tables (pcells s) r. \<forall>k < 512. pcells s2 x k = pcells s1 x k)
        \<and> (\<forall>a. mem s2 a = (if in_range a (page2pa q) 4096 then mem s (page2pa p + (a - page2pa q)) else mem s a)))"
proof -
  obtain s1 where 1: "pageAlloc s = Some (q, s1)" "pt_inv s1 r F" "insertable s1 r F va q" "only_mem s s1"
    "tables (pcells s1) r = tables (pcells s) r" "\<forall>a < 512. \<forall>b < 512. \<forall>k < 512. entry_at s1 r a b k = entry_at s r a b k"
    "\<forall>a. \<not> in_range a (page2pa q) 4096 \<longrightarrow> mem s1 a = mem s a"
    using pageAlloc_insertable [OF inv, of va] by (elim exE conjE) (rule that)
  have q: "q < PHYSICAL_PAGE_NUM" "q \<notin> tables (pcells s1) r" using 1(3) by (auto simp: insertable_def)
  have ref: "page_ref s1 = page_ref s" by (rule alloc_ref [OF inv 1(1)])
  define s2 where "s2 = s1\<lparr>mem := bcopy (mem s1) (page2pa p) (page2pa q) 4096\<rparr>"
  have src: "mem s1 (page2pa p + (a - page2pa q)) = mem s (page2pa p + (a - page2pa q))" if "in_range a (page2pa q) 4096" for a
  proof -
    have "in_range (page2pa p + (a - page2pa q)) (page2pa p) 4096" using that by (simp add: in_range_def)
    then show ?thesis using distinct_pages [OF p(1) q(1) p(2)] 1(7) by blast
  qed
  have m2: "mem s2 a = (if in_range a (page2pa q) 4096 then mem s (page2pa p + (a - page2pa q)) else mem s a)" for a
    using src 1(7) by (simp add: s2_def page_bcopy [OF p(1) q(1) p(2)] copied_def)
  have out: "\<forall>a. \<not> in_range a (page2pa q) 4096 \<longrightarrow> bcopy (mem s1) (page2pa p) (page2pa q) 4096 a = mem s1 a"
    by (simp add: page_bcopy [OF p(1) q(1) p(2)] copied_def)
  note C = fill_page_inv [OF 1(2) q out, folded s2_def]
  have "maps s2 r x = maps s1 r x" for x using C(3) by (auto simp: maps_def)
  then have "insertable s2 r F va q" using 1(3) C(2) by (simp add: insertable_def s2_def)
  moreover have "page_ref s2 = page_ref s" using ref by (simp add: s2_def)
  ultimately show ?thesis
    using 1 C m2 by (intro exI [of _ s1]) (simp add: s2_def [symmetric])
qed

lemma cowHandler_run:
  assumes inv: "pt_inv s r (q # F)" and len: "2 \<le> length F"
    and e: "uentry s r va = e" "e AND PTE_VALID \<noteq> 0" "e AND PTE_COW \<noteq> 0"
    and p: "PTE2PA e = page2pa p" "p < PHYSICAL_PAGE_NUM" "p \<noteq> q" "p \<notin> tables (pcells s) r"
  shows "\<exists>t F'. cowHandler (page2pa r) va s = Some (page2pa q + (va AND 0xFFF), t) \<and> pt_inv t r F'
    \<and> (\<forall>a < 512. \<forall>b < 512. \<forall>k < 512. entry_at t r a b k =
         (if a = ix va 2 \<and> b = ix va 1 \<and> k = ix va 0 then new_entry (page2pa q) (cow_perm e) else entry_at s r a b k))
    \<and> (\<forall>a. (\<forall>x \<in> tables (pcells t) r. \<not> in_range a (page2pa x) 4096) \<longrightarrow>
         mem t a = (if in_range a (page2pa q) 4096 then mem s (page2pa p + (a - page2pa q)) else mem s a))
    \<and> tables (pcells t) r \<subseteq> tables (pcells s) r \<union> set F \<union> {x. page_ref s x = 1 \<and> (ix va 2, ix va 1, ix va 0) \<in> maps s r x}"
proof -
  let ?i = "ix va 2" and ?j = "ix va 1" and ?k = "ix va 0"
  have ix: "?i < 512" "?j < 512" "?k < 512" by (rule ix_less)+
  obtain s1 where 1: "pageAlloc s = Some (q, s1)" "pt_inv s1 r F" "tables (pcells s1) r = tables (pcells s) r"
    "\<forall>a < 512. \<forall>b < 512. \<forall>k < 512. entry_at s1 r a b k = entry_at s r a b k"
    and all: "\<forall>s2. s2 = s1\<lparr>mem := bcopy (mem s1) (page2pa p) (page2pa q) 4096\<rparr> \<longrightarrow>
        pt_inv s2 r F \<and> insertable s2 r F va q \<and> page_ref s2 = page_ref s \<and> tables (pcells s2) r = tables (pcells s) r
        \<and> (\<forall>a < 512. \<forall>b < 512. \<forall>k < 512. entry_at s2 r a b k = entry_at s r a b k)
        \<and> (\<forall>x \<in> tables (pcells s) r. \<forall>k < 512. pcells s2 x k = pcells s1 x k)
        \<and> (\<forall>a. mem s2 a = (if in_range a (page2pa q) 4096 then mem s (page2pa p + (a - page2pa q)) else mem s a))"
    using cow_copied [OF inv p(2-4), of va] by (elim exE conjE) (rule that)
  define s2 where "s2 = s1\<lparr>mem := bcopy (mem s1) (page2pa p) (page2pa q) 4096\<rparr>"
  note S2 = all [rule_format, OF s2_def]
  have q: "q < PHYSICAL_PAGE_NUM" using S2 by (simp add: insertable_def)
  have pa: "unat (page2pa q) < 2 ^ 56" using unat_page2pa [OF q] q by simp
  have e1: "uentry s1 r va = e" using 1(4) ix e(1) by (simp add: uentry_def)
  obtain lf where lf: "pageLookup (page2pa r) va s = (PTE2PA e, Some (page2pa lf + 8 * of_nat ?k))" "pcells s lf ?k = e"
    using lookup_word [OF pt_invD(2) [OF inv] e(1,2)] by blast
  obtain lg where lg: "lg \<in> tables (pcells s1) r" "pageLookup (page2pa r) va s1 = (PTE2PA e, Some (page2pa lg + 8 * of_nat ?k))"
    "pcells s1 lg ?k = e"
    using lookup_word [OF pt_invD(2) [OF 1(2)] e1 e(2)] by blast
  have "load64 (mem s2) (page2pa lg + 8 * of_nat ?k) = e"
    using S2 lg 1(3) ix by (simp add: cells_def)
  then have e2: "load64 (bcopy (mem s1) (page2pa p) (page2pa q) 4096) (page2pa lg + 8 * of_nat ?k) = e" by (simp add: s2_def)
  obtain t F' where t: "pageInsert (page2pa r) va (page2pa q) (cow_perm e) s2 = Some (0, t)" "pt_inv t r F'"
    "\<forall>a < 512. \<forall>b < 512. \<forall>k < 512. entry_at t r a b k =
       (if a = ?i \<and> b = ?j \<and> k = ?k then new_entry (page2pa q) (cow_perm e) else entry_at s2 r a b k)"
    "\<forall>a. (\<forall>p \<in> tables (pcells t) r. \<not> in_range a (page2pa p) 4096) \<longrightarrow> mem t a = mem s2 a"
    "tables (pcells t) r \<subseteq> tables (pcells s2) r \<union> set F \<union> {p. page_ref s2 p = 1 \<and> (?i, ?j, ?k) \<in> maps s2 r p}"
    using pageInsert_spec [OF conjunct1 [OF S2] len cow_perm_only pa _ DOWN_ALIGN_page2pa [OF q], of va e] S2
    by (elim exE conjE impE) (auto intro: that)
  have run: "cowHandler (page2pa r) va s = Some (page2pa q + (va AND 0xFFF), t)"
    using lf e(3) p(1) 1(1) lg t(1) e2
    by (simp add: cowHandler_def cells_def Let_def s2_def [symmetric] cow_perm_def)
  have "maps s2 r x = maps s r x" for x using S2 by (auto simp: maps_def)
  then show ?thesis
    using run t S2 by (intro exI [of _ t] exI [of _ F']) simp
qed

lemma outside_page:
  assumes inv: "pt_inv t r F" and p: "p < PHYSICAL_PAGE_NUM" "p \<notin> tables (pcells t) r" and i: "i < 4096"
  shows "\<forall>x \<in> tables (pcells t) r. \<not> in_range (page2pa p + of_nat i) (page2pa x) 4096"
proof
  fix x assume x: "x \<in> tables (pcells t) r"
  then have "x < PHYSICAL_PAGE_NUM" using table_okD(1) [OF pt_invD(2) [OF inv]] by (auto simp: tables_def)
  then show "\<not> in_range (page2pa p + of_nat i) (page2pa x) 4096"
    using distinct_pages [OF p(1), of x] x p(2) in_range_of_nat [OF i, of "page2pa p"] by auto
qed

lemma cowHandler_spec:
  assumes "pt_inv s r (q # F)" and "2 \<le> length F" and "uentry s r va = e" and "e AND PTE_VALID \<noteq> 0" and "e AND PTE_COW \<noteq> 0"
    and "PTE2PA e = page2pa p" and "p < PHYSICAL_PAGE_NUM"
  shows "\<exists>t F'. cowHandler (page2pa r) va s = Some (upa t r va, t) \<and> pt_inv t r F'
    \<and> uentry t r va = new_entry (page2pa q) (cow_perm e) \<and> uentry t r va AND PTE_WRITE \<noteq> 0 \<and> uentry t r va AND PTE_COW = 0
    \<and> PTE2PA (uentry t r va) = page2pa q
    \<and> (\<forall>i < 4096. mem t (page2pa q + of_nat i) = mem s (page2pa p + of_nat i))
    \<and> (\<forall>va'. (ix va' 2, ix va' 1, ix va' 0) \<noteq> (ix va 2, ix va 1, ix va 0) \<longrightarrow> uentry t r va' = uentry s r va')
    \<and> (page_ref s p \<noteq> 1 \<longrightarrow> (\<forall>i < 4096. mem t (page2pa p + of_nat i) = mem s (page2pa p + of_nat i)))"
proof -
  let ?i = "ix va 2" and ?j = "ix va 1" and ?k = "ix va 0"
  have pm: "(?i, ?j, ?k) \<in> maps s r p" using assms(3-6) ix_less by (auto simp: maps_def uentry_def)
  have pF: "p \<notin> set (q # F)" using pt_inv_free_unmapped [OF assms(1)] pm by blast
  have pT: "p \<notin> tables (pcells s) r" using pt_invD(5) [OF assms(1)] pm by blast
  have pq: "p \<noteq> q" using pF by auto
  have q: "q < PHYSICAL_PAGE_NUM" using pt_invD(1) [OF assms(1)] by (auto simp: free_ok_def)
  obtain t F' where t: "cowHandler (page2pa r) va s = Some (page2pa q + (va AND 0xFFF), t)" "pt_inv t r F'"
    "\<forall>a < 512. \<forall>b < 512. \<forall>k < 512. entry_at t r a b k =
       (if a = ?i \<and> b = ?j \<and> k = ?k then new_entry (page2pa q) (cow_perm e) else entry_at s r a b k)"
    and m: "\<And>a. (\<forall>x \<in> tables (pcells t) r. \<not> in_range a (page2pa x) 4096) \<Longrightarrow>
         mem t a = (if in_range a (page2pa q) 4096 then mem s (page2pa p + (a - page2pa q)) else mem s a)"
    and T: "tables (pcells t) r \<subseteq> tables (pcells s) r \<union> set F \<union> {x. page_ref s x = 1 \<and> (?i, ?j, ?k) \<in> maps s r x}"
    using cowHandler_run [OF assms pq pT] by (elim exE conjE) (rule that; blast)
  have et: "uentry t r va = new_entry (page2pa q) (cow_perm e)" using t(3) ix_less by (simp add: uentry_def)
  have other: "uentry t r va' = uentry s r va'" if "(ix va' 2, ix va' 1, ix va' 0) \<noteq> (?i, ?j, ?k)" for va'
    using t(3) ix_less that by (auto simp: uentry_def)
  have pa: "PTE2PA (uentry t r va) = page2pa q"
    using PTE2PA_new_entry [OF _ cow_perm_only, of "page2pa q" e] unat_page2pa [OF q] q by (simp add: et)
  have "(?i, ?j, ?k) \<in> maps t r q"
    using et pa new_entry_valid [of "page2pa q" "cow_perm e"] ix_less by (simp add: maps_def uentry_def)
  then have qT: "q \<notin> tables (pcells t) r" using pt_invD(5) [OF t(2)] by blast
  have copy: "mem t (page2pa q + of_nat i) = mem s (page2pa p + of_nat i)" if "i < 4096" for i
    using m [OF outside_page [OF t(2) q qT that]] in_range_of_nat [OF that, of "page2pa q"] by simp
  have old: "mem t (page2pa p + of_nat i) = mem s (page2pa p + of_nat i)" if "i < 4096" "page_ref s p \<noteq> 1" for i
  proof -
    have "p \<notin> tables (pcells t) r" using T pT pF that(2) by auto
    then show ?thesis
      using m [OF outside_page [OF t(2) assms(7) _ that(1)]] in_range_of_nat [OF that(1), of "page2pa p"]
        distinct_pages [OF assms(7) q pq] by simp
  qed
  have "cowHandler (page2pa r) va s = Some (upa t r va, t)" using t(1) pa by (simp add: upa_def)
  then show ?thesis
    using t(2) et cow_entry_writable [of "page2pa q" e] pa copy other old by (intro exI [of _ t] exI [of _ F'] conjI allI impI) simp_all
qed

text \<open>
  C4: On a page that is mapped copy-on-write \<^verbatim>\<open>cowHandler\<close> succeeds when a page for the copy is free: the
  process gets a writable page of its own, no longer copy-on-write, with the contents of the shared
  one and the other permissions as they were; the address it returns is that of the byte in the new
  page. No other translation changes, and as long as another mapping of the shared page is counted
  the shared page keeps its contents.
\<close>

theorem cowHandler_isolates:
  assumes "pt_inv s r (q # F)" and "2 \<le> length F" and "uentry s r va = e" and "e AND PTE_VALID \<noteq> 0" and "e AND PTE_COW \<noteq> 0"
    and "PTE2PA e = page2pa p" and "p < PHYSICAL_PAGE_NUM"
  shows "\<exists>t F'. cowHandler (page2pa r) va s = Some (upa t r va, t) \<and> pt_inv t r F'
    \<and> uentry t r va = new_entry (page2pa q) (cow_perm e) \<and> uentry t r va AND PTE_WRITE \<noteq> 0 \<and> uentry t r va AND PTE_COW = 0
    \<and> PTE2PA (uentry t r va) = page2pa q
    \<and> (\<forall>i < 4096. mem t (page2pa q + of_nat i) = mem s (page2pa p + of_nat i))
    \<and> (\<forall>va'. (ix va' 2, ix va' 1, ix va' 0) \<noteq> (ix va 2, ix va 1, ix va 0) \<longrightarrow> uentry t r va' = uentry s r va')
    \<and> (page_ref s p \<noteq> 1 \<longrightarrow> (\<forall>i < 4096. mem t (page2pa p + of_nat i) = mem s (page2pa p + of_nat i)))"
  using cowHandler_spec [OF assms] .

text \<open>An address space with one page that is copy-on-write.\<close>

definition cow_page :: kmem where
  "cow_page = snd (the (pageInsert (page2pa 0) 0x1000 (page2pa 20) (PTE_READ OR PTE_USER OR PTE_COW) (fresh_kmem [1, 2, 3, 4, 5, 6])))"

lemma cow_page_facts:
  "\<exists>q F. pt_inv cow_page 0 (q # F) \<and> 2 \<le> length F" (is ?A) and
  cow_page_entry: "uentry cow_page 0 0x1000 = new_entry (page2pa 20) 0x112" (is ?B)
proof -
  have pa: "unat (page2pa 20) < 2 ^ 56" using unat_page2pa [of 20] by simp
  have inv: "pt_inv (fresh_kmem [1, 2, 3, 4, 5, 6]) 0 [1, 2, 3, 4, 5, 6]" by (rule pt_inv_fresh) simp_all
  have perm: "perm_only (PTE_READ OR PTE_USER OR PTE_COW)" by (intro perm_only_or perm_only_numeral)
  obtain t F' where t: "pageInsert (page2pa 0) 0x1000 (page2pa 20) (PTE_READ OR PTE_USER OR PTE_COW) (fresh_kmem [1, 2, 3, 4, 5, 6]) = Some (0, t)"
    "pt_inv t 0 F'" "length [1 :: nat, 2, 3, 4, 5, 6] \<le> length F' + 2" "uentry t 0 0x1000 = new_entry (page2pa 20) 0x112"
    using pageInsert_spec [OF inv _ perm pa insertable_fresh [of 20], where va = "0x1000"] ix_less by (auto simp: uentry_def)
  from t(3) obtain q F where F: "F' = q # F" "2 \<le> length F" by (cases F') auto
  have c: "cow_page = t" using t(1) by (simp add: cow_page_def)
  show ?A using t(2) F unfolding c by blast
  show ?B using t(4) unfolding c .
qed

theorem cowHandler_isolates_witness:
  "\<exists>q t. cowHandler (page2pa 0) 0x1000 cow_page = Some (upa t 0 0x1000, t) \<and> uentry t 0 0x1000 AND PTE_WRITE \<noteq> 0
    \<and> (\<forall>i < 4096. mem t (page2pa q + of_nat i) = mem cow_page (page2pa 20 + of_nat i))"
proof -
  obtain q F where F: "pt_inv cow_page 0 (q # F)" "2 \<le> length F" using cow_page_facts by blast
  let ?e = "new_entry (page2pa 20) 0x112"
  have v: "?e AND PTE_VALID \<noteq> 0" "?e AND PTE_COW \<noteq> 0" by code_simp+
  have p: "PTE2PA ?e = page2pa 20"
    using PTE2PA_new_entry [of "page2pa 20" "0x112"] perm_only_or [OF perm_only_numeral(2) perm_only_or [OF perm_only_numeral(5,8)]]
      unat_page2pa [of 20] by simp
  show ?thesis
    using cowHandler_isolates [OF F cow_page_entry v p] by auto
qed

text \<open>The map of a state only depends on its memory, its counts and its free list.\<close>

lemma map_fields:
  assumes "mem t = mem s" "page_ref t = page_ref s" "page_links t = page_links s"
  shows "pt_inv t r F \<longleftrightarrow> pt_inv s r F" "uentry t r va = uentry s r va"
proof -
  have "maps t r p = maps s r p" for p by (simp add: maps_def assms)
  then show "pt_inv t r F \<longleftrightarrow> pt_inv s r F" by (simp add: pt_inv_def free_ok_def assms)
  show "uentry t r va = uentry s r va" by (simp add: uentry_def assms)
qed

end
