(* ===== verification/Trampoline.thy ===== *)
theory Trampoline
  imports Kernel_Types
begin

text \<open>
  The assembly between user code and the kernel and between two threads of the kernel:
  \<^verbatim>\<open>src/kernel/trap/Trampoline.S\<close>, \<^verbatim>\<open>src/kernel/trap/Sleep.S\<close> and \<^verbatim>\<open>src/kernel/trap/KernelVector.S\<close>, as
  lists of instructions with a small machine that runs them. The offsets are those of
  \<^verbatim>\<open>src/include/assembly/Trapframe.h\<close>. The trampoline and the trap frames are mapped at the same
  addresses in every page table, so a write of \<^verbatim>\<open>satp\<close> does not change what these instructions see.
\<close>

section \<open>The machine\<close>

datatype xreg =
  ra | sp | gp | tp | t0 | t1 | t2 | s0 | s1 | a0 | a1 | a2 | a3 | a4 | a5 | a6 | a7 | s2 | s3 | s4 | s5 |
  s6 | s7 | s8 | s9 | s10 | s11 | t3 | t4 | t5 | t6

datatype freg =
  ft0 | ft1 | ft2 | ft3 | ft4 | ft5 | ft6 | ft7 | fs0 | fs1 | fa0 | fa1 | fa2 | fa3 | fa4 | fa5 | fa6 |
  fa7 | fs2 | fs3 | fs4 | fs5 | fs6 | fs7 | fs8 | fs9 | fs10 | fs11 | ft8 | ft9 | ft10 | ft11

datatype csr = Sscratch | Sepc | Satp

record machine =
  xr :: "xreg \<Rightarrow> u64"
  fr :: "freg \<Rightarrow> u64"
  csrs :: "csr \<Rightarrow> u64"
  ram :: bytes
  pc :: u64

datatype instruction =
    SD xreg int xreg | LD xreg int xreg | FSD freg int xreg | FLD freg int xreg | ADDI xreg xreg int
  | CSRRW xreg csr xreg | CSRR xreg csr | CSRW csr xreg | SFENCE_VMA | JR xreg | SRET

text \<open>The address a base register and an offset give.\<close>

definition ea :: "u64 \<Rightarrow> int \<Rightarrow> u64" where
  "ea a i = a + word_of_int i"

text \<open>Only the jumps at the ends set \<open>pc\<close>.\<close>

fun step :: "instruction \<Rightarrow> machine \<Rightarrow> machine" where
  "step (SD r i b) m = m\<lparr>ram := store64 (ram m) (ea (xr m b) i) (xr m r)\<rparr>"
| "step (LD r i b) m = m\<lparr>xr := (xr m)(r := load64 (ram m) (ea (xr m b) i))\<rparr>"
| "step (FSD r i b) m = m\<lparr>ram := store64 (ram m) (ea (xr m b) i) (fr m r)\<rparr>"
| "step (FLD r i b) m = m\<lparr>fr := (fr m)(r := load64 (ram m) (ea (xr m b) i))\<rparr>"
| "step (ADDI r b i) m = m\<lparr>xr := (xr m)(r := ea (xr m b) i)\<rparr>"
| "step (CSRRW r c b) m = m\<lparr>xr := (xr m)(r := csrs m c), csrs := (csrs m)(c := xr m b)\<rparr>"
| "step (CSRR r c) m = m\<lparr>xr := (xr m)(r := csrs m c)\<rparr>"
| "step (CSRW c r) m = m\<lparr>csrs := (csrs m)(c := xr m r)\<rparr>"
| "step SFENCE_VMA m = m"
| "step (JR r) m = m\<lparr>pc := xr m r\<rparr>"
| "step SRET m = m\<lparr>pc := csrs m Sepc\<rparr>"

definition exec_asm :: "instruction list \<Rightarrow> machine \<Rightarrow> machine" where
  "exec_asm = fold step"

section \<open>The code\<close>

definition userVector :: "instruction list" where
  "userVector = [
     CSRRW a0 Sscratch a0, SD ra 40 a0, SD sp 48 a0, SD gp 56 a0, SD tp 64 a0, SD t0 72 a0, SD t1 80 a0,
     SD t2 88 a0, SD s0 96 a0, SD s1 104 a0, SD a1 120 a0, SD a2 128 a0, SD a3 136 a0, SD a4 144 a0,
     SD a5 152 a0, SD a6 160 a0, SD a7 168 a0, SD s2 176 a0, SD s3 184 a0, SD s4 192 a0, SD s5 200 a0,
     SD s6 208 a0, SD s7 216 a0, SD s8 224 a0, SD s9 232 a0, SD s10 240 a0, SD s11 248 a0, SD t3 256 a0,
     SD t4 264 a0, SD t5 272 a0, SD t6 280 a0, FSD ft0 288 a0, FSD ft1 296 a0, FSD ft2 304 a0, FSD ft3 312 a0,
     FSD ft4 320 a0, FSD ft5 328 a0, FSD ft6 336 a0, FSD ft7 344 a0, FSD fs0 352 a0, FSD fs1 360 a0,
     FSD fa0 368 a0, FSD fa1 376 a0, FSD fa2 384 a0, FSD fa3 392 a0, FSD fa4 400 a0, FSD fa5 408 a0,
     FSD fa6 416 a0, FSD fa7 424 a0, FSD fs2 432 a0, FSD fs3 440 a0, FSD fs4 448 a0, FSD fs5 456 a0,
     FSD fs6 464 a0, FSD fs7 472 a0, FSD fs8 480 a0, FSD fs9 488 a0, FSD fs10 496 a0, FSD fs11 504 a0,
     FSD ft8 512 a0, FSD ft9 520 a0, FSD ft10 528 a0, FSD ft11 536 a0, CSRR t0 Sscratch, SD t0 112 a0,
     LD sp 8 a0, LD tp 32 a0, LD t0 16 a0, CSRR t1 Sepc, SD t1 24 a0, LD t1 0 a0, CSRW Satp t1, SFENCE_VMA,
     JR t0]"

definition userReturn :: "instruction list" where
  "userReturn = [
     CSRW Satp a1, SFENCE_VMA, LD t0 112 a0, CSRW Sscratch t0, LD t1 24 a0, CSRW Sepc t1, LD ra 40 a0,
     LD sp 48 a0, LD gp 56 a0, LD tp 64 a0, LD t0 72 a0, LD t1 80 a0, LD t2 88 a0, LD s0 96 a0, LD s1 104 a0,
     LD a1 120 a0, LD a2 128 a0, LD a3 136 a0, LD a4 144 a0, LD a5 152 a0, LD a6 160 a0, LD a7 168 a0,
     LD s2 176 a0, LD s3 184 a0, LD s4 192 a0, LD s5 200 a0, LD s6 208 a0, LD s7 216 a0, LD s8 224 a0,
     LD s9 232 a0, LD s10 240 a0, LD s11 248 a0, LD t3 256 a0, LD t4 264 a0, LD t5 272 a0, LD t6 280 a0,
     FLD ft0 288 a0, FLD ft1 296 a0, FLD ft2 304 a0, FLD ft3 312 a0, FLD ft4 320 a0, FLD ft5 328 a0,
     FLD ft6 336 a0, FLD ft7 344 a0, FLD fs0 352 a0, FLD fs1 360 a0, FLD fa0 368 a0, FLD fa1 376 a0,
     FLD fa2 384 a0, FLD fa3 392 a0, FLD fa4 400 a0, FLD fa5 408 a0, FLD fa6 416 a0, FLD fa7 424 a0,
     FLD fs2 432 a0, FLD fs3 440 a0, FLD fs4 448 a0, FLD fs5 456 a0, FLD fs6 464 a0, FLD fs7 472 a0,
     FLD fs8 480 a0, FLD fs9 488 a0, FLD fs10 496 a0, FLD fs11 504 a0, FLD ft8 512 a0, FLD ft9 520 a0,
     FLD ft10 528 a0, FLD ft11 536 a0, CSRRW a0 Sscratch a0, SRET]"

text \<open>\<^verbatim>\<open>sleepSave\<close> up to its call of \<^verbatim>\<open>yield\<close>, and \<^verbatim>\<open>sleepRec\<close>, which returns to the caller of \<^verbatim>\<open>sleepSave\<close>.\<close>

definition sleepSave :: "instruction list" where
  "sleepSave = [
     SD ra (- 8) sp, SD gp (- 16) sp, SD s0 (- 32) sp, SD s1 (- 40) sp, SD s2 (- 48) sp, SD s3 (- 56) sp,
     SD s4 (- 64) sp, SD s5 (- 72) sp, SD s6 (- 80) sp, SD s7 (- 88) sp, SD s8 (- 96) sp, SD s9 (- 104) sp,
     SD s10 (- 112) sp, SD s11 (- 120) sp, SD a0 (- 128) sp, SD a1 (- 136) sp, SD a2 (- 144) sp,
     SD a3 (- 152) sp, SD a4 (- 160) sp, SD a5 (- 168) sp, SD a6 (- 176) sp, SD a7 (- 184) sp,
     ADDI sp sp (- 184)]"

definition sleepRec :: "instruction list" where
  "sleepRec = [
     LD ra (- 8) sp, LD gp (- 16) sp, LD s0 (- 32) sp, LD s1 (- 40) sp, LD s2 (- 48) sp, LD s3 (- 56) sp,
     LD s4 (- 64) sp, LD s5 (- 72) sp, LD s6 (- 80) sp, LD s7 (- 88) sp, LD s8 (- 96) sp, LD s9 (- 104) sp,
     LD s10 (- 112) sp, LD s11 (- 120) sp, LD a0 (- 128) sp, LD a1 (- 136) sp, LD a2 (- 144) sp,
     LD a3 (- 152) sp, LD a4 (- 160) sp, LD a5 (- 168) sp, LD a6 (- 176) sp, LD a7 (- 184) sp, JR ra]"

text \<open>\<^verbatim>\<open>kernelVector\<close> before and after its call of \<^verbatim>\<open>kernelTrap\<close>.\<close>

definition kernelVector_enter :: "instruction list" where
  "kernelVector_enter = [
     ADDI sp sp (- 256), SD ra 0 sp, SD sp 8 sp, SD gp 16 sp, SD tp 24 sp, SD t0 32 sp, SD t1 40 sp,
     SD t2 48 sp, SD s0 56 sp, SD s1 64 sp, SD a0 72 sp, SD a1 80 sp, SD a2 88 sp, SD a3 96 sp, SD a4 104 sp,
     SD a5 112 sp, SD a6 120 sp, SD a7 128 sp, SD s2 136 sp, SD s3 144 sp, SD s4 152 sp, SD s5 160 sp,
     SD s6 168 sp, SD s7 176 sp, SD s8 184 sp, SD s9 192 sp, SD s10 200 sp, SD s11 208 sp, SD t3 216 sp,
     SD t4 224 sp, SD t5 232 sp, SD t6 240 sp]"

definition kernelVector_leave :: "instruction list" where
  "kernelVector_leave = [
     LD ra 0 sp, LD sp 8 sp, LD gp 16 sp, LD t0 32 sp, LD t1 40 sp, LD t2 48 sp, LD s0 56 sp, LD s1 64 sp,
     LD a0 72 sp, LD a1 80 sp, LD a2 88 sp, LD a3 96 sp, LD a4 104 sp, LD a5 112 sp, LD a6 120 sp,
     LD a7 128 sp, LD s2 136 sp, LD s3 144 sp, LD s4 152 sp, LD s5 160 sp, LD s6 168 sp, LD s7 176 sp,
     LD s8 184 sp, LD s9 192 sp, LD s10 200 sp, LD s11 208 sp, LD t3 216 sp, LD t4 224 sp, LD t5 232 sp,
     LD t6 240 sp, ADDI sp sp 256, SRET]"

section \<open>Runs of stores and loads\<close>

text \<open>Offsets of words of 8 bytes close to a base.\<close>

definition word_offset :: "int \<Rightarrow> bool" where
  "word_offset i \<longleftrightarrow> i mod 8 = 0 \<and> - 4096 \<le> i \<and> i < 4096"

lemma ea_apart:
  assumes "word_offset i" "word_offset j" "i \<noteq> j"
  shows "apart (ea a i) 8 (ea a j) 8"
proof -
  have *: "8 \<le> unat (word_of_int d :: u64)" if "d mod 8 = 0" "d \<noteq> 0" "- 8192 < d" "d < 8192" for d
  proof -
    have "8 \<le> d mod 2 ^ 64"
    proof (cases "d > 0")
      case True
      then show ?thesis using that by (simp add: mod_pos_pos_trivial) presburger
    next
      case False
      then have "d mod 2 ^ 64 = d + 2 ^ 64" using that by (intro int_mod_pos_eq [of _ _ "- 1"]) auto
      then show ?thesis using that by simp
    qed
    then show ?thesis
      by (simp add: unat_eq_nat_uint uint_word_of_int nat_le_iff)
  qed
  have "ea a j - ea a i = word_of_int (j - i)" "ea a i - ea a j = word_of_int (i - j)"
    by (simp_all add: ea_def)
  moreover have "8 \<le> unat (word_of_int (j - i) :: u64)" "8 \<le> unat (word_of_int (i - j) :: u64)"
    using assms by (auto simp: word_offset_def simp del: of_int_diff intro!: *)
  ultimately show ?thesis
    by (simp add: apart_def)
qed

primrec put_words :: "u64 \<Rightarrow> (int \<times> u64) list \<Rightarrow> bytes \<Rightarrow> bytes" where
  "put_words a [] M = M"
| "put_words a (x # xs) M = put_words a xs (store64 M (ea a (fst x)) (snd x))"

lemma load_put_words:
  assumes "distinct (map fst xs)" "\<forall>i \<in> set (map fst xs). word_offset i" "word_offset j"
  shows "load64 (put_words a xs M) (ea a j) = (case map_of xs j of None \<Rightarrow> load64 M (ea a j) | Some v \<Rightarrow> v)"
  using assms
proof (induction xs arbitrary: M)
  case (Cons x xs)
  then show ?case
    using map_of_eq_None_iff [of xs "fst x"]
    by (cases "fst x = j") (auto simp: load64_store64_apart ea_apart split: option.splits)
qed simp

lemma put_words_other:
  assumes "\<forall>i \<in> set (map fst xs). \<not> in_range b (ea a i) 8"
  shows "put_words a xs M b = M b"
  using assms by (induction xs arbitrary: M) (auto simp: store64_other)

definition saves :: "xreg \<Rightarrow> (xreg \<times> int) list \<Rightarrow> instruction list" where
  "saves b = map (\<lambda>(r, i). SD r i b)"

definition fsaves :: "xreg \<Rightarrow> (freg \<times> int) list \<Rightarrow> instruction list" where
  "fsaves b = map (\<lambda>(r, i). FSD r i b)"

definition loads :: "xreg \<Rightarrow> (xreg \<times> int) list \<Rightarrow> instruction list" where
  "loads b = map (\<lambda>(r, i). LD r i b)"

definition floads :: "xreg \<Rightarrow> (freg \<times> int) list \<Rightarrow> instruction list" where
  "floads b = map (\<lambda>(r, i). FLD r i b)"

lemma exec_asm_append: "exec_asm (p @ q) m = exec_asm q (exec_asm p m)"
  by (simp add: exec_asm_def)

lemma exec_asm_simps:
  "exec_asm [] m = m"
  "exec_asm (i # p) m = exec_asm p (step i m)"
  by (simp_all add: exec_asm_def)

lemma exec_saves: "exec_asm (saves b rs) m = m\<lparr>ram := put_words (xr m b) (map (\<lambda>(r, i). (i, xr m r)) rs) (ram m)\<rparr>"
  by (induction rs arbitrary: m) (auto simp: saves_def exec_asm_simps)

lemma exec_fsaves: "exec_asm (fsaves b rs) m = m\<lparr>ram := put_words (xr m b) (map (\<lambda>(r, i). (i, fr m r)) rs) (ram m)\<rparr>"
  by (induction rs arbitrary: m) (auto simp: fsaves_def exec_asm_simps)

definition loaded_from :: "bytes \<Rightarrow> u64 \<Rightarrow> ('r \<times> int) list \<Rightarrow> ('r \<Rightarrow> u64) \<Rightarrow> 'r \<Rightarrow> u64" where
  "loaded_from M a rs f r = (case map_of rs r of None \<Rightarrow> f r | Some i \<Rightarrow> load64 M (ea a i))"

lemma exec_loads:
  assumes "distinct (map fst rs)" "b \<notin> fst ` set rs"
  shows "exec_asm (loads b rs) m = m\<lparr>xr := loaded_from (ram m) (xr m b) rs (xr m)\<rparr>"
  using assms
proof (induction rs arbitrary: m)
  case Nil
  then show ?case by (simp add: loads_def exec_asm_simps loaded_from_def)
next
  case (Cons x rs)
  obtain r i where x: "x = (r, i)" by (cases x)
  have "map_of rs r = None" using Cons.prems x by (simp add: map_of_eq_None_iff)
  then show ?case
    using Cons x by (auto simp: loads_def exec_asm_simps loaded_from_def fun_eq_iff split: option.splits)
qed

lemma exec_floads:
  assumes "distinct (map fst rs)"
  shows "exec_asm (floads b rs) m = m\<lparr>fr := loaded_from (ram m) (xr m b) rs (fr m)\<rparr>"
  using assms
proof (induction rs arbitrary: m)
  case Nil
  then show ?case by (simp add: floads_def exec_asm_simps loaded_from_def)
next
  case (Cons x rs)
  obtain r i where x: "x = (r, i)" by (cases x)
  have "map_of rs r = None" using Cons.prems x by (simp add: map_of_eq_None_iff)
  then show ?case
    using Cons x by (auto simp: floads_def exec_asm_simps loaded_from_def fun_eq_iff split: option.splits)
qed

section \<open>Traps from user mode\<close>

text \<open>The places of the registers in a trap frame.\<close>

definition frame_x :: "(xreg \<times> int) list" where
  "frame_x = [
     (ra, 40), (sp, 48), (gp, 56), (tp, 64), (t0, 72), (t1, 80), (t2, 88), (s0, 96), (s1, 104), (a1, 120),
     (a2, 128), (a3, 136), (a4, 144), (a5, 152), (a6, 160), (a7, 168), (s2, 176), (s3, 184), (s4, 192),
     (s5, 200), (s6, 208), (s7, 216), (s8, 224), (s9, 232), (s10, 240), (s11, 248), (t3, 256), (t4, 264),
     (t5, 272), (t6, 280)]"

definition frame_f :: "(freg \<times> int) list" where
  "frame_f = [
     (ft0, 288), (ft1, 296), (ft2, 304), (ft3, 312), (ft4, 320), (ft5, 328), (ft6, 336), (ft7, 344),
     (fs0, 352), (fs1, 360), (fa0, 368), (fa1, 376), (fa2, 384), (fa3, 392), (fa4, 400), (fa5, 408),
     (fa6, 416), (fa7, 424), (fs2, 432), (fs3, 440), (fs4, 448), (fs5, 456), (fs6, 464), (fs7, 472),
     (fs8, 480), (fs9, 488), (fs10, 496), (fs11, 504), (ft8, 512), (ft9, 520), (ft10, 528), (ft11, 536)]"

lemma userVector_parts: "userVector = CSRRW a0 Sscratch a0 # saves a0 frame_x @ fsaves a0 frame_f @
    [CSRR t0 Sscratch, SD t0 112 a0, LD sp 8 a0, LD tp 32 a0, LD t0 16 a0, CSRR t1 Sepc, SD t1 24 a0, LD t1 0 a0,
     CSRW Satp t1, SFENCE_VMA, JR t0]"
  by (simp add: userVector_def saves_def fsaves_def frame_x_def frame_f_def)

lemma userReturn_parts: "userReturn = [CSRW Satp a1, SFENCE_VMA, LD t0 112 a0, CSRW Sscratch t0, LD t1 24 a0, CSRW Sepc t1]
    @ loads a0 frame_x @ floads a0 frame_f @ [CSRRW a0 Sscratch a0, SRET]"
  by (simp add: userReturn_def loads_def floads_def frame_x_def frame_f_def)

text \<open>The trap frame at an address, by the index of its words.\<close>

definition frame_of :: "bytes \<Rightarrow> u64 \<Rightarrow> nat \<Rightarrow> u64" where
  "frame_of M a k = load64 M (ea a (8 * int k))"

definition frame_words :: "machine \<Rightarrow> (int \<times> u64) list" where
  "frame_words m = map (\<lambda>(r, i). (i, xr m r)) frame_x @ map (\<lambda>(r, i). (i, fr m r)) frame_f
     @ [(112, xr m a0), (24, csrs m Sepc)]"

lemma put_words_append: "put_words a (xs @ ys) M = put_words a ys (put_words a xs M)"
  by (induction xs arbitrary: M) auto

lemma frame_words_ok: "distinct (map fst (frame_words m))" "\<forall>i \<in> set (map fst (frame_words m)). word_offset i"
  by (simp_all add: frame_words_def frame_x_def frame_f_def word_offset_def)

lemma load_frame_words: "word_offset j \<Longrightarrow>
    load64 (put_words a (frame_words m) M) (ea a j) = (case map_of (frame_words m) j of None \<Rightarrow> load64 M (ea a j) | Some v \<Rightarrow> v)"
  by (rule load_put_words [OF frame_words_ok])

lemma saved_x: "map (\<lambda>(r, i). (i, if r = a0 then v else xr m r)) frame_x = map (\<lambda>(r, i). (i, xr m r)) frame_x"
  by (simp add: frame_x_def)

lemma saved_ok: "word_offset 112" "word_offset 24" "word_offset 0" "word_offset 8" "word_offset 16" "word_offset 32"
  by (simp_all add: word_offset_def)

text \<open>The words for the kernel are not overwritten.\<close>

lemma kernel_words:
  fixes m :: machine
  assumes "j \<in> {0, 8, 16, 32}"
  shows "load64 (put_words a (map (\<lambda>(r, i). (i, fr m r)) frame_f) (put_words a (map (\<lambda>(r, i). (i, xr m r)) frame_x) M)) (ea a j)
    = load64 M (ea a j)"
proof -
  let ?X = "map (\<lambda>(r, i). (i, xr m r)) frame_x" and ?F = "map (\<lambda>(r, i). (i, fr m r)) frame_f"
  have "distinct (map fst (?X @ ?F))" "\<forall>i \<in> set (map fst (?X @ ?F)). word_offset i"
    using frame_words_ok [of m] by (auto simp: frame_words_def)
  moreover have "word_offset j" using assms by (auto simp: saved_ok)
  moreover have "j < 24 \<or> j = 32" using assms by auto
  then have "map_of (?X @ ?F) j = None"
    by (simp only: map_of_eq_None_iff) (auto simp: frame_x_def frame_f_def)
  ultimately have "load64 (put_words a (?X @ ?F) M) (ea a j) = load64 M (ea a j)"
    by (simp only: load_put_words option.case)
  then show ?thesis by (simp only: put_words_append)
qed

lemma userVector_run:
  fixes m :: machine
  defines "a \<equiv> csrs m Sscratch" and "M \<equiv> put_words (csrs m Sscratch) (frame_words m) (ram m)"
  shows "exec_asm userVector m = m\<lparr>ram := M, pc := load64 (ram m) (ea a 16), csrs := (csrs m)(Sscratch := xr m a0, Satp := load64 (ram m) (ea a 0)),
    xr := (xr m)(a0 := a, t0 := load64 (ram m) (ea a 16), sp := load64 (ram m) (ea a 8), tp := load64 (ram m) (ea a 32),
      t1 := load64 (ram m) (ea a 0))\<rparr>"
proof -
  let ?F = "map (\<lambda>(r, i). (i, xr m r)) frame_x @ map (\<lambda>(r, i). (i, fr m r)) frame_f"
  have M: "M = store64 (store64 (put_words a ?F (ram m)) (ea a 112) (xr m a0)) (ea a 24) (csrs m Sepc)"
    by (simp add: M_def a_def frame_words_def put_words_append)
  show ?thesis
    unfolding userVector_parts
    by (simp add: exec_asm_append exec_asm_simps exec_saves exec_fsaves saved_x kernel_words load64_store64_apart ea_apart saved_ok
        M a_def put_words_append fun_eq_iff)
qed

definition x_offset :: "xreg \<Rightarrow> int" where
  "x_offset r = (case map_of frame_x r of None \<Rightarrow> 112 | Some i \<Rightarrow> i)"

definition f_offset :: "freg \<Rightarrow> int" where
  "f_offset r = the (map_of frame_f r)"

lemma x_offset_bounds: "x_offset r mod 8 = 0 \<and> 40 \<le> x_offset r \<and> x_offset r < 544"
  by (cases r) (simp_all add: x_offset_def frame_x_def)

lemma f_offset_bounds: "f_offset r mod 8 = 0 \<and> 40 \<le> f_offset r \<and> f_offset r < 544"
  by (cases r) (simp_all add: f_offset_def frame_f_def)

lemma x_offset_saved: "map_of (frame_words m) (x_offset r) = Some (xr m r)"
  by (cases r) (simp_all add: x_offset_def frame_words_def frame_x_def frame_f_def)

lemma f_offset_saved: "map_of (frame_words m) (f_offset r) = Some (fr m r)"
  by (cases r) (simp_all add: f_offset_def frame_words_def frame_x_def frame_f_def)

lemma loaded_x: "(loaded_from M a frame_x f)(a0 := load64 M (ea a 112)) = (\<lambda>r. load64 M (ea a (x_offset r)))"
proof
  fix r
  show "((loaded_from M a frame_x f)(a0 := load64 M (ea a 112))) r = load64 M (ea a (x_offset r))"
    by (cases r) (simp_all add: loaded_from_def x_offset_def frame_x_def)
qed

lemma loaded_f: "loaded_from M a frame_f f = (\<lambda>r. load64 M (ea a (f_offset r)))"
proof
  fix r
  show "loaded_from M a frame_f f r = load64 M (ea a (f_offset r))"
    by (cases r) (simp_all add: loaded_from_def f_offset_def frame_f_def)
qed

lemma frame_x_loads: "distinct (map fst frame_x)" "a0 \<notin> fst ` set frame_x" "distinct (map fst frame_f)"
  "loaded_from M a frame_x f a0 = f a0"
  by (simp_all add: frame_x_def frame_f_def loaded_from_def)

lemma userReturn_run:
  fixes m :: machine
  defines "a \<equiv> xr m a0"
  shows "exec_asm userReturn m = m\<lparr>xr := \<lambda>r. load64 (ram m) (ea a (x_offset r)), fr := \<lambda>r. load64 (ram m) (ea a (f_offset r)),
    csrs := (csrs m)(Satp := xr m a1, Sscratch := a, Sepc := load64 (ram m) (ea a 24)), pc := load64 (ram m) (ea a 24)\<rparr>"
  unfolding userReturn_parts
  by (simp add: exec_asm_append exec_asm_simps exec_loads exec_floads frame_x_loads loaded_x loaded_f a_def fun_upd_twist)

lemma arg_words:
  "map_of (frame_words m) 112 = Some (xr m a0)" "map_of (frame_words m) 120 = Some (xr m a1)"
  "map_of (frame_words m) 128 = Some (xr m a2)" "map_of (frame_words m) 136 = Some (xr m a3)"
  "map_of (frame_words m) 144 = Some (xr m a4)" "map_of (frame_words m) 152 = Some (xr m a5)"
  "map_of (frame_words m) 160 = Some (xr m a6)" "map_of (frame_words m) 168 = Some (xr m a7)"
  "map_of (frame_words m) 40 = Some (xr m ra)" "map_of (frame_words m) 48 = Some (xr m sp)"
  "map_of (frame_words m) 24 = Some (csrs m Sepc)"
  by (simp_all add: frame_words_def frame_x_def frame_f_def)

lemma userVector_saved:
  assumes "map_of (frame_words m) j = Some v"
  shows "load64 (ram (exec_asm userVector m)) (ea (csrs m Sscratch) j) = v"
proof -
  have "word_offset j" using assms frame_words_ok(2) [of m] by (force dest!: map_of_SomeD)
  with assms show ?thesis by (simp add: userVector_run load_frame_words)
qed

lemma in_frame_word:
  assumes "i \<in> set (map fst (frame_words m))" "in_range b (ea a i) 8"
  shows "in_range b (ea a 24) 8 \<or> in_range b (ea a 40) 504"
proof (cases "i = 24")
  case False
  have "i = 24 \<or> 40 \<le> i \<and> i \<le> 536"
    using assms(1) by (auto simp: frame_words_def frame_x_def frame_f_def)
  then obtain k where k: "i = 40 + int k" "k \<le> 496"
    using False that [of "nat (i - 40)"] by auto
  have e: "b - ea a 40 = (b - ea a i) + of_nat k"
    by (simp add: ea_def k)
  have "unat (b - ea a 40) = (unat (b - ea a i) + unat (of_nat k :: u64)) mod 2 ^ 64"
    by (simp only: e unat_word_ariths) simp
  moreover have "unat (of_nat k :: u64) = k"
    using k by (simp add: unat_of_nat)
  ultimately have "unat (b - ea a 40) \<le> unat (b - ea a i) + k"
    by simp
  then show ?thesis
    using assms(2) k by (simp add: in_range_def)
qed (use assms in simp)

text \<open>
  C17: A trap from user mode saves every integer and floating-point register and the program counter
  in the trap frame, at the words the handlers read them from, and enters the handler of the frame on
  the kernel stack, with the hart id and the page table of the kernel; the words of the frame for the
  kernel and the memory outside the frame stay as they are.
\<close>

theorem trap_enters_kernel:
  fixes m :: machine
  defines "a \<equiv> csrs m Sscratch" and "m1 \<equiv> exec_asm userVector m"
  shows "pc m1 = frame_of (ram m) a tf_trapHandler \<and> xr m1 sp = frame_of (ram m) a tf_kernelSp
    \<and> xr m1 tp = frame_of (ram m) a tf_kernelHartId \<and> csrs m1 Satp = frame_of (ram m) a tf_kernelSatp
    \<and> (\<forall>r. load64 (ram m1) (ea a (x_offset r)) = xr m r) \<and> (\<forall>r. load64 (ram m1) (ea a (f_offset r)) = fr m r)
    \<and> map (frame_of (ram m1) a) [tf_a0, tf_a1, tf_a2, tf_a3, tf_a4, tf_a5, tf_a6, tf_a7, tf_ra, tf_sp, tf_epc]
      = [xr m a0, xr m a1, xr m a2, xr m a3, xr m a4, xr m a5, xr m a6, xr m a7, xr m ra, xr m sp, csrs m Sepc]
    \<and> (\<forall>b. \<not> in_range b (ea a 24) 8 \<and> \<not> in_range b (ea a 40) 504 \<longrightarrow> ram m1 b = ram m b)"
proof -
  have m1: "ram m1 = put_words a (frame_words m) (ram m)"
    by (simp add: m1_def a_def userVector_run)
  note saved = userVector_saved [of m, folded m1_def a_def]
  have "ram m1 b = ram m b" if "\<not> in_range b (ea a 24) 8" "\<not> in_range b (ea a 40) 504" for b
    unfolding m1 using that in_frame_word [of _ m b a] by (intro put_words_other) blast
  moreover have "pc m1 = frame_of (ram m) a tf_trapHandler \<and> xr m1 sp = frame_of (ram m) a tf_kernelSp
    \<and> xr m1 tp = frame_of (ram m) a tf_kernelHartId \<and> csrs m1 Satp = frame_of (ram m) a tf_kernelSatp"
    by (simp add: m1_def a_def frame_of_def userVector_run)
  moreover have "map (frame_of (ram m1) a) [tf_a0, tf_a1, tf_a2, tf_a3, tf_a4, tf_a5, tf_a6, tf_a7, tf_ra, tf_sp, tf_epc]
      = [xr m a0, xr m a1, xr m a2, xr m a3, xr m a4, xr m a5, xr m a6, xr m a7, xr m ra, xr m sp, csrs m Sepc]"
    by (simp add: frame_of_def arg_words [THEN saved])
  ultimately show ?thesis
    using saved [OF x_offset_saved] saved [OF f_offset_saved] by blast
qed

text \<open>A machine for the examples: a user program about to make system call 64.\<close>

definition trap_demo :: machine where
  "trap_demo = \<lparr>xr = (\<lambda>r. 7)(a7 := 64), fr = \<lambda>r. 3, csrs = (\<lambda>c. 0)(Sscratch := 4096, Sepc := 100), ram = \<lambda>b. 0, pc = 0\<rparr>"

theorem trap_enters_kernel_witness:
  "frame_of (ram (exec_asm userVector trap_demo)) 4096 tf_a7 = 64 \<and> ram (exec_asm userVector trap_demo) 0 = 0"
proof -
  have "\<not> in_range 0 (ea 4096 24) 8" "\<not> in_range 0 (ea 4096 40) 504"
    by (simp_all add: in_range_def ea_def)
  then show ?thesis
    using trap_enters_kernel [of trap_demo] by (simp add: trap_demo_def)
qed

text \<open>
  C6: A trap followed by a return to user mode gives the user program back every register and continues
  it where it was, whatever the kernel did with the registers and the memory in between, as long as
  the words of the trap frame with the user's state are unchanged; the trap frame is in place for the
  next trap.
\<close>

theorem trap_return_restores:
  fixes m m2 :: machine
  assumes "xr m2 a0 = csrs m Sscratch"
    and "\<forall>k. k = tf_epc \<or> 5 \<le> k \<and> k < 68 \<longrightarrow>
      frame_of (ram m2) (csrs m Sscratch) k = frame_of (ram (exec_asm userVector m)) (csrs m Sscratch) k"
  shows "xr (exec_asm userReturn m2) = xr m \<and> fr (exec_asm userReturn m2) = fr m
    \<and> pc (exec_asm userReturn m2) = csrs m Sepc \<and> csrs (exec_asm userReturn m2) Sscratch = csrs m Sscratch
    \<and> csrs (exec_asm userReturn m2) Satp = xr m2 a1 \<and> ram (exec_asm userReturn m2) = ram m2"
proof -
  let ?a = "csrs m Sscratch"
  have kept: "load64 (ram m2) (ea ?a j) = v"
    if j: "map_of (frame_words m) j = Some v" "j mod 8 = 0" "j = 24 \<or> 40 \<le> j \<and> j < 544" for j v
  proof -
    have e: "j = 8 * int (nat (j div 8))" using j by auto
    have "nat (j div 8) = 3 \<or> 5 \<le> nat (j div 8) \<and> nat (j div 8) < 68" using j by auto
    then have "load64 (ram m2) (ea ?a j) = load64 (put_words ?a (frame_words m) (ram m)) (ea ?a j)"
      using assms(2) [rule_format, of "nat (j div 8)"] e by (simp add: frame_of_def userVector_run)
    moreover have "word_offset j" using j by (auto simp: word_offset_def)
    ultimately show ?thesis using j by (simp add: load_frame_words)
  qed
  have "load64 (ram m2) (ea ?a (x_offset r)) = xr m r" "load64 (ram m2) (ea ?a (f_offset q)) = fr m q" for r q
    using kept [OF x_offset_saved] kept [OF f_offset_saved] x_offset_bounds f_offset_bounds by blast+
  moreover have "load64 (ram m2) (ea ?a 24) = csrs m Sepc"
    by (rule kept) (simp_all add: arg_words)
  ultimately show ?thesis
    by (simp add: userReturn_run assms(1))
qed

theorem trap_return_restores_witness:
  "xr (exec_asm userReturn ((exec_asm userVector trap_demo)\<lparr>xr := \<lambda>r. 4096\<rparr>)) a7 = 64
    \<and> pc (exec_asm userReturn ((exec_asm userVector trap_demo)\<lparr>xr := \<lambda>r. 4096\<rparr>)) = 100"
  using trap_return_restores [of "(exec_asm userVector trap_demo)\<lparr>xr := \<lambda>r. 4096\<rparr>" trap_demo]
  by (simp add: trap_demo_def)

section \<open>Threads that sleep\<close>

definition sleep_x :: "(xreg \<times> int) list" where
  "sleep_x = [
     (ra, - 8), (gp, - 16), (s0, - 32), (s1, - 40), (s2, - 48), (s3, - 56), (s4, - 64), (s5, - 72),
     (s6, - 80), (s7, - 88), (s8, - 96), (s9, - 104), (s10, - 112), (s11, - 120), (a0, - 128), (a1, - 136),
     (a2, - 144), (a3, - 152), (a4, - 160), (a5, - 168), (a6, - 176), (a7, - 184)]"

lemma sleep_parts: "sleepSave = saves sp sleep_x @ [ADDI sp sp (- 184)]" "sleepRec = loads sp sleep_x @ [JR ra]"
  by (simp_all add: sleepSave_def sleepRec_def saves_def loads_def sleep_x_def)

lemma sleep_x_ok: "distinct (map fst sleep_x)" "sp \<notin> fst ` set sleep_x"
  "\<forall>i \<in> set (map snd sleep_x). word_offset i \<and> i mod 8 = 0 \<and> - 184 \<le> i \<and> i \<le> - 8"
  "map_of sleep_x r = None \<longleftrightarrow> r \<in> {sp, tp, t0, t1, t2, t3, t4, t5, t6}"
  by (simp_all add: sleep_x_def word_offset_def) (cases r; simp)

lemma sleep_x_saved: "map_of sleep_x r = Some i \<Longrightarrow> map_of (map (\<lambda>(r, i). (i, f r)) sleep_x) i = Some (f r)"
  by (cases r) (auto simp: sleep_x_def)

lemma sleep_words_ok: "distinct (map fst (map (\<lambda>(r, i). (i, f r)) sleep_x))"
  "\<forall>i \<in> set (map fst (map (\<lambda>(r, i). (i, f r)) sleep_x)). word_offset i"
  by (simp_all add: sleep_x_def word_offset_def)

text \<open>
  C18: A thread that gave up the hart in \<^verbatim>\<open>sleepSave\<close> and is continued by \<^verbatim>\<open>sleepRec\<close> on its stack
  pointer of then returns from \<^verbatim>\<open>sleepSave\<close> to its caller with the stack pointer and all integer
  registers a callee has to keep, and with its integer arguments, as long as the 23 words below its
  stack pointer are unchanged. The integer temporaries, the hart id and all floating-point registers
  are those of the hart that continues it: neither routine touches a floating-point register, although
  \<^verbatim>\<open>fs0\<close> to \<^verbatim>\<open>fs11\<close> belong to the callee under the calling convention of the build (\<^verbatim>\<open>-mabi=lp64f\<close>).
\<close>

theorem sleep_wake_restores:
  fixes m m2 :: machine
  assumes "xr m2 sp = xr m sp"
    and "\<forall>k. 1 \<le> k \<and> k \<le> 23 \<longrightarrow>
      load64 (ram m2) (ea (xr m sp) (- 8 * k)) = load64 (ram (exec_asm sleepSave m)) (ea (xr m sp) (- 8 * k))"
  shows "(\<forall>r. r \<notin> {tp, t0, t1, t2, t3, t4, t5, t6} \<longrightarrow> xr (exec_asm sleepRec m2) r = xr m r)
    \<and> (\<forall>r \<in> {tp, t0, t1, t2, t3, t4, t5, t6}. xr (exec_asm sleepRec m2) r = xr m2 r)
    \<and> pc (exec_asm sleepRec m2) = xr m ra \<and> ram (exec_asm sleepRec m2) = ram m2
    \<and> fr (exec_asm sleepRec m2) = fr m2"
proof -
  let ?a = "xr m sp" and ?W = "map (\<lambda>(r, i). (i, xr m r)) sleep_x"
  have kept: "load64 (ram m2) (ea ?a i) = xr m r" if r: "map_of sleep_x r = Some i" for r i
  proof -
    have i: "word_offset i" "i mod 8 = 0" "- 184 \<le> i" "i \<le> - 8"
      using sleep_x_ok(3) r by (force dest!: map_of_SomeD)+
    then have e: "i = - 8 * (- (i div 8))" "1 \<le> - (i div 8)" "- (i div 8) \<le> 23" by auto
    then have "load64 (ram m2) (ea ?a i) = load64 (put_words ?a ?W (ram m)) (ea ?a i)"
      using assms(2) [rule_format, of "- (i div 8)"] by (simp add: sleep_parts exec_asm_append exec_asm_simps exec_saves)
    also have "\<dots> = xr m r"
      by (subst load_put_words [OF sleep_words_ok i(1)]) (simp add: sleep_x_saved [OF r])
    finally show ?thesis .
  qed
  have run: "exec_asm sleepRec m2 = m2\<lparr>xr := loaded_from (ram m2) ?a sleep_x (xr m2), pc := loaded_from (ram m2) ?a sleep_x (xr m2) ra\<rparr>"
    by (simp add: sleep_parts exec_asm_append exec_asm_simps exec_loads sleep_x_ok assms(1))
  have "loaded_from (ram m2) ?a sleep_x (xr m2) r = xr m r" if "r \<notin> {tp, t0, t1, t2, t3, t4, t5, t6}" for r
    using that sleep_x_ok(4) [of r] kept [of r] assms(1) by (cases "map_of sleep_x r") (auto simp: loaded_from_def)
  moreover have "loaded_from (ram m2) ?a sleep_x (xr m2) r = xr m2 r" if "r \<in> {tp, t0, t1, t2, t3, t4, t5, t6}" for r
    using that sleep_x_ok(4) [of r] by (auto simp: loaded_from_def)
  ultimately show ?thesis by (simp add: run)
qed

theorem sleep_wake_restores_witness:
  "xr (exec_asm sleepRec ((exec_asm sleepSave trap_demo)\<lparr>xr := (\<lambda>r. 0)(sp := 7)\<rparr>)) a7 = 64"
proof -
  have "a7 \<notin> {tp, t0, t1, t2, t3, t4, t5, t6}" by simp
  then show ?thesis
    using sleep_wake_restores [of "(exec_asm sleepSave trap_demo)\<lparr>xr := (\<lambda>r. 0)(sp := 7)\<rparr>" trap_demo]
    by (simp add: trap_demo_def)
qed

section \<open>Traps from kernel mode\<close>

definition kernel_x :: "(xreg \<times> int) list" where
  "kernel_x = [
     (ra, 0), (sp, 8), (gp, 16), (tp, 24), (t0, 32), (t1, 40), (t2, 48), (s0, 56), (s1, 64), (a0, 72),
     (a1, 80), (a2, 88), (a3, 96), (a4, 104), (a5, 112), (a6, 120), (a7, 128), (s2, 136), (s3, 144),
     (s4, 152), (s5, 160), (s6, 168), (s7, 176), (s8, 184), (s9, 192), (s10, 200), (s11, 208), (t3, 216),
     (t4, 224), (t5, 232), (t6, 240)]"

definition kernel_rest :: "(xreg \<times> int) list" where
  "kernel_rest = [
     (gp, 16), (t0, 32), (t1, 40), (t2, 48), (s0, 56), (s1, 64), (a0, 72), (a1, 80), (a2, 88), (a3, 96),
     (a4, 104), (a5, 112), (a6, 120), (a7, 128), (s2, 136), (s3, 144), (s4, 152), (s5, 160), (s6, 168),
     (s7, 176), (s8, 184), (s9, 192), (s10, 200), (s11, 208), (t3, 216), (t4, 224), (t5, 232), (t6, 240)]"

lemma kernelVector_parts:
  "kernelVector_enter = ADDI sp sp (- 256) # saves sp kernel_x"
  "kernelVector_leave = LD ra 0 sp # LD sp 8 sp # loads sp kernel_rest @ [ADDI sp sp 256, SRET]"
  by (simp_all add: kernelVector_enter_def kernelVector_leave_def saves_def loads_def kernel_x_def kernel_rest_def)

lemma kernel_x_ok: "distinct (map fst (map (\<lambda>(r, i). (i, f r)) kernel_x))"
  "\<forall>i \<in> set (map fst (map (\<lambda>(r, i). (i, f r)) kernel_x)). word_offset i"
  "distinct (map fst kernel_rest)" "sp \<notin> fst ` set kernel_rest"
  by (simp_all add: kernel_x_def kernel_rest_def word_offset_def)

lemma kernel_x_saved: "map_of kernel_x r = Some i \<Longrightarrow> map_of (map (\<lambda>(r, i). (i, f r)) kernel_x) i = Some (f r)"
  by (cases r) (auto simp: kernel_x_def)

lemma kernel_x_words: "map_of kernel_x r = Some i \<Longrightarrow> word_offset i \<and> (\<exists>k < 31. i = 8 * int k)"
  by (cases r) (auto simp: kernel_x_def word_offset_def)

lemma kernel_rest_x: "map_of kernel_rest r = (if r \<in> {ra, sp, tp} then None else map_of kernel_x r)"
  by (cases r) (simp_all add: kernel_rest_def kernel_x_def)

lemma kernel_x_total: "\<exists>i. map_of kernel_x r = Some i"
  by (cases r) (simp_all add: kernel_x_def)

text \<open>
  C19: A trap in kernel mode is invisible to the interrupted code when \<^verbatim>\<open>kernelTrap\<close> returns with its
  stack pointer and leaves the 31 words above it alone, as far as the integer registers go: all of them
  but the hart id are restored, and the code goes on where \<^verbatim>\<open>sepc\<close> says. The floating-point registers are
  those \<^verbatim>\<open>kernelTrap\<close> left behind: the vector saves none of them.
\<close>

theorem kernel_trap_transparent:
  fixes m m2 :: machine
  assumes "xr m2 sp = ea (xr m sp) (- 256)"
    and "\<forall>k < 31. load64 (ram m2) (ea (xr m2 sp) (8 * int k)) = load64 (ram (exec_asm kernelVector_enter m)) (ea (xr m2 sp) (8 * int k))"
  shows "(\<forall>r. r \<noteq> tp \<longrightarrow> xr (exec_asm kernelVector_leave m2) r = xr m r)
    \<and> xr (exec_asm kernelVector_leave m2) tp = xr m2 tp \<and> pc (exec_asm kernelVector_leave m2) = csrs m2 Sepc
    \<and> ram (exec_asm kernelVector_leave m2) = ram m2 \<and> fr (exec_asm kernelVector_leave m2) = fr m2
    \<and> fr (exec_asm kernelVector_enter m) = fr m"
proof -
  let ?a = "xr m2 sp" and ?f = "(xr m)(sp := xr m2 sp)"
  have enter: "ram (exec_asm kernelVector_enter m) = put_words ?a (map (\<lambda>(r, i). (i, ?f r)) kernel_x) (ram m)"
    by (simp add: kernelVector_parts exec_asm_simps exec_saves assms(1))
  have kept: "load64 (ram m2) (ea ?a i) = ?f r" if r: "map_of kernel_x r = Some i" for r i
  proof -
    obtain k where k: "k < 31" "i = 8 * int k" and i: "word_offset i" using kernel_x_words [OF r] by auto
    have "load64 (ram m2) (ea ?a i) = load64 (put_words ?a (map (\<lambda>(r, i). (i, ?f r)) kernel_x) (ram m)) (ea ?a i)"
      using assms(2) k enter by simp
    also have "\<dots> = ?f r"
      by (subst load_put_words [OF kernel_x_ok(1,2) i]) (simp add: kernel_x_saved [OF r, of ?f] del: fun_upd_apply)
    finally show ?thesis .
  qed
  have two: "load64 (ram m2) (ea ?a 0) = xr m ra" "load64 (ram m2) (ea ?a 8) = ?a"
    using kept [of ra 0] kept [of sp 8] by (simp_all add: kernel_x_def)
  have run: "exec_asm kernelVector_leave m2 = m2\<lparr>pc := csrs m2 Sepc,
      xr := (loaded_from (ram m2) ?a kernel_rest ((xr m2)(ra := xr m ra, sp := ?a)))(sp := ea ?a 256)\<rparr>"
    by (simp add: kernelVector_parts exec_asm_append exec_asm_simps exec_loads kernel_x_ok two loaded_from_def kernel_rest_x)
  have "loaded_from (ram m2) ?a kernel_rest ((xr m2)(ra := xr m ra, sp := ?a)) r = xr m r" if "r \<noteq> sp" "r \<noteq> tp" for r
    using that kept [of r] kernel_x_total [of r] by (auto simp: loaded_from_def kernel_rest_x)
  moreover have "ea ?a 256 = xr m sp"
    by (simp add: assms(1) ea_def)
  moreover have "fr (exec_asm kernelVector_enter m) = fr m"
    by (simp add: kernelVector_parts exec_asm_simps exec_saves)
  ultimately show ?thesis
    by (simp add: run loaded_from_def kernel_rest_x)
qed

theorem kernel_trap_transparent_witness:
  "xr (exec_asm kernelVector_leave ((exec_asm kernelVector_enter trap_demo)\<lparr>xr := (\<lambda>r. 0)(sp := - 249)\<rparr>)) a7 = 64"
  using kernel_trap_transparent [of "(exec_asm kernelVector_enter trap_demo)\<lparr>xr := (\<lambda>r. 0)(sp := - 249)\<rparr>" trap_demo]
  by (simp add: trap_demo_def ea_def)

end
