(* ===== verification/Syscall.thy ===== *)
theory Syscall
  imports Sysfile
begin

text \<open>
  The other system calls, \<^verbatim>\<open>src/kernel/trap/Syscall.c\<close>, with the interval timer of
  \<^verbatim>\<open>src/kernel/trap/Timer.c\<close>. \<open>junk\<close> stands for the bytes of stack variables the handlers do not set. A
  copy whose length the user chooses and that overruns a variable on the kernel stack stops the model.
\<close>

record IntervalTimer =
  it_interval :: TimeSpec
  it_expiration :: TimeSpec

record ktimer = klife +
  timer :: IntervalTimer
  ticks :: u32

definition setTimer :: "IntervalTimer \<Rightarrow> 'z ktimer_scheme \<Rightarrow> 'z ktimer_scheme" where
  "setTimer t s = s\<lparr>timer := t\<rparr>"

definition getTimer :: "'z ktimer_scheme \<Rightarrow> IntervalTimer" where
  "getTimer s = timer s"

definition timerTick :: "'z ktimer_scheme \<Rightarrow> 'z ktimer_scheme" where
  "timerTick s = s\<lparr>ticks := ticks s + 1\<rparr>"

text \<open>Copies from and to the memory of the current process.\<close>

definition user_in :: "u64 \<Rightarrow> nat \<Rightarrow> 'z kfat_scheme \<Rightarrow> (u8 list \<times> 'z kfat_scheme) option" where
  "user_in va n s = do { pgdir \<leftarrow> my_pgdir s; copyin kernel_reader pgdir va (of_nat n) s }"

definition user_out :: "u64 \<Rightarrow> u8 list \<Rightarrow> 'z kfat_scheme \<Rightarrow> 'z kfat_scheme option" where
  "user_out va bs s = do {
     pgdir \<leftarrow> my_pgdir s;
     (r, s) \<leftarrow> copyout kernel_reader pgdir va bs (of_nat (length bs)) s;
     Some s }"

definition timespec_bytes :: "TimeSpec \<Rightarrow> u8 list" where
  "timespec_bytes t = le_bytes 8 (second t) @ le_bytes 8 (word_of_int (nanoSecond t))"

section \<open>Output\<close>

definition syscallPutchar :: "'z kio_scheme \<Rightarrow> 'z kio_scheme" where
  "syscallPutchar s = putchar (ucast (arg tf_a0 s)) s"

definition syscallPutString :: "'z kio_scheme \<Rightarrow> 'z kio_scheme option" where
  "syscallPutString s = do {
     pgdir \<leftarrow> my_pgdir s;
     let va = arg tf_a0 s;
     let pa = fst (pageLookup pgdir va s) + (va AND 0xfff);
     kassert (pa \<noteq> 0);
     Some (fold putchar (mem_bytes (mem s) pa (unat (ucast (arg tf_a1 s) :: u32))) s) }"

section \<open>Processes and threads\<close>

definition syscallGetProcessId :: "'z kproc_scheme \<Rightarrow> 'z kproc_scheme option" where
  "syscallGetProcessId s = do { p \<leftarrow> myProcess s; Some (ret64 (ucast (processId (processes s p))) s) }"

definition syscallGetParentProcessId :: "'z kproc_scheme \<Rightarrow> 'z kproc_scheme option" where
  "syscallGetParentProcessId s = do { p \<leftarrow> myProcess s; Some (ret64 (ucast (parentId (processes s p))) s) }"

definition syscallGetTheardId :: "'z kproc_scheme \<Rightarrow> 'z kproc_scheme option" where
  "syscallGetTheardId s = do { th \<leftarrow> myThread s; Some (ret64 (ucast (th_id (threads s th))) s) }"

definition syscallWait :: "'z kio_scheme \<Rightarrow> (outcome \<times> 'z kio_scheme) option" where
  "syscallWait s =
     (let pid = iarg tf_a0 s; addr = arg tf_a1 s; flags = (ucast (arg tf_a2 s) :: u32)
      in map_option (finish word_of_int (\<lambda>u. InWait pid addr flags)) (wait pid addr flags s))"

definition syscallYield :: "'z kproc_scheme \<Rightarrow> outcome \<times> 'z kproc_scheme" where
  "syscallYield s = (Yields, s)"

definition syscallClone :: "'z kio_scheme \<Rightarrow> 'z kio_scheme option" where
  "syscallClone s = do {
     (r, s) \<leftarrow> clone (ucast (arg tf_a0 s)) (arg tf_a1 s) (arg tf_a2 s) (arg tf_a3 s) (arg tf_a4 s) s;
     Some (ret r s) }"

definition syscallExit :: "'z kproc_scheme \<Rightarrow> (outcome \<times> 'z kproc_scheme) option" where
  "syscallExit s = do {
     (r, th) \<leftarrow> tid2Thread 0 True s;
     kassert (\<not> r < 0);
     th \<leftarrow> th;
     Some (Destroyed, upd_thread th (\<lambda>t. t\<lparr>th_retValue := push_bit 8 (ucast (arg tf_a0 s))\<rparr>) s) }"

definition syscallExitGroup :: "'z kproc_scheme \<Rightarrow> 'z kproc_scheme" where
  "syscallExitGroup s = ret 0 s"

definition syscallExec :: "(nat \<Rightarrow> u8 list) \<Rightarrow> 'z kio_scheme \<Rightarrow> 'z kio_scheme option" where
  "syscallExec junk s = do { (r, s) \<leftarrow> sys_exec junk s; Some (ret r s) }"

definition syscallSetTidAddress :: "'z kproc_scheme \<Rightarrow> 'z kproc_scheme option" where
  "syscallSetTidAddress s = do {
     th \<leftarrow> myThread s;
     let s = upd_thread th (\<lambda>t. t\<lparr>clearChildTid := arg tf_a0 s\<rparr>) s;
     Some (ret64 (ucast (th_id (threads s th))) s) }"

abbreviation (input) RLIMIT_NOFILE :: u64 where "RLIMIT_NOFILE \<equiv> 7"

definition syscallProcessResourceLimit :: "'z kio_scheme \<Rightarrow> 'z kio_scheme option" where
  "syscallProcessResourceLimit s = do {
     kassert (arg tf_a0 s = 0);
     let resource = arg tf_a1 s;
     let newVa = arg tf_a2 s;
     let oldVa = arg tf_a3 s;
     p \<leftarrow> myProcess s;
     (bs, s) \<leftarrow> (if newVa \<noteq> 0 then user_in newVa 16 s else Some ([], s));
     s \<leftarrow> (if resource = RLIMIT_NOFILE then do {
            let s = (if newVa \<noteq> 0 then upd_process p (\<lambda>x. x\<lparr>fd_hard := get64 bs 8, fd_soft := get64 bs 0\<rparr>) s else s);
            if oldVa \<noteq> 0 then user_out oldVa (le_bytes 8 (fd_soft (processes s p)) @ le_bytes 8 (fd_hard (processes s p))) s
            else Some s }
          else Some s);
     Some (ret 0 s) }"

definition syscallGetRobustList :: "'z kio_scheme \<Rightarrow> 'z kio_scheme option" where
  "syscallGetRobustList s = do {
     th \<leftarrow> myThread s;
     s \<leftarrow> user_out (arg tf_a1 s) (le_bytes 8 (robustHeadPointer (threads s th))) s;
     Some (ret 0 s) }"

definition syscallSetRobustList :: "'z kio_scheme \<Rightarrow> 'z kio_scheme option" where
  "syscallSetRobustList s = do {
     th \<leftarrow> myThread s;
     (bs, s) \<leftarrow> user_in (arg tf_a1 s) 8 s;
     Some (ret 0 (upd_thread th (\<lambda>t. t\<lparr>robustHeadPointer := get64 bs 0\<rparr>) s)) }"

section \<open>Times\<close>

text \<open>\<open>cyc\<close> is what the cycle counter shows.\<close>

definition syscallGetCpuTimes :: "u64 \<Rightarrow> 'z kio_scheme \<Rightarrow> 'z kio_scheme option" where
  "syscallGetCpuTimes cyc s = do {
     p \<leftarrow> myProcess s;
     let x = processes s p;
     s \<leftarrow> user_out (arg tf_a0 s) (le_bytes 8 (cpu_user x) @ le_bytes 8 (cpu_kernel x)
       @ le_bytes 8 (deadChildrenUser x) @ le_bytes 8 (deadChildrenKernel x)) s;
     Some (ret64 (cyc AND 0x3FFFFFFF) s) }"

definition syscallGetClockTime :: "'z kio_scheme \<Rightarrow> 'z kio_scheme option" where
  "syscallGetClockTime s = do {
     s \<leftarrow> user_out (arg tf_a1 s) (le_bytes 8 (r_time s div 1000000) @ le_bytes 8 (r_time s mod 1000000 * 1000)) s;
     Some (ret 0 s) }"

definition syscallGetTimeOfDay :: "'z kio_scheme \<Rightarrow> 'z kio_scheme option" where
  "syscallGetTimeOfDay s = do {
     s \<leftarrow> user_out (arg tf_a1 s) (le_bytes 8 (r_time s div 1000000) @ le_bytes 8 (r_time s mod 1000000)) s;
     Some (ret 0 s) }"

definition syscallSleepTime :: "'z kio_scheme \<Rightarrow> (outcome \<times> 'z kio_scheme) option" where
  "syscallSleepTime s = do {
     (bs, s) \<leftarrow> user_in (arg tf_a0 s) 16 s;
     let ts = timespec_of bs;
     th \<leftarrow> myThread s;
     Some (Yields, upd_thread th (\<lambda>t. t\<lparr>awakeTime := r_time s + second ts * 1000000 + of_int (cdiv (nanoSecond ts) 1000)\<rparr>) s) }"

definition syscallGetResouceUsage :: "u8 list \<Rightarrow> 'z kio_scheme \<Rightarrow> 'z kio_scheme option" where
  "syscallGetResouceUsage junk s = do {
     let usage = arg tf_a1 s;
     kassert (iarg tf_a0 s = 0);
     p \<leftarrow> myProcess s;
     let x = processes s p;
     let part = (\<lambda>t. le_bytes 8 (of_int (cdiv (sint t) 1000000)) @ le_bytes 8 (of_int (cmod (sint t) 1000000 * 1000)));
     s \<leftarrow> user_out usage (part (cpu_user x) @ part (cpu_kernel x) @ take 112 junk) s;
     Some (ret 0 s) }"

definition syscallSetTimer :: "'z ktimer_scheme \<Rightarrow> 'z ktimer_scheme option" where
  "syscallSetTimer s = do {
     let t = getTimer s;
     s \<leftarrow> (if arg tf_a2 s \<noteq> 0 then user_out (arg tf_a2 s) (timespec_bytes (it_interval t) @ timespec_bytes (it_expiration t)) s
          else Some s);
     s \<leftarrow> (if arg tf_a1 s \<noteq> 0 then do {
            (bs, s) \<leftarrow> user_in (arg tf_a1 s) 32 s;
            Some (setTimer \<lparr>it_interval = timespec_of bs, it_expiration = timespec_of (drop 16 bs)\<rparr> s) }
          else Some s);
     Some (ret 0 s) }"

definition syscallGetRandom :: "'z kproc_scheme \<Rightarrow> 'z kproc_scheme" where
  "syscallGetRandom s = ret64 (r_time s) s"

section \<open>Memory\<close>

definition syscallBrk :: "'z kio_scheme \<Rightarrow> 'z kio_scheme option" where
  "syscallBrk s = do {
     p \<leftarrow> myProcess s;
     let addr = arg tf_a0 s;
     let brk = brkHeapBottom (processes s p);
     if addr = 0 then Some (ret64 brk s)
     else if addr \<ge> brk then do { (r, s) \<leftarrow> sys_sbrk (ucast (addr - brk)) s; Some s }
     else Some s }"

definition syscallSetBrk :: "'z kio_scheme \<Rightarrow> 'z kio_scheme option" where
  "syscallSetBrk s = do { (r, s) \<leftarrow> sys_sbrk (ucast (arg tf_a0 s)) s; Some (ret64 r s) }"

abbreviation (input) PROT_EXEC :: u64 where "PROT_EXEC \<equiv> 1"
abbreviation (input) PROT_WRITE :: u64 where "PROT_WRITE \<equiv> 2"
abbreviation (input) PROT_READ :: u64 where "PROT_READ \<equiv> 4"

definition prot_perm :: "u64 \<Rightarrow> u64" where
  "prot_perm prot =
     (let perm = (if prot AND PROT_EXEC \<noteq> 0 then PTE_EXECUTE OR PTE_READ else 0);
          perm = (if prot AND PROT_READ \<noteq> 0 then perm OR PTE_READ else perm)
      in if prot AND PROT_WRITE \<noteq> 0 then perm OR PTE_WRITE OR PTE_READ else perm)"

definition syscallMapMemory :: "'z kio_scheme \<Rightarrow> (outcome \<times> 'z kio_scheme) option" where
  "syscallMapMemory s = do {
     let start = arg tf_a0 s;
     let len = arg tf_a1 s;
     let off = arg tf_a5 s;
     if len = 0 then Some (Done, ret (- EINVAL) s)
     else do {
       (r, n, fd) \<leftarrow> argfd 4 s;
       p \<leftarrow> myProcess s;
       let at = (if start = 0 then UP_ALIGN (mmapHeapBottom (processes s p)) PAGE_SIZE else start);
       let pi = (case fd of None \<Rightarrow> 0 | Some f \<Rightarrow> f_pipe (ftable s f));
       map_option (finish (\<lambda>a. a) (InMap (p_pgdir (processes s p)) pi at (to_int len)))
         (do_mmap fd start len (prot_perm (arg tf_a2 s)) (ucast (arg tf_a3 s)) off s) } }"

partial_function (option) unmap_loop :: "u64 \<Rightarrow> u64 \<Rightarrow> u64 \<Rightarrow> 'z kmem_scheme \<Rightarrow> (int \<times> 'z kmem_scheme) option" where
  "unmap_loop pgdir start fin s =
     (if start < fin then do {
        (r, s) \<leftarrow> pageRemove pgdir start s;
        if r < 0 then Some (- 1, s) else unmap_loop pgdir (start + PAGE_SIZE) fin s }
      else Some (0, s))"

definition syscallUnMapMemory :: "'z kmem_scheme \<Rightarrow> 'z kmem_scheme option" where
  "syscallUnMapMemory s = do {
     let start = arg tf_a0 s;
     let fin = start + arg tf_a1 s;
     pgdir \<leftarrow> my_pgdir s;
     (r, s) \<leftarrow> unmap_loop pgdir (UP_ALIGN start PAGE_SIZE) (DOWN_ALIGN fin PAGE_SIZE) s;
     Some (ret r s) }"

partial_function (option) protect_loop :: "u64 \<Rightarrow> u64 \<Rightarrow> u64 \<Rightarrow> u64 \<Rightarrow> 'z kfat_scheme \<Rightarrow> 'z kfat_scheme option" where
  "protect_loop pgdir perm start fin s =
     (if start < fin then do {
        s \<leftarrow> (case pageLookup pgdir start s of (pa, pte) \<Rightarrow>
               if pa = 0 then do { (r, s) \<leftarrow> pageout kernel_reader pgdir start s; Some s }
               else do {
                 pte \<leftarrow> pte;
                 Some (s\<lparr>mem := store64 (mem s) pte
                   ((load64 (mem s) pte AND NOT (PTE_READ OR PTE_WRITE OR PTE_EXECUTE)) OR perm)\<rparr>) });
        protect_loop pgdir perm (start + PAGE_SIZE) fin s }
      else Some s)"

definition syscallMemoryProtect :: "'z kfat_scheme \<Rightarrow> 'z kfat_scheme option" where
  "syscallMemoryProtect s = do {
     pgdir \<leftarrow> my_pgdir s;
     s \<leftarrow> protect_loop pgdir (prot_perm (arg tf_a2 s)) (DOWN_ALIGN (arg tf_a0 s) PAGE_SIZE)
       (UP_ALIGN (arg tf_a0 s + arg tf_a1 s) PAGE_SIZE) s;
     Some (ret 0 s) }"

section \<open>Signals and futexes\<close>

definition syscallSignProccessMask :: "u8 list \<Rightarrow> 'z kio_scheme \<Rightarrow> 'z kio_scheme option" where
  "syscallSignProccessMask junk s = do {
     let how = arg tf_a0 s;
     let n = unat (arg tf_a3 s);
     kassert (n \<le> 128);
     (bs, s) \<leftarrow> user_in (arg tf_a1 s) n s;
     th \<leftarrow> myThread s;
     s \<leftarrow> (if arg tf_a2 s \<noteq> 0
          then user_out (arg tf_a2 s) (take n (le_bytes 8 (blocked (threads s th)) @ replicate 120 0)) s
          else Some s);
     (r, s) \<leftarrow> signProccessMask how (get64 (bs @ drop n junk) 0) s;
     Some (ret r s) }"

definition syscallSignalAction :: "'z kio_scheme \<Rightarrow> 'z kio_scheme option" where
  "syscallSignalAction s = do {
     (r, s) \<leftarrow> doSignalAction kernel_reader (iarg tf_a0 s) (arg tf_a1 s) (arg tf_a2 s) s;
     Some (ret r s) }"

definition syscallSignalTimedWait :: "'z kio_scheme \<Rightarrow> 'z kio_scheme option" where
  "syscallSignalTimedWait s = do {
     let n = unat (arg tf_a3 s);
     kassert (n \<le> 128);
     (ts, s) \<leftarrow> (if arg tf_a2 s \<noteq> 0 then user_in (arg tf_a2 s) 16 s else Some ([], s));
     (sig, s) \<leftarrow> user_in (arg tf_a0 s) n s;
     (info, s) \<leftarrow> user_in (arg tf_a0 s) 128 s;
     r \<leftarrow> doSignalTimedWait s;
     Some (ret64 (ucast r) s) }"

definition syscallProcessKill :: "'z kproc_scheme \<Rightarrow> 'z kproc_scheme option" where
  "syscallProcessKill s = do {
     (r, s) \<leftarrow> processSignalSend (iarg tf_a0 s) (iarg tf_a1 s) s;
     Some (ret r s) }"

definition syscallThreadKill :: "'z kproc_scheme \<Rightarrow> 'z kproc_scheme option" where
  "syscallThreadKill s = do {
     (r, s) \<leftarrow> signalSend 0 (iarg tf_a0 s) (iarg tf_a1 s) s;
     Some (ret r s) }"

definition syscallThreadGroupKill :: "'z kproc_scheme \<Rightarrow> 'z kproc_scheme option" where
  "syscallThreadGroupKill s = do {
     (r, s) \<leftarrow> signalSend (iarg tf_a0 s) (iarg tf_a1 s) (iarg tf_a2 s) s;
     Some (ret r s) }"

definition syscallFutex :: "'z kio_scheme \<Rightarrow> (outcome \<times> 'z kio_scheme) option" where
  "syscallFutex s = do {
     let uaddr = arg tf_a0 s;
     let op = (ucast (arg tf_a1 s) AND 127 :: u32);
     let val = iarg tf_a2 s;
     let time = arg tf_a3 s;
     let newAddr = arg tf_a4 s;
     if op = 0 then do {
       (bs, s) \<leftarrow> user_in uaddr 4 s;
       (ts, s) \<leftarrow> (if time \<noteq> 0 then do { (b, s) \<leftarrow> user_in time 16 s; Some (Some (timespec_of b), s) } else Some (None, s));
       if sint (get32 bs 0) \<noteq> val then Some (Done, ret (- 1) s)
       else do {
         th \<leftarrow> myThread s;
         s \<leftarrow> futexWait uaddr th ts s;
         Some (Yields, s) } }
     else if op = 1 then Some (Done, ret 0 (futexWake uaddr val s))
     else do {
       kassert (op = 3);
       Some (Done, ret 0 (futexRequeue uaddr val newAddr s)) } }"

section \<open>Sockets\<close>

definition addr_of :: "u8 list \<Rightarrow> SocketAddr" where
  "addr_of bs = \<lparr>family = get16 bs 0, port = get16 bs 2, sa_addr = get32 bs 4, sa_zero = take 24 (drop 8 bs)\<rparr>"

definition fd_index :: "u64 \<Rightarrow> nat option" where
  "fd_index v = (let fd = to_int v in do { kassert (0 \<le> fd \<and> fd < int NOFILE); Some (nat fd) })"

text \<open>An address of as many bytes as the user says, the rest being what the stack held.\<close>

definition addr_arg :: "u8 list \<Rightarrow> u64 \<Rightarrow> u64 \<Rightarrow> 'z kio_scheme \<Rightarrow> (SocketAddr \<times> 'z kio_scheme) option" where
  "addr_arg junk va len s = do {
     kassert (len \<le> 32);
     (bs, s) \<leftarrow> user_in va (unat len) s;
     Some (addr_of (bs @ drop (unat len) junk), s) }"

definition syscallSocket :: "'z kio_scheme \<Rightarrow> 'z kio_scheme option" where
  "syscallSocket s = do { (r, s) \<leftarrow> createSocket (iarg tf_a0 s) s; Some (ret r s) }"

definition syscallBind :: "u8 list \<Rightarrow> 'z kio_scheme \<Rightarrow> 'z kio_scheme option" where
  "syscallBind junk s = do {
     (sa, s) \<leftarrow> addr_arg junk (arg tf_a1 s) (arg tf_a2 s) s;
     fd \<leftarrow> fd_index (arg tf_a0 s);
     (r, s) \<leftarrow> bindSocket fd sa s;
     Some (ret r s) }"

definition syscallGetSocketName :: "'z kio_scheme \<Rightarrow> 'z kio_scheme option" where
  "syscallGetSocketName s = do {
     fd \<leftarrow> fd_index (arg tf_a0 s);
     (r, s) \<leftarrow> getSocketName fd (arg tf_a1 s) s;
     Some (ret r s) }"

definition syscallSetSocketOption :: "'z kproc_scheme \<Rightarrow> 'z kproc_scheme" where
  "syscallSetSocketOption s = ret 0 s"

definition raw_socket :: "u64 \<Rightarrow> 'z kio_scheme \<Rightarrow> nat option" where
  "raw_socket fd s = do {
     p \<leftarrow> myProcess s;
     kassert (fd < of_nat NOFILE);
     f \<leftarrow> ofile (processes s p) (unat fd);
     Some (f_socket (ftable s f)) }"

text \<open>The bytes that are copied are limited to the buffer, those that are sent are not.\<close>

definition syscallSendTo :: "'z kio_scheme \<Rightarrow> (outcome \<times> 'z kio_scheme) option" where
  "syscallSendTo s = do {
     kassert (arg tf_a5 s = 32);
     (sa, s) \<leftarrow> user_in (arg tf_a4 s) 32 s;
     let len = (ucast (min (arg tf_a2 s) PAGE_SIZE) :: u32);
     (buf, s) \<leftarrow> user_in (arg tf_a1 s) (unat len) s;
     sock \<leftarrow> raw_socket (arg tf_a0 s) s;
     let n = (ucast (arg tf_a2 s) :: u32);
     kassert (n < 4096);
     map_option (finish word_of_int (\<lambda>u :: unit. InConnect)) (sendTo sock buf n s) }"

definition syscallReceiveFrom :: "'z kio_scheme \<Rightarrow> (outcome \<times> 'z kio_scheme) option" where
  "syscallReceiveFrom s = do {
     sock \<leftarrow> raw_socket (arg tf_a0 s) s;
     map_option (finish word_of_int (\<lambda>u :: unit. InConnect)) (receiveFrom kernel_reader sock (arg tf_a1 s) (ucast (arg tf_a2 s)) s) }"

definition syscallListen :: "'z kio_scheme \<Rightarrow> 'z kio_scheme option" where
  "syscallListen s = do { fd \<leftarrow> fd_index (arg tf_a0 s); (r, s) \<leftarrow> listen fd s; Some (ret r s) }"

definition syscallConnect :: "u8 list \<Rightarrow> u8 list \<Rightarrow> 'z kio_scheme \<Rightarrow> (outcome \<times> 'z kio_scheme) option" where
  "syscallConnect junk junk2 s = do {
     (sa, s) \<leftarrow> addr_arg junk (arg tf_a1 s) (arg tf_a2 s) s;
     fd \<leftarrow> fd_index (arg tf_a0 s);
     map_option (finish word_of_int (\<lambda>u. InConnect)) (connect junk2 fd sa s) }"

definition syscallAccept :: "u8 list \<Rightarrow> 'z kio_scheme \<Rightarrow> 'z kio_scheme option" where
  "syscallAccept junk s = do {
     fd \<leftarrow> fd_index (arg tf_a0 s);
     ((r, sa), s) \<leftarrow> accept fd s;
     user_out (arg tf_a1 s) (case sa of None \<Rightarrow> take 32 junk | Some sa \<Rightarrow> addr_bytes sa) (ret r s) }"

section \<open>Polling\<close>

definition poll_one :: "u64 \<Rightarrow> 'z kio_scheme \<Rightarrow> 'z kio_scheme option" where
  "poll_one va s = do {
     (bs, s) \<leftarrow> user_in va 8 s;
     user_out va (take 6 bs @ [0, 0]) s }"

definition syscallPoll :: "'z kio_scheme \<Rightarrow> 'z kio_scheme option" where
  "syscallPoll s = do {
     let start = arg tf_a0 s;
     s \<leftarrow> kfor 0 (nat (iarg tf_a1 s)) (\<lambda>i s. poll_one (start + 8 * of_nat i) s) s;
     Some (ret 1 s) }"

definition ready_to_read :: "nat \<Rightarrow> 'z kio_scheme \<Rightarrow> bool" where
  "ready_to_read f s = (case f_type (ftable s f) of
     FD_PIPE \<Rightarrow> (let p = pipeBuffer s (f_pipe (ftable s f)) in nread p \<noteq> nwrite p)
   | FD_SOCKET \<Rightarrow> (let k = sockets s (f_socket (ftable s f))
       in \<not> (so_used k \<and> so_head k = so_tail k \<and> (\<not> listening k \<or> pending_h k = pending_t k)))
   | FD_DEVICE \<Rightarrow> hasChar s
   | _ \<Rightarrow> True)"

text \<open>The two words of a set of descriptors.\<close>

type_synonym FdSet = "u64 \<times> u64"

definition fdset_of :: "u8 list \<Rightarrow> FdSet" where
  "fdset_of bs = (get64 bs 0, get64 bs 8)"

definition fdset_bytes :: "FdSet \<Rightarrow> u8 list" where
  "fdset_bytes x = le_bytes 8 (fst x) @ le_bytes 8 (snd x)"

definition fd_bit :: "nat \<Rightarrow> FdSet \<Rightarrow> bool" where
  "fd_bit i x = (if i < 64 then bit (fst x) i else bit (snd x) (i - 64))"

definition fd_clear :: "nat \<Rightarrow> FdSet \<Rightarrow> FdSet" where
  "fd_clear i x = (if i < 64 then (fst x AND NOT (push_bit i 1), snd x) else (fst x, snd x AND NOT (push_bit (i - 64) 1)))"

definition select_read :: "nat \<Rightarrow> FdSet \<Rightarrow> nat \<Rightarrow> 'z kio_scheme \<Rightarrow> FdSet \<times> int \<Rightarrow> FdSet \<times> int" where
  "select_read p fds i s acc =
     (if \<not> fd_bit i fds then acc
      else case ofile (processes s p) i of None \<Rightarrow> acc
      | Some f \<Rightarrow> if ready_to_read f s then (fst acc, snd acc + 1) else (fd_clear i (fst acc), snd acc))"

definition syscallSelect :: "u8 list \<Rightarrow> 'z kio_scheme \<Rightarrow> (outcome \<times> 'z kio_scheme) option" where
  "syscallSelect junk s = do {
     p \<leftarrow> myProcess s;
     let nfd = iarg tf_a0 s;
     let rd = arg tf_a1 s;
     let wr = arg tf_a2 s;
     let ex = arg tf_a3 s;
     let timeout = arg tf_a4 s;
     ((ready, cnt), s) \<leftarrow> (if rd \<noteq> 0 then do {
          (bs, s) \<leftarrow> user_in rd 16 s;
          kassert (nfd \<le> 128);
          Some (fold (\<lambda>i. select_read p (fdset_of bs) i s) [0..<nat nfd] (fdset_of bs, 0), s) }
        else Some ((fdset_of junk, 0), s));
     (cnt, s) \<leftarrow> (if wr \<noteq> 0 then do {
          (bs, s) \<leftarrow> user_in wr 16 s;
          kassert (nfd \<le> 128);
          s \<leftarrow> user_out wr (le_bytes 8 wr @ take 8 (drop 16 junk)) s;
          Some (cnt + int (length (filter (\<lambda>i. fd_bit i (fdset_of bs)) [0..<nat nfd])), s) }
        else Some (cnt, s));
     s \<leftarrow> (if ex \<noteq> 0 then do {
            (r, s) \<leftarrow> memsetOut kernel_reader (p_pgdir (processes s p)) ex 0 (word_of_int nfd) s;
            Some s }
          else Some s);
     (again, s) \<leftarrow> (if cnt = 0 then
          if timeout \<noteq> 0 then do {
            (bs, s) \<leftarrow> user_in timeout 16 s;
            let ts = timespec_of bs;
            Some (\<not> (nanoSecond ts = 0 \<and> second ts = 0), s) }
          else Some (True, s)
        else Some (False, s));
     if again then Some (Yields, retry s)
     else do {
       s \<leftarrow> user_out rd (fdset_bytes ready) s;
       Some (Done, ret cnt s) } }"

section \<open>The rest\<close>

definition utsname :: "u8 list" where
  "utsname = concat (map (\<lambda>x. take 65 (str x @ replicate 65 0))
     [''my_linux'', ''my_node'', ''10.2.0'', ''MIPS-OS'', ''Risc-V sifive_u'', ''Beijing''])"

definition syscallUname :: "'z kio_scheme \<Rightarrow> 'z kio_scheme option" where
  "syscallUname s = do { s \<leftarrow> user_out (arg tf_a0 s) utsname s; Some (ret 0 s) }"

definition winSize :: "u8 list" where
  "winSize = [24, 0, 80, 0, 0, 0, 0, 0]"

definition syscallIOControl :: "'z kio_scheme \<Rightarrow> 'z kio_scheme option" where
  "syscallIOControl s = do {
     s \<leftarrow> (if arg tf_a1 s = 0x5413 then user_out (arg tf_a2 s) winSize s else Some s);
     Some (ret 0 s) }"

definition fss_bytes :: "FileSystemStatus \<Rightarrow> u8 list" where
  "fss_bytes x = concat (map (le_bytes 8) [0, f_bsize x, f_blocks x, f_bfree x, f_bavail x, f_files x, f_ffree x, 0,
     f_namelen x, 0, 0, 0, 0, 0, 0])"

definition syscallStateFileSystem :: "'z kio_scheme \<Rightarrow> 'z kio_scheme option" where
  "syscallStateFileSystem s = do {
     (path, s) \<leftarrow> path_arg (arg tf_a0 s) FAT32_MAX_PATH s;
     case path of None \<Rightarrow> Some (ret (- 1) s)
     | Some path \<Rightarrow> do {
         (x, s) \<leftarrow> getFsStatus path s;
         case x of None \<Rightarrow> Some (ret (- 1) s)
         | Some x \<Rightarrow> user_out (arg tf_a1 (ret 0 s)) (fss_bytes x) (ret 0 s) } }"

definition syslog_text :: "u8 list" where
  "syslog_text = str ''We havn'' @ [39] @ str ''t support syslog yet!'' @ [10, 0]"

definition syscallLog :: "'z kio_scheme \<Rightarrow> 'z kio_scheme option" where
  "syscallLog s = do {
     let type = iarg tf_a0 s;
     let n = min (length syslog_text) (unat (ucast (arg tf_a2 s) :: u32));
     if type = 3 then do {
       s \<leftarrow> user_out (arg tf_a1 s) (take n syslog_text) s;
       Some (ret (int n) s) }
     else do { kassert (type = 10); Some (ret (int (length syslog_text)) s) } }"

definition syscallGetUserId :: "'z kproc_scheme \<Rightarrow> 'z kproc_scheme" where
  "syscallGetUserId s = ret 0 s"

definition syscallGetEffectiveUserId :: "'z kproc_scheme \<Rightarrow> 'z kproc_scheme" where
  "syscallGetEffectiveUserId s = ret 0 s"

definition syscallMemoryBarrier :: "'z kproc_scheme \<Rightarrow> 'z kproc_scheme" where
  "syscallMemoryBarrier s = ret 0 s"

definition syscallSystemInfo :: "'z kproc_scheme \<Rightarrow> 'z kproc_scheme" where
  "syscallSystemInfo s = ret 0 s"

definition syscallMemorySychronize :: "'z kproc_scheme \<Rightarrow> 'z kproc_scheme" where
  "syscallMemorySychronize s = ret 0 s"

definition syscallMemeryAdvise :: "'z kproc_scheme \<Rightarrow> 'z kproc_scheme" where
  "syscallMemeryAdvise s = ret 0 s"

definition syscallGetGroupId :: "'z kproc_scheme \<Rightarrow> 'z kproc_scheme" where
  "syscallGetGroupId s = ret 0 s"

definition syscallGetEffectiveGroupId :: "'z kproc_scheme \<Rightarrow> 'z kproc_scheme" where
  "syscallGetEffectiveGroupId s = ret 0 s"

end
