(* ===== verification/Memory_Init.thy ===== *)
theory Memory_Init
  imports Page_Map
begin

text \<open>
  Boot-time set-up of the physical pages and of the kernel's page table:
  \<^verbatim>\<open>src/kernel/memory/MemoryInit.c\<close>. \<^verbatim>\<open>startPage\<close> only writes the register that switches the
  table on; the messages printed are left out.
\<close>

declare One_nat_def [simp del]

abbreviation (input) KERNEL_RW :: u64 where "KERNEL_RW \<equiv> PTE_READ OR PTE_WRITE OR PTE_ACCESSED OR PTE_DIRTY"
abbreviation (input) KERNEL_RWX :: u64 where
  "KERNEL_RWX \<equiv> PTE_READ OR PTE_EXECUTE OR PTE_WRITE OR PTE_ACCESSED OR PTE_DIRTY"

definition initFreePages :: "'z kmem_scheme \<Rightarrow> 'z kmem_scheme" where
  "initFreePages s =
     (let n = unat (PA2PPN (kernelEnd s));
          s = fold (\<lambda>i s. s\<lparr>page_ref := (page_ref s)(i := 1)\<rparr>) [0..<n] s;
          s = s\<lparr>page_links := LIST_INIT () (page_links s)\<rparr>
      in fold (\<lambda>i s. s\<lparr>page_ref := (page_ref s)(i := 0), page_links := LIST_INSERT_HEAD () i (page_links s)\<rparr>)
           [n..<unat (PA2PPN PHYSICAL_MEMORY_TOP)] s)"

definition resetRef :: "'z kmem_scheme \<Rightarrow> 'z kmem_scheme" where
  "resetRef s = fold (\<lambda>i s. s\<lparr>page_ref := (page_ref s)(i := 0)\<rparr>)
     [unat (PA2PPN (kernelEnd s))..<unat (PA2PPN PHYSICAL_MEMORY_TOP)] s"

text \<open>One mapping in the kernel's table; the result of \<^verbatim>\<open>pageInsert\<close> is not looked at.\<close>

definition kernelInsert :: "u64 \<Rightarrow> u64 \<Rightarrow> u64 \<Rightarrow> 'z kmem_scheme \<Rightarrow> 'z kmem_scheme option" where
  "kernelInsert va pa perm s = map_option snd (pageInsert (kernelPageDirectory s) va pa perm s)"

text \<open>The loops over a fixed size and over a range that ends at \<open>fin\<close>.\<close>

definition map_size :: "u64 \<Rightarrow> u64 \<Rightarrow> nat \<Rightarrow> 'z kmem_scheme \<Rightarrow> 'z kmem_scheme option" where
  "map_size va pa n s = kfor 0 n (\<lambda>i. kernelInsert (va + of_nat i * PAGE_SIZE) (pa + of_nat i * PAGE_SIZE) KERNEL_RW) s"

partial_function (option) map_until :: "u64 \<Rightarrow> u64 \<Rightarrow> u64 \<Rightarrow> u64 \<Rightarrow> 'z kmem_scheme \<Rightarrow> 'z kmem_scheme option" where
  "map_until va fin perm i s = (if va + i < fin then do {
       s \<leftarrow> kernelInsert (va + i) (va + i) perm s;
       map_until va fin perm (i + PAGE_SIZE) s }
     else Some s)"

abbreviation (input) VIRT_OFFSET :: u64 where "VIRT_OFFSET \<equiv> 0x3F00000000"
abbreviation (input) UART :: u64 where "UART \<equiv> 0x10000000"
abbreviation (input) CLINT :: u64 where "CLINT \<equiv> 0x02000000"
abbreviation (input) PLIC :: u64 where "PLIC \<equiv> 0x0c000000"
abbreviation (input) SPI_CTRL_ADDR :: u64 where "SPI_CTRL_ADDR \<equiv> 0x10050000"
abbreviation (input) UART_CTRL_ADDR :: u64 where "UART_CTRL_ADDR \<equiv> 0x10010000"

definition virtualMemory :: "'z kmem_scheme \<Rightarrow> 'z kmem_scheme option" where
  "virtualMemory s = do {
     s \<leftarrow> kernelInsert (UART + VIRT_OFFSET) UART KERNEL_RW s;
     s \<leftarrow> map_size (CLINT + VIRT_OFFSET) CLINT 16 s;
     s \<leftarrow> map_size (PLIC + VIRT_OFFSET) PLIC 4 s;
     s \<leftarrow> map_size (PLIC + VIRT_OFFSET + 0x200000) (PLIC + 0x200000) 4 s;
     s \<leftarrow> kernelInsert SPI_CTRL_ADDR SPI_CTRL_ADDR KERNEL_RW s;
     s \<leftarrow> kernelInsert UART_CTRL_ADDR UART_CTRL_ADDR KERNEL_RW s;
     s \<leftarrow> map_until (kernelStart s) (textEnd s) KERNEL_RWX 0 s;
     s \<leftarrow> map_until (textEnd s) PHYSICAL_MEMORY_TOP KERNEL_RW 0 s;
     s \<leftarrow> kernelInsert TRAMPOLINE_BASE (trampoline s) KERNEL_RWX s;
     kernelInsert (TRAMPOLINE_BASE + PAGE_SIZE) (trampoline s + PAGE_SIZE) KERNEL_RWX s }"

definition memoryInit :: "'z kmem_scheme \<Rightarrow> 'z kmem_scheme option" where
  "memoryInit s = do {
     s \<leftarrow> virtualMemory (initFreePages s);
     Some (resetRef s) }"

section \<open>The pages after boot\<close>

lemma fold_ref: "fold (\<lambda>i s. s\<lparr>page_ref := (page_ref s)(i := c)\<rparr>) xs s = s\<lparr>page_ref := (\<lambda>p. if p \<in> set xs then c else page_ref s p)\<rparr>"
  by (induction xs arbitrary: s) (auto simp: fun_eq_iff)

lemma PA2PPN_top: "unat (PA2PPN PHYSICAL_MEMORY_TOP) = PHYSICAL_PAGE_NUM"
proof -
  have "PA2PPN PHYSICAL_MEMORY_TOP = 0x10000" by code_simp
  then show ?thesis by simp
qed

lemma fold_free:
  "fold (\<lambda>i s. s\<lparr>page_ref := (page_ref s)(i := 0), page_links := LIST_INSERT_HEAD () i (page_links s)\<rparr>) xs s
     = s\<lparr>page_ref := (\<lambda>p. if p \<in> set xs then 0 else page_ref s p),
         page_links := fold (LIST_INSERT_HEAD ()) xs (page_links s)\<rparr>"
  by (induction xs arbitrary: s) (auto simp: fun_eq_iff intro!: kmem.equality)

lemma fold_insert_head:
  "lists_abs l (\<lambda>_. F) \<Longrightarrow> distinct xs \<Longrightarrow> set xs \<inter> set F = {} \<Longrightarrow>
     lists_abs (fold (LIST_INSERT_HEAD ()) xs l) (\<lambda>_. rev xs @ F)"
proof (induction xs arbitrary: l F)
  case (Cons x xs)
  have "lists_abs (LIST_INSERT_HEAD () x l) ((\<lambda>_. F)(() := x # F))"
    using Cons.prems by (intro lists_abs_insert_head) (auto simp: on_lists_def)
  then have "lists_abs (LIST_INSERT_HEAD () x l) (\<lambda>_. x # F)" by (simp add: fun_upd_def)
  from Cons.IH [OF this] Cons.prems show ?case by simp
qed simp

lemma initFreePages_eq:
  assumes "n = unat (PA2PPN (kernelEnd s))"
  shows "initFreePages s = s\<lparr>page_ref := (\<lambda>p. if p \<in> {n..<PHYSICAL_PAGE_NUM} then 0 else if p < n then 1 else page_ref s p),
     page_links := fold (LIST_INSERT_HEAD ()) [n..<PHYSICAL_PAGE_NUM] (LIST_INIT () (page_links s))\<rparr>"
  unfolding initFreePages_def Let_def PA2PPN_top assms [symmetric] fold_ref fold_free by (auto simp: fun_eq_iff)

lemma initFreePages_free:
  assumes "lists_abs (page_links s) L" and "n = unat (PA2PPN (kernelEnd s))"
  shows "free_ok (initFreePages s) (rev [n..<PHYSICAL_PAGE_NUM])"
proof -
  have "lists_abs (LIST_INIT () (page_links s)) (\<lambda>_. [])"
    using lists_abs_init [OF assms(1), of "()"] by (simp add: fun_upd_def)
  from fold_insert_head [OF this, of "[n..<PHYSICAL_PAGE_NUM]"] show ?thesis
    by (auto simp: free_ok_def initFreePages_eq [OF assms(2)])
qed

section \<open>Properties\<close>

text \<open>
  C40: after \<^verbatim>\<open>initFreePages\<close> the free list holds the pages from the end of the kernel to the top of memory,
  each once, from the highest, which is handed out first, down to the lowest; the free pages have no
  reference and the pages of the kernel image one. The first \<^verbatim>\<open>pageAlloc\<close> takes the highest page.
\<close>

theorem initFreePages_correct:
  assumes "lists_abs (page_links s) L" and "n = unat (PA2PPN (kernelEnd s))" and "n \<le> PHYSICAL_PAGE_NUM"
  shows "free_ok (initFreePages s) (rev [n..<PHYSICAL_PAGE_NUM])
    \<and> countFreePages (initFreePages s) = Some (PHYSICAL_PAGE_NUM - n)
    \<and> (\<forall>p < PHYSICAL_PAGE_NUM. page_ref (initFreePages s) p = (if p < n then 1 else 0))
    \<and> (n < PHYSICAL_PAGE_NUM \<longrightarrow> (\<exists>t. pageAlloc (initFreePages s) = Some (PHYSICAL_PAGE_NUM - 1, t)))"
proof -
  note E = initFreePages_free [OF assms(1,2)]
  have "countFreePages (initFreePages s) = Some (length (rev [n..<PHYSICAL_PAGE_NUM]))"
    using E lists_abs_foreach [of "page_links (initFreePages s)" _ "()"]
    by (auto simp: countFreePages_def free_ok_def)
  moreover have "\<exists>t. pageAlloc (initFreePages s) = Some (PHYSICAL_PAGE_NUM - 1, t)" if "n < PHYSICAL_PAGE_NUM"
  proof -
    have "[n..<PHYSICAL_PAGE_NUM] = [n..<PHYSICAL_PAGE_NUM - 1] @ [PHYSICAL_PAGE_NUM - 1]"
      using that upt_Suc_append [of n "PHYSICAL_PAGE_NUM - 1"] by simp
    then have "free_ok (initFreePages s) ((PHYSICAL_PAGE_NUM - 1) # rev [n..<PHYSICAL_PAGE_NUM - 1])" using E by simp
    from pageAlloc_Cons [OF this] show ?thesis by blast
  qed
  moreover have "\<forall>p < PHYSICAL_PAGE_NUM. page_ref (initFreePages s) p = (if p < n then 1 else 0)"
    by (simp add: initFreePages_eq [OF assms(2)])
  ultimately show ?thesis using E unfolding length_rev length_upt by blast
qed

theorem initFreePages_correct_witness:
  "countFreePages (initFreePages (zero_kmem\<lparr>kernelEnd := 0x80400000\<rparr>)) = Some (PHYSICAL_PAGE_NUM - 1024)
    \<and> (\<exists>t. pageAlloc (initFreePages (zero_kmem\<lparr>kernelEnd := 0x80400000\<rparr>)) = Some (PHYSICAL_PAGE_NUM - 1, t))"
proof -
  have "PA2PPN 0x80400000 = 0x400" by code_simp
  then have n: "unat (PA2PPN 0x80400000) = 1024" by simp
  let ?s = "zero_kmem\<lparr>kernelEnd := 0x80400000\<rparr>"
  have h: "lists_abs (page_links ?s) (\<lambda>_. [])" "1024 = unat (PA2PPN (kernelEnd ?s))" "1024 \<le> PHYSICAL_PAGE_NUM"
    using n by simp_all
  note w = initFreePages_correct [OF h, THEN conjunct2]
  show ?thesis using w [THEN conjunct1] w [THEN conjunct2, THEN conjunct2] by simp
qed

end
