(* ===== verification/Trap.thy ===== *)
theory Trap
  imports Syscall Memory_Init
begin

text \<open>
  Traps and the run of the kernel between two stays in user mode: \<^verbatim>\<open>src/kernel/trap/Trap.c\<close>, the table
  \<^verbatim>\<open>syscallVector\<close> of \<^verbatim>\<open>src/kernel/trap/Syscall.c\<close>, and the start in \<^verbatim>\<open>src/kernel/boot/Init.c\<close>. The
  kernel stack of a thread that sleeps is part of the state, in the form of the call that is suspended
  on it.
\<close>

record ktrap = ktimer +
  kstack :: "nat \<Rightarrow> suspended option"

text \<open>
  What the kernel gets from outside: the contents of stack variables before they are set, the cycle
  counter, the addresses of \<^verbatim>\<open>userTrap\<close> and of the array of \<^verbatim>\<open>syscallSendFile\<close>, and the clock: the \<open>k\<close>-th reading within the \<open>n\<close>-th yield.
\<close>

record surroundings =
  junk_bytes :: "u8 list"
  junk_script :: "nat \<Rightarrow> u8 list"
  cycle :: u64
  userTrap_address :: u64
  stack_buffer :: u64
  clock :: "nat \<Rightarrow> nat \<Rightarrow> u64"

section \<open>The table of system calls\<close>

abbreviation plain :: "('s \<Rightarrow> 's) \<Rightarrow> 's \<Rightarrow> (outcome \<times> 's) option" where
  "plain f \<equiv> \<lambda>s. Some (Done, f s)"

abbreviation simple :: "('s \<Rightarrow> 's option) \<Rightarrow> 's \<Rightarrow> (outcome \<times> 's) option" where
  "simple f \<equiv> \<lambda>s. map_option (\<lambda>s. (Done, s)) (f s)"

text \<open>Later entries of the initializer replace earlier ones for the same number.\<close>

definition syscallVector :: "surroundings \<Rightarrow> (u64 \<times> ('z ktrap_scheme \<Rightarrow> (outcome \<times> 'z ktrap_scheme) option)) list" where
  "syscallVector J = [
     (4, plain syscallPutchar), (124, \<lambda>s. Some (syscallYield s)), (220, simple syscallClone), (5, simple syscallPutString),
     (172, simple syscallGetProcessId), (173, simple syscallGetParentProcessId), (260, syscallWait), (20, simple syscallDevice),
     (23, simple syscallDup), (93, syscallExit), (59, simple syscallPipe), (64, syscallWrite), (63, syscallRead),
     (57, simple syscallClose), (56, simple syscallOpenAt), (153, simple (syscallGetCpuTimes (cycle J))),
     (169, simple syscallGetTimeOfDay), (101, syscallSleepTime), (24, simple syscallDupAndSet), (25, simple syscall_fcntl),
     (49, simple syscallChangeDir), (17, simple syscallGetWorkDir), (34, simple syscallMakeDirAt), (214, simple syscallBrk),
     (13, simple syscallSetBrk), (80, simple (syscallGetFileState (junk_bytes J))), (79, simple (syscallGetFileStateAt (junk_bytes J))),
     (222, syscallMapMemory), (215, simple syscallUnMapMemory), (221, simple (syscallExec (junk_script J))),
     (61, simple syscallGetDirent), (40, simple syscallMount), (39, simple syscallUmount), (37, simple syscallLinkAt),
     (35, simple syscallUnlinkAt), (160, simple syscallUname), (96, simple syscallSetTidAddress), (94, plain syscallExitGroup),
     (135, simple (syscallSignProccessMask (junk_bytes J))), (134, simple syscallSignalAction), (137, simple syscallSignalTimedWait),
     (178, simple syscallGetTheardId), (261, simple syscallProcessResourceLimit), (113, simple syscallGetClockTime),
     (62, simple syscallLSeek), (29, simple syscallIOControl), (198, simple syscallSocket), (200, simple (syscallBind (junk_bytes J))),
     (204, simple syscallGetSocketName), (208, plain syscallSetSocketOption), (206, syscallSendTo), (207, syscallReceiveFrom),
     (201, simple syscallListen), (203, syscallConnect (junk_bytes J) (drop 32 (junk_bytes J))), (202, simple (syscallAccept (junk_bytes J))),
     (66, syscallWriteVector), (65, syscallReadVector), (98, syscallFutex), (129, simple syscallProcessKill),
     (130, simple syscallThreadKill), (131, simple syscallThreadGroupKill), (73, simple syscallPoll), (226, simple syscallMemoryProtect),
     (99, simple syscallSetRobustList), (100, simple syscallGetRobustList), (43, simple syscallStateFileSystem),
     (67, simple syscallPRead), (88, simple syscallUtimensat), (175, plain syscallGetUserId), (175, plain syscallGetEffectiveUserId),
     (174, plain syscallGetUserId), (155, plain syscallGetUserId), (154, plain syscallGetUserId), (283, plain syscallMemoryBarrier),
     (139, simple syscallSignalReturn), (116, simple syscallLog), (48, simple syscallAccess), (179, plain syscallSystemInfo),
     (276, plain syscallRenameAt), (78, simple syscallReadLinkAt), (165, simple (syscallGetResouceUsage (junk_bytes J))),
     (72, syscallSelect (junk_bytes J)), (103, simple syscallSetTimer), (166, plain syscallUmask), (82, plain syscallFileSychornize),
     (227, plain syscallMemorySychronize), (1024, simple syscallOpen), (233, plain syscallMemeryAdvise), (176, plain syscallGetGroupId),
     (177, plain syscallGetEffectiveGroupId), (278, plain syscallGetRandom), (53, plain syscallChangeModAt),
     (71, syscallSendFile (stack_buffer J))]"

text \<open>
  The number in \<^verbatim>\<open>a7\<close> is an index into the array of function pointers, which ends with the entry 1024. A
  number without an entry is a NULL pointer, on which the kernel panics. A number behind the end of
  the array reads outside of it, since \<^verbatim>\<open>syscall\<close> does not check it; the behaviour is then undefined, and
  like every such access it is \<open>None\<close>.
\<close>

definition syscall :: "surroundings \<Rightarrow> 'z ktrap_scheme \<Rightarrow> (outcome \<times> 'z ktrap_scheme) option" where
  "syscall J s = do {
     f \<leftarrow> map_of (rev (syscallVector J)) (arg tf_a7 s);
     f s }"

text \<open>Going on with a call after \<^verbatim>\<open>sleep\<close> returns.\<close>

definition resume_call :: "suspended \<Rightarrow> 'z kio_scheme \<Rightarrow> (outcome \<times> 'z kio_scheme) option" where
  "resume_call c s = (case c of
     InRead pgdir pi addr n pa \<Rightarrow>
       map_option (finish word_of_int (InRead pgdir pi addr n)) (pipeRead_resume kernel_reader pgdir pi True addr n pa s)
   | InWrite pgdir pi addr n l \<Rightarrow>
       map_option (finish word_of_int (InWrite pgdir pi addr n)) (pipeWrite_resume kernel_reader pgdir pi True addr n l s)
   | InReadV pgdir pi f vs len pa \<Rightarrow> do {
       (r, s) \<leftarrow> pipeRead_resume kernel_reader pgdir pi True (fst (hd vs)) (to_int (snd (hd vs))) pa s;
       case r of Returns r \<Rightarrow> readv_loop pgdir f (tl vs) (len + word_of_int r) s
       | _ \<Rightarrow> Some (finish word_of_int (InReadV pgdir pi f vs len) (r, s)) }
   | InWriteV pgdir pi f vs len l \<Rightarrow> do {
       (r, s) \<leftarrow> pipeWrite_resume kernel_reader pgdir pi True (fst (hd vs)) (to_int (snd (hd vs))) l s;
       case r of Returns r \<Rightarrow> writev_loop pgdir f (tl vs) (len + word_of_int r) s
       | _ \<Rightarrow> Some (finish word_of_int (InWriteV pgdir pi f vs len) (r, s)) }
   | InMap pgdir pi start n pa \<Rightarrow>
       map_option (finish (\<lambda>r. if r \<ge> 0 then start else - 1) (InMap pgdir pi start n))
         (pipeRead_resume kernel_reader pgdir pi True start n pa s)
   | InWait target addr flags \<Rightarrow>
       map_option (finish word_of_int (\<lambda>u. InWait target addr flags)) (wait_resume target addr flags s)
   | InConnect \<Rightarrow> map_option (finish word_of_int (\<lambda>u. InConnect)) (connect_resume s)
   | InSendRead pgdir pi c count sent pa \<Rightarrow> do {
       (r, s) \<leftarrow> pipeRead_resume kernel_reader pgdir pi False (fst c) (send_len count) pa s;
       case r of Returns r \<Rightarrow> send_loop c count sent (HaveRead r) s
       | _ \<Rightarrow> Some (finish word_of_int (InSendRead pgdir pi c count sent) (r, s)) }
   | InSendWrite pgdir pi c count sent n l \<Rightarrow> do {
       (r, s) \<leftarrow> pipeWrite_resume kernel_reader pgdir pi False (fst c) n l s;
       case r of Returns r \<Rightarrow> send_loop c count sent (HaveWritten r) s
       | _ \<Rightarrow> Some (finish word_of_int (InSendWrite pgdir pi c count sent n) (r, s)) })"

section \<open>Returning to user mode\<close>

text \<open>The result says whether the thread has to be destroyed instead.\<close>

definition userTrapReturn :: "surroundings \<Rightarrow> 'z ktrap_scheme \<Rightarrow> (bool \<times> 'z ktrap_scheme) option" where
  "userTrapReturn J s = do {
     th \<leftarrow> myThread s;
     let s = s\<lparr>hartTrapframe := (hartTrapframe s)(tf_kernelSp := getThreadTopSp th, tf_trapHandler := userTrap_address J,
       tf_kernelHartId := r_hartid s)\<rparr>;
     handleSignal kernel_reader th s }"

text \<open>What the kernel does next.\<close>

datatype control = Ended outcome | Switched resumes

text \<open>
  From the end of a piece of kernel code to user mode: the kernel may switch between threads many
  times; \<open>n\<close> counts the yields.
\<close>

partial_function (option) run :: "surroundings \<Rightarrow> nat \<Rightarrow> control \<Rightarrow> 'z ktrap_scheme \<Rightarrow> 'z ktrap_scheme option" where
  "run J n c s = (case c of
     Switched InKernel \<Rightarrow> do {
       th \<leftarrow> myThread s;
       call \<leftarrow> kstack s th;
       (r, s) \<leftarrow> resume_call call (s\<lparr>kstack := (kstack s)(th := None)\<rparr>);
       run J n (Ended r) s }
   | Switched ToUser \<Rightarrow> run J n (Ended Done) s
   | Ended Done \<Rightarrow> do {
       (dead, s) \<leftarrow> userTrapReturn J s;
       if dead then run J n (Ended Destroyed) s else Some s }
   | Ended (Sleeping call) \<Rightarrow> do {
       th \<leftarrow> myThread s;
       (r, s) \<leftarrow> yield (clock J n) (s\<lparr>kstack := (kstack s)(th := Some call)\<rparr>);
       run J (n + 1) (Switched r) s }
   | Ended Destroyed \<Rightarrow> do {
       th \<leftarrow> myThread s;
       (r, s) \<leftarrow> threadDestroy (clock J n) th s;
       r \<leftarrow> r;
       run J (n + 1) (Switched r) s }
   | Ended Yields \<Rightarrow> do {
       (r, s) \<leftarrow> yield (clock J n) s;
       run J (n + 1) (Switched r) s })"

section \<open>Traps\<close>

abbreviation (input) SIGSEGV :: int where "SIGSEGV \<equiv> 11"

text \<open>
  An external interrupt carries what \<^verbatim>\<open>interruptServed\<close> reads from the interrupt controller. The numbers
  are those of the build with \<^verbatim>\<open>QEMU\<close>, which \<^verbatim>\<open>Defs.h\<close> defines. A character that comes with an
  interrupt is dropped: \<^verbatim>\<open>consoleInterrupt\<close> is empty.
\<close>

datatype interrupt = ExternalInterrupt nat | TimerInterrupt | OtherInterrupt

abbreviation (input) UART_IRQ :: nat where "UART_IRQ \<equiv> 10"
abbreviation (input) DISK_IRQ :: nat where "DISK_IRQ \<equiv> 1"
abbreviation (input) SOFTWARE_TRAP :: nat where "SOFTWARE_TRAP \<equiv> 1"
abbreviation (input) TIMER_INTERRUPT :: nat where "TIMER_INTERRUPT \<equiv> 2"
abbreviation (input) UNKNOWN_DEVICE :: nat where "UNKNOWN_DEVICE \<equiv> 0"

definition consoleInterrupt :: "u8 \<Rightarrow> 'z kio_scheme \<Rightarrow> 'z kio_scheme" where
  "consoleInterrupt c s = s"

definition trapDevice :: "interrupt \<Rightarrow> u8 option \<Rightarrow> 'z ktimer_scheme \<Rightarrow> (nat \<times> 'z ktimer_scheme) option" where
  "trapDevice i c s = (case i of
     ExternalInterrupt irq \<Rightarrow>
       if irq = UART_IRQ then Some (SOFTWARE_TRAP, case c of None \<Rightarrow> s | Some c \<Rightarrow> consoleInterrupt c s)
       else if irq = DISK_IRQ then Some (SOFTWARE_TRAP, s)
       else do { kassert (irq = 0); Some (SOFTWARE_TRAP, s) }
   | TimerInterrupt \<Rightarrow> Some (TIMER_INTERRUPT, timerTick s)
   | OtherInterrupt \<Rightarrow> Some (UNKNOWN_DEVICE, s))"

text \<open>The cause of a trap from user mode, with the faulting address.\<close>

datatype cause = Interrupt interrupt "u8 option" | EnvironmentCall | LoadPageFault u64 | StorePageFault u64 | OtherFault u64

definition segv :: "'z kproc_scheme \<Rightarrow> 'z kproc_scheme option" where
  "segv s = do {
     p \<leftarrow> myProcess s;
     (r, s) \<leftarrow> processSignalSend (sint (processId (processes s p))) SIGSEGV s;
     Some s }"

definition page_fault :: "bool \<Rightarrow> u64 \<Rightarrow> 'z kfat_scheme \<Rightarrow> 'z kfat_scheme option" where
  "page_fault store va s = do {
     pgdir \<leftarrow> my_pgdir s;
     case pageLookup pgdir va s of (pa, pte) \<Rightarrow>
       if pa = 0 then do { (r, s) \<leftarrow> pageout kernel_reader pgdir va s; Some s }
       else do {
         pte \<leftarrow> pte;
         let e = load64 (mem s) pte;
         if store \<and> e AND PTE_COW \<noteq> 0 then do { (r, s) \<leftarrow> cowHandler pgdir va s; Some s }
         else do {
           kassert (e AND (if store then PTE_WRITE else PTE_READ) = 0);
           segv s } } }"

definition userTrap :: "surroundings \<Rightarrow> cause \<Rightarrow> 'z ktrap_scheme \<Rightarrow> 'z ktrap_scheme option" where
  "userTrap J c s = (case c of
     Interrupt i ch \<Rightarrow> do { (device, s) \<leftarrow> trapDevice i ch s; run J 0 (Ended Yields) s }
   | EnvironmentCall \<Rightarrow> do {
       let s = s\<lparr>hartTrapframe := (hartTrapframe s)(tf_epc := hartTrapframe s tf_epc + 4)\<rparr>;
       (r, s) \<leftarrow> syscall J s;
       run J 0 (Ended r) s }
   | LoadPageFault va \<Rightarrow> do { s \<leftarrow> page_fault False va s; run J 0 (Ended Done) s }
   | StorePageFault va \<Rightarrow> do { s \<leftarrow> page_fault True va s; run J 0 (Ended Done) s }
   | OtherFault va \<Rightarrow> do {
       pgdir \<leftarrow> my_pgdir s;
       (r, s) \<leftarrow> pageout kernel_reader pgdir va s;
       run J 0 (Ended Done) s })"

text \<open>
  A trap from kernel mode: \<open>SPP\<close> and \<open>SIE\<close> are the bits of \<^verbatim>\<open>sstatus\<close> it finds, and an exception is an
  \<^const>\<open>OtherInterrupt\<close>. The result says whether the interrupted code goes on. After a tick of the timer it
  does not: \<^verbatim>\<open>yield\<close> runs a thread, and a thread that was not asleep is later run in user mode.
\<close>

definition kernelTrap :: "surroundings \<Rightarrow> bool \<Rightarrow> bool \<Rightarrow> interrupt \<Rightarrow> u8 option \<Rightarrow> 'z ktrap_scheme
    \<Rightarrow> (bool \<times> 'z ktrap_scheme) option" where
  "kernelTrap J SPP SIE i c s = do {
     kassert SPP;
     kassert (\<not> SIE);
     (device, s) \<leftarrow> trapDevice i c s;
     kassert (device \<noteq> UNKNOWN_DEVICE);
     if device = TIMER_INTERRUPT then map_option (Pair False) (run J 0 (Ended Yields) s)
     else Some (True, s) }"

section \<open>The start of the kernel\<close>

text \<open>
  The hart that boots, after the card is ready: the tables, the first process from its binary, and
  the first yield. Registers and the messages to other harts are not part of the state.
\<close>

definition main :: "surroundings \<Rightarrow> u8 list \<Rightarrow> u32 \<Rightarrow> 'z ktrap_scheme \<Rightarrow> 'z ktrap_scheme option" where
  "main J binary sz s = do {
     s \<leftarrow> memoryInit s;
     let s = processInit s;
     let s = binit s;
     let s = fileinit s;
     let s = signalInit s;
     s \<leftarrow> processCreatePriority binary sz 1 s;
     (r, s) \<leftarrow> yield (clock J 0) s;
     run J 1 (Switched r) s }"

text \<open>
  The second hart to start, over the first turns of the loop of \<^verbatim>\<open>asynInput\<close>, with \<open>arrivals\<close> the characters
  that reach the UART before each: it switches to the kernel's map, clears the ring of the console
  and then only fills it. The other harts wait.
\<close>

definition secondary_main :: "u8 list list \<Rightarrow> 'z kio_scheme \<Rightarrow> u8 list \<times> 'z kio_scheme" where
  "secondary_main arrivals s = fold (\<lambda>cs (uart, s). asynInput (uart @ cs) s) arrivals ([], asynInputInit s)"

end
