(* ===== verification/User_Return.thy ===== *)
theory User_Return
  imports Descriptors Copy_On_Write Trampoline Trap
begin

text \<open>
  The way from a user program through the kernel and back: the trampoline saves the registers
  (\<open>entered\<close>), \<^verbatim>\<open>userTrap\<close> works on the saved frame and ends in \<^verbatim>\<open>userTrapReturn\<close>, and the trampoline
  loads the frame again (\<open>leaving\<close>). The lemmas describe each end for a thread that is neither killed nor
  has a signal to handle (\<open>undisturbed\<close>).
\<close>

section \<open>The two ends of a trap\<close>

text \<open>The kernel works on the frame the trampoline has filled from the registers of \<open>m\<close>.\<close>

definition entered :: "machine \<Rightarrow> 'z kproc_scheme \<Rightarrow> bool" where
  "entered m s \<longleftrightarrow> (\<forall>k < 68. hartTrapframe s k = frame_of (ram (exec_asm userVector m)) (csrs m Sscratch) k)"

text \<open>The hart \<open>m2\<close> is about to run \<^verbatim>\<open>userReturn\<close> on the frame the kernel leaves.\<close>

definition leaving :: "machine \<Rightarrow> 'z kproc_scheme \<Rightarrow> machine \<Rightarrow> bool" where
  "leaving m u m2 \<longleftrightarrow> xr m2 a0 = csrs m Sscratch \<and> (\<forall>k < 68. frame_of (ram m2) (csrs m Sscratch) k = hartTrapframe u k)"

lemma x_index: "\<exists>k < 68. x_offset r = 8 * int k \<and> 5 \<le> k \<and> (k = tf_a0 \<longleftrightarrow> r = a0)"
  by (rule exI [of _ "nat (x_offset r div 8)"], cases r) (simp_all add: x_offset_def frame_x_def)

lemma f_index: "\<exists>k < 68. f_offset r = 8 * int k \<and> 5 \<le> k \<and> k \<noteq> tf_a0"
  by (rule exI [of _ "nat (f_offset r div 8)"], cases r) (simp_all add: f_offset_def frame_f_def)

lemma entered_args:
  assumes "entered m s"
  shows "hartTrapframe s tf_a7 = xr m a7" "hartTrapframe s tf_a0 = xr m a0" "hartTrapframe s tf_epc = csrs m Sepc"
  using assms by (simp_all add: entered_def frame_of_def arg_words [THEN userVector_saved])

lemma back_in_user:
  assumes s: "entered m s" and u: "leaving m u m2"
    and k: "\<And>k. 5 \<le> k \<Longrightarrow> k \<noteq> tf_a0 \<Longrightarrow> hartTrapframe u k = hartTrapframe s k"
  shows "xr (exec_asm userReturn m2) = (xr m)(a0 := hartTrapframe u tf_a0)" "fr (exec_asm userReturn m2) = fr m"
    "pc (exec_asm userReturn m2) = hartTrapframe u tf_epc"
proof -
  let ?a = "csrs m Sscratch"
  have load: "load64 (ram m2) (ea ?a (8 * int k)) = hartTrapframe u k" if "k < 68" for k
    using u that by (simp add: leaving_def frame_of_def)
  have saved: "hartTrapframe s k = v" if "k < 68" "map_of (frame_words m) (8 * int k) = Some v" for k v
    using s that userVector_saved [OF that(2)] by (simp add: entered_def frame_of_def)
  have "load64 (ram m2) (ea ?a (x_offset r)) = ((xr m)(a0 := hartTrapframe u tf_a0)) r" for r
  proof -
    obtain i where i: "i < 68" "x_offset r = 8 * int i" "5 \<le> i" "i = tf_a0 \<longleftrightarrow> r = a0" using x_index [of r] by blast
    then show ?thesis using load [OF i(1)] k [OF i(3)] saved [OF i(1), of "xr m r"] x_offset_saved [of m r] by (cases "r = a0") simp_all
  qed
  moreover have "load64 (ram m2) (ea ?a (f_offset r)) = fr m r" for r
  proof -
    obtain i where i: "i < 68" "f_offset r = 8 * int i" "5 \<le> i" "i \<noteq> tf_a0" using f_index [of r] by blast
    then show ?thesis using load [OF i(1)] k [OF i(3,4)] saved [OF i(1), of "fr m r"] f_offset_saved [of m r] by simp
  qed
  moreover have "load64 (ram m2) (ea ?a 24) = hartTrapframe u tf_epc" using load [of tf_epc] by simp
  moreover have "xr m2 a0 = ?a" using u by (simp add: leaving_def)
  ultimately show "xr (exec_asm userReturn m2) = (xr m)(a0 := hartTrapframe u tf_a0)" "fr (exec_asm userReturn m2) = fr m"
    "pc (exec_asm userReturn m2) = hartTrapframe u tf_epc"
    by (auto simp: userReturn_run fun_eq_iff)
qed

text \<open>A hart that is about to return: its memory holds the frame.\<close>

definition frame_image :: "(nat \<Rightarrow> u64) \<Rightarrow> (int \<times> u64) list" where
  "frame_image tf = map (\<lambda>k. (8 * int k, tf k)) [0..<68]"

lemma leaving_exists: "leaving m u (m\<lparr>xr := \<lambda>_. csrs m Sscratch, ram := put_words (csrs m Sscratch) (frame_image (hartTrapframe u)) (ram m)\<rparr>)"
proof -
  let ?W = "frame_image (hartTrapframe u)"
  have d: "distinct (map fst ?W)" by (auto simp: frame_image_def distinct_map comp_def intro!: inj_onI)
  have w: "\<forall>i \<in> set (map fst ?W). word_offset i" by (auto simp: frame_image_def word_offset_def)
  have "load64 (put_words (csrs m Sscratch) ?W (ram m)) (ea (csrs m Sscratch) (8 * int k)) = hartTrapframe u k" if "k < 68" for k
  proof -
    have "(8 * int k, hartTrapframe u k) \<in> set ?W" using that by (auto simp: frame_image_def)
    then have "map_of ?W (8 * int k) = Some (hartTrapframe u k)" using d by simp
    then show ?thesis using that load_put_words [OF d w, of "8 * int k"] by (simp add: word_offset_def)
  qed
  then show ?thesis by (simp add: leaving_def frame_of_def)
qed

section \<open>The end of \<^verbatim>\<open>userTrap\<close>\<close>

definition undisturbed :: "nat \<Rightarrow> 'z kproc_scheme \<Rightarrow> bool" where
  "undisturbed th s \<longleftrightarrow> myThread s = Some th \<and> \<not> killed (threads s th) \<and> getFirstSignalContext th s = Some None"

lemma first_context_cong:
  "signalContexts t = signalContexts s \<Longrightarrow> threads t = threads s \<Longrightarrow> first_context scs th t = first_context scs th s"
  by (induction scs) (simp_all cong: Option.bind_cong if_cong)

lemma undisturbed_cong:
  assumes "signalContexts t = signalContexts s" "threads t = threads s" "signal_links t = signal_links s" "currentThread t = currentThread s"
  shows "undisturbed th t \<longleftrightarrow> undisturbed th s"
  using assms first_context_cong [OF assms(1,2)]
  by (auto simp: undisturbed_def myThread_def getFirstSignalContext_def bind_eq_Some_conv)

text \<open>The frame with the values the next trap needs.\<close>

definition next_frame :: "surroundings \<Rightarrow> nat \<Rightarrow> 'z kmem_scheme \<Rightarrow> nat \<Rightarrow> u64" where
  "next_frame J th s = (hartTrapframe s)(tf_kernelSp := getThreadTopSp th, tf_trapHandler := userTrap_address J, tf_kernelHartId := r_hartid s)"

lemma run_done:
  assumes "undisturbed th s"
  shows "run J n (Ended Done) s = Some (s\<lparr>hartTrapframe := next_frame J th s\<rparr>)"
proof -
  let ?s = "s\<lparr>hartTrapframe := next_frame J th s\<rparr>"
  have "undisturbed th ?s" using assms by (subst undisturbed_cong [of _ s]) simp_all
  then have "handleSignal kernel_reader th ?s = Some (False, ?s)" by (simp add: undisturbed_def handleSignal.simps)
  then have "userTrapReturn J s = Some (False, ?s)"
    using assms by (simp add: userTrapReturn_def undisturbed_def next_frame_def)
  then show ?thesis by (simp add: run.simps)
qed

section \<open>What the handlers leave alone\<close>

lemma only_mem_cow: "cowHandler pg va s = Some (pa, t) \<Longrightarrow> only_mem s t"
proof -
  assume "cowHandler pg va s = Some (pa, t)"
  then obtain q s1 m perm r where 1: "pageAlloc s = Some (q, s1)" and 2: "pageInsert pg va (page2pa q) perm (s1\<lparr>mem := m\<rparr>) = Some (r, t)"
    by (auto simp: cowHandler_def bind_eq_Some_conv Let_def case_prod_unfold)
  have "only_mem s1 (s1\<lparr>mem := m\<rparr>)" by simp
  from only_mem_trans [OF only_mem_alloc [OF 1] only_mem_trans [OF this only_mem_insert [OF 2]]] show ?thesis .
qed

lemma dup_frame:
  assumes "syscallDup s = Some t"
  shows "\<exists>P F v. t = s\<lparr>processes := P, ftable := F, hartTrapframe := (hartTrapframe s)(tf_a0 := v)\<rparr>"
proof -
  have *: "\<exists>P F v. ret x (s\<lparr>processes := P', ftable := F'\<rparr>) = s\<lparr>processes := P, ftable := F, hartTrapframe := (hartTrapframe s)(tf_a0 := v)\<rparr>" for x P' F'
    by (intro exI [of _ P'] exI [of _ F'] exI [of _ "word_of_int x"]) (simp add: ret64_def)
  obtain f where f: "fd_file (iarg tf_a0 s) s = Some f" using assms by (auto simp: syscallDup_def bind_eq_Some_conv)
  show ?thesis
  proof (cases f)
    case None
    then have "t = ret (- 1) (s\<lparr>processes := processes s, ftable := ftable s\<rparr>)" using assms f by (simp add: syscallDup_def)
    then show ?thesis using * by blast
  next
    case (Some g)
    then obtain fd s1 where fd: "fdalloc g s = Some (fd, s1)"
      and t: "(if fd < 0 then Some (ret (- EMFILE) s1) else do { s \<leftarrow> filedup g s1; Some (ret fd s) }) = Some t"
      using assms f by (auto simp: syscallDup_def bind_eq_Some_conv)
    have "s1 = s\<lparr>processes := processes s1\<rparr>"
      using fd by (auto simp: fdalloc_def bind_eq_Some_conv split: option.splits if_splits)
    then obtain P where P: "s1 = s\<lparr>processes := P\<rparr>" by blast
    have "\<exists>x F. t = ret x (s\<lparr>processes := P, ftable := F\<rparr>)"
    proof (cases "fd < 0")
      case True
      then have "t = ret (- EMFILE) (s\<lparr>processes := P, ftable := ftable s\<rparr>)" using t P by simp
      then show ?thesis by blast
    next
      case False
      then have "t = ret fd (s\<lparr>processes := P, ftable := (ftable s)(g := (ftable s g)\<lparr>f_ref := f_ref (ftable s g) + 1\<rparr>)\<rparr>)"
        using t P by (auto simp: filedup_def bind_eq_Some_conv)
      then show ?thesis by blast
    qed
    then show ?thesis using * by blast
  qed
qed

end
