(* ===== verification/Print.thy ===== *)
theory Print
  imports CString Socket
begin

text \<open>
  The formatted output of the kernel, \<^verbatim>\<open>src/kernel/driver/Print.c\<close>. Characters are bytes, the format is given
  without its NUL, and the variable arguments are the 64-bit registers or stack slots that hold them.
  The 128 bytes of \<^verbatim>\<open>buf\<close> on the stack are a list; a store outside of it is undefined and gives
  \<open>None\<close>.
\<close>

section \<open>Filling the buffer\<close>

definition put_byte :: "u8 list \<Rightarrow> nat \<Rightarrow> u8 \<Rightarrow> u8 list option" where
  "put_byte buf i c = (if i < length buf then Some (buf[i := c]) else None)"

text \<open>A loop that stores the bytes \<open>cs\<close> from index \<open>i\<close> on.\<close>

primrec put_bytes :: "u8 list \<Rightarrow> nat \<Rightarrow> u8 list \<Rightarrow> u8 list option" where
  "put_bytes buf i [] = Some buf"
| "put_bytes buf i (c # cs) = do { buf \<leftarrow> put_byte buf i c; put_bytes buf (i + 1) cs }"

abbreviation (input) minus_sign :: u8 where "minus_sign \<equiv> 45"
abbreviation (input) zero_digit :: u8 where "zero_digit \<equiv> 48"
abbreviation (input) blank :: u8 where "blank \<equiv> 32"

definition printChar :: "u8 list \<Rightarrow> u8 \<Rightarrow> nat \<Rightarrow> bool \<Rightarrow> u8 list option" where
  "printChar buf c len ladjust = do {
     let len = max len 1;
     buf \<leftarrow> (if ladjust then put_bytes buf 0 (c # replicate (len - 1) blank)
            else put_bytes buf 0 (replicate (len - 1) blank @ [c]));
     put_byte buf len 0 }"

definition printString :: "u8 list \<Rightarrow> u8 list \<Rightarrow> nat \<Rightarrow> bool \<Rightarrow> u8 list option" where
  "printString buf str len ladjust = do {
     let len = max len (length str);
     buf \<leftarrow> (if ladjust then put_bytes buf 0 (str @ replicate (len - length str) blank)
            else put_bytes buf 0 (replicate (len - length str) blank @ str));
     put_byte buf len 0 }"

text \<open>The digits of a number, the lowest first; the bases in use are 8, 10 and 16.\<close>

definition digit_char :: "bool \<Rightarrow> u64 \<Rightarrow> u8" where
  "digit_char upcase tmp = (if tmp \<le> 9 then zero_digit + ucast tmp else if upcase then 65 + ucast tmp - 10 else 97 + ucast tmp - 10)"

function num_chars :: "bool \<Rightarrow> u64 \<Rightarrow> u64 \<Rightarrow> u8 list" where
  "num_chars upcase base u =
     digit_char upcase (u mod base) # (if 2 \<le> base \<and> u div base \<noteq> 0 then num_chars upcase base (u div base) else [])"
  by pat_completeness auto
termination
proof (relation "measure (\<lambda>(upcase, base, u). unat u)")
  fix base u :: u64
  assume "2 \<le> base \<and> u div base \<noteq> 0"
  then have "2 \<le> unat base" "unat (u div base) = unat u div unat base" "0 < unat u"
    by (auto simp: word_le_nat_alt unat_div unat_gt_0)
  then show "((upcase, base, u div base), (upcase, base, u)) \<in> measure (\<lambda>(upcase, base, u). unat u)" for upcase :: bool
    by simp
qed simp

declare num_chars.simps [simp del]

text \<open>The loop that reverses the buffer between two indices.\<close>

function reverse_between :: "u8 list \<Rightarrow> nat \<Rightarrow> nat \<Rightarrow> u8 list" where
  "reverse_between buf i j =
     (if j > i then reverse_between (buf[i := buf ! j, j := buf ! i]) (i + 1) (j - 1) else buf)"
  by pat_completeness auto
termination
  by (relation "measure (\<lambda>(buf, i, j). j - i)") auto

declare reverse_between.simps [simp del]

definition printNum :: "u8 list \<Rightarrow> u64 \<Rightarrow> u64 \<Rightarrow> bool \<Rightarrow> nat \<Rightarrow> bool \<Rightarrow> u8 \<Rightarrow> bool \<Rightarrow> u8 list option" where
  "printNum buf u base negFlag len ladjust padc upcase = do {
     let chars = num_chars upcase base u @ (if negFlag then [minus_sign] else []);
     buf \<leftarrow> put_bytes buf 0 chars;
     let actualLength = length chars;
     let len = max len actualLength;
     let padc = (if ladjust then blank else padc);
     buf \<leftarrow> (if negFlag \<and> \<not> ladjust \<and> padc = zero_digit then do {
              buf \<leftarrow> put_bytes buf (actualLength - 1) (replicate (len - actualLength) padc);
              put_byte buf (len - 1) minus_sign }
            else put_bytes buf actualLength (replicate (len - actualLength) padc));
     put_byte (reverse_between buf 0 (if ladjust then actualLength - 1 else len - 1)) len 0 }"

section \<open>Formats\<close>

primrec putString :: "u8 list \<Rightarrow> 'z kio_scheme \<Rightarrow> 'z kio_scheme" where
  "putString [] s = s"
| "putString (c # cs) s = (if c = 0 then s else putString cs (putchar c (if c = 10 then putchar 13 s else s)))"

definition IsDigit :: "u8 \<Rightarrow> bool" where
  "IsDigit c \<longleftrightarrow> 48 \<le> c \<and> c \<le> 57"

definition cur :: "u8 list \<Rightarrow> u8" where
  "cur fs = (case fs of [] \<Rightarrow> 0 | c # cs \<Rightarrow> c)"

primrec parse_digits :: "nat \<Rightarrow> u8 list \<Rightarrow> nat \<times> u8 list" where
  "parse_digits w [] = (w, [])"
| "parse_digits w (c # cs) = (if IsDigit c then parse_digits (10 * w + unat c - 48) cs else (w, c # cs))"

text \<open>
  The part of a conversion before its letter: adjustment, padding, width and the flag for long
  arguments. The precision is read and not used.
\<close>

definition parse_spec :: "u8 list \<Rightarrow> bool \<times> u8 \<times> nat \<times> bool \<times> u8 list" where
  "parse_spec fs = (let
     (ladjust, fs) = (if cur fs = minus_sign then (True, tl fs) else (False, fs));
     (padc, fs) = (if cur fs = zero_digit then (zero_digit, tl fs) else (blank, fs));
     (width, fs) = parse_digits 0 fs;
     fs = (if cur fs = 46 then snd (parse_digits 0 (tl fs)) else fs);
     (longFlag, fs) = (if cur fs = 108 then (True, tl fs) else (False, fs))
     in (ladjust, padc, width, longFlag, fs))"

definition va_num :: "bool \<Rightarrow> u64 \<Rightarrow> u64" where
  "va_num longFlag a = (if longFlag then a else scast (ucast a :: u32))"

text \<open>The string behind an argument of \<^verbatim>\<open>%s\<close>.\<close>

definition va_string :: "bytes \<Rightarrow> u64 \<Rightarrow> u8 list option" where
  "va_string m a = (if a = 0 then Some [40, 110, 117, 108, 108, 41]
     else map_option (\<lambda>n. map (\<lambda>i. m (a + of_nat i)) [0..<n]) (strlen m a))"

definition print_number :: "u8 list \<Rightarrow> u64 \<Rightarrow> u64 \<Rightarrow> bool \<Rightarrow> nat \<Rightarrow> bool \<Rightarrow> u8 \<Rightarrow> bool \<Rightarrow> 'z kio_scheme
    \<Rightarrow> (u8 list \<times> 'z kio_scheme) option" where
  "print_number buf u base negFlag width ladjust padc upcase s = do {
     buf \<leftarrow> printNum buf u base negFlag width ladjust padc upcase;
     Some (buf, putString buf s) }"

text \<open>One conversion with the letter \<open>c\<close>.\<close>

definition print_conversion :: "bool \<Rightarrow> u8 \<Rightarrow> nat \<Rightarrow> bool \<Rightarrow> u8 \<Rightarrow> u8 list \<Rightarrow> u64 list \<Rightarrow> 'z kio_scheme
    \<Rightarrow> (u8 list \<times> u64 list \<times> 'z kio_scheme) option" where
  "print_conversion ladjust padc width longFlag c buf args s =
     (if c \<in> {99, 68, 100, 79, 111, 85, 117, 120, 88, 115} then do {
        kassert (args \<noteq> []);
        let a = hd args;
        let num = va_num longFlag a;
        (buf, s) \<leftarrow> (
          if c = 99 then do { buf \<leftarrow> printChar buf (ucast a) width ladjust; Some (buf, putchar (ucast a) s) }
          else if c = 68 \<or> c = 100 then
            (if num <s 0 then print_number buf (- num) 10 True width ladjust padc False s
             else print_number buf num 10 False width ladjust padc False s)
          else if c = 79 \<or> c = 111 then print_number buf num 8 False width ladjust padc False s
          else if c = 85 \<or> c = 117 then print_number buf num 10 False width ladjust padc False s
          else if c = 120 then print_number buf num 16 False width ladjust padc False s
          else if c = 88 then print_number buf num 16 False width ladjust padc True s
          else do {
            str \<leftarrow> va_string (mem s) a;
            buf \<leftarrow> printString buf str width ladjust;
            Some (buf, putString buf s) });
        Some (buf, tl args, s) }
      else Some (buf, args, putchar c s))"

lemma parse_digits_length: "length (snd (parse_digits w fs)) \<le> length fs"
  by (induction fs arbitrary: w) (auto simp: le_Suc_eq)

lemma parse_spec_length: "parse_spec fs = (l, p, w, g, rest) \<Longrightarrow> length rest \<le> length fs"
proof -
  have *: "length (snd (parse_digits w (tl xs))) \<le> length xs" "length (snd (parse_digits w xs)) \<le> length xs" for w xs
    using parse_digits_length [of w "tl xs"] parse_digits_length [of w xs] by auto
  show "parse_spec fs = (l, p, w, g, rest) \<Longrightarrow> length rest \<le> length fs"
    by (auto simp: parse_spec_def Let_def split: if_splits prod.splits)
       (metis * diff_le_self le_trans length_tl snd_conv)+
qed

function print :: "u8 list \<Rightarrow> u8 list \<Rightarrow> u64 list \<Rightarrow> 'z kio_scheme \<Rightarrow> 'z kio_scheme option" where
  "print buf [] args s = Some s"
| "print buf (ch # fs) args s =
     (if ch \<noteq> 37 then print buf fs args (putchar ch (if ch = 10 then putchar 13 s else s))
      else case parse_spec fs of (ladjust, padc, width, longFlag, fs) \<Rightarrow> do {
        kassert (width < 2 ^ 31);
        case fs of [] \<Rightarrow> Some s
        | c # fs \<Rightarrow> do {
            (buf, args, s) \<leftarrow> print_conversion ladjust padc width longFlag c buf args s;
            print buf fs args s } })"
  by pat_completeness auto
termination
  by (relation "measure (\<lambda>(buf, fs, args, s). length fs)") (auto dest: parse_spec_length [OF sym])

section \<open>What a printed number looks like\<close>

lemma put_bytes_eq: "put_bytes buf i cs =
    (if cs = [] \<or> i + length cs \<le> length buf then Some (take i buf @ cs @ drop (i + length cs) buf) else None)"
proof (induction cs arbitrary: buf i)
  case (Cons c cs)
  show ?case
  proof (cases "i < length buf")
    case True
    then have "take (Suc i) (buf[i := c]) = take i buf @ [c]"
      by (simp add: take_Suc_conv_app_nth)
    then show ?thesis
      using True by (auto simp: put_byte_def Cons.IH not_le)
  qed (simp add: put_byte_def)
qed simp

lemma length_reverse_between [simp]: "length (reverse_between buf i j) = length buf"
  by (induction buf i j rule: reverse_between.induct) (subst reverse_between.simps, simp)

lemma reverse_between_nth:
  "j < length buf \<Longrightarrow> k < length buf \<Longrightarrow>
    reverse_between buf i j ! k = (if i \<le> k \<and> k \<le> j then buf ! (i + j - k) else buf ! k)"
proof (induction buf i j rule: reverse_between.induct)
  case (1 buf i j)
  show ?case
  proof (cases "i < j")
    case True
    then show ?thesis
      using "1.IH" [OF True] "1.prems" by (subst reverse_between.simps) (auto simp: nth_list_update)
  next
    case False
    then have "i \<le> k \<and> k \<le> j \<longrightarrow> i + j - k = k" by auto
    with False show ?thesis
      by (subst reverse_between.simps) auto
  qed
qed

lemma reverse_prefix:
  assumes "n < length buf"
  shows "reverse_between buf 0 n = rev (take (Suc n) buf) @ drop (Suc n) buf"
  using assms
  by (intro nth_equalityI) (auto simp: reverse_between_nth nth_append rev_nth)

definition num_field :: "u64 \<Rightarrow> u64 \<Rightarrow> bool \<Rightarrow> nat \<Rightarrow> bool \<Rightarrow> u8 \<Rightarrow> bool \<Rightarrow> u8 list" where
  "num_field u base negFlag len ladjust padc upcase = (let
     ds = rev (num_chars upcase base u);
     sgn = (if negFlag then [minus_sign] else []);
     pad = len - (length ds + length sgn)
     in if ladjust then sgn @ ds @ replicate pad blank
        else if padc = zero_digit then sgn @ replicate pad zero_digit @ ds
        else replicate pad padc @ sgn @ ds)"

lemma num_chars_nonempty [simp]: "num_chars upcase base u \<noteq> []"
  by (subst num_chars.simps) simp

lemma num_field_length: "length (num_field u base negFlag len ladjust padc upcase)
    = max len (length (num_chars upcase base u) + (if negFlag then 1 else 0))"
  by (simp add: num_field_def Let_def max_def)

text \<open>What one run of the stores and the reversal leaves, whatever was in the buffer.\<close>

lemma put_bytes_append: "put_bytes buf i (xs @ ys) = do { buf \<leftarrow> put_bytes buf i xs; put_bytes buf (i + length xs) ys }"
  by (induction xs arbitrary: buf i) (simp_all add: Option.bind_assoc)

lemma put_sign_last: "do { b \<leftarrow> put_bytes buf 0 (ds @ [c]); b \<leftarrow> put_bytes b (length ds) zs; put_byte b (length ds + length zs) c }
    = put_bytes buf 0 (ds @ zs @ [c])"
proof (cases "length ds + length zs < length buf")
  case True
  let ?r = "drop (Suc (length ds)) buf"
  have "put_bytes buf 0 (ds @ [c]) = Some (ds @ c # ?r)"
    using True by (simp add: put_bytes_eq)
  moreover have "put_bytes (ds @ c # ?r) (length ds) zs = Some (ds @ zs @ drop (length zs) (c # ?r))"
    using True by (auto simp: put_bytes_eq)
  moreover have "put_byte (ds @ zs @ drop (length zs) (c # ?r)) (length ds + length zs) c
      = Some (ds @ zs @ c # drop (Suc (length ds + length zs)) buf)"
    using True by (cases zs rule: rev_cases)
      (auto simp: put_byte_def list_update_append Cons_nth_drop_Suc [symmetric] add.commute)
  moreover have "put_bytes buf 0 (ds @ zs @ [c]) = Some (ds @ zs @ c # drop (Suc (length ds + length zs)) buf)"
    using True by (simp add: put_bytes_eq)
  ultimately show ?thesis by simp
next
  case False
  then show ?thesis
    by (auto simp: put_bytes_eq put_byte_def bind_eq_None_conv split: bind_splits)
qed

lemma reverse_stored:
  assumes "xs \<noteq> []" "length xs \<le> length buf"
  shows "reverse_between (xs @ ys @ drop n buf) 0 (length xs - 1) = rev xs @ ys @ drop n buf"
proof -
  have "length xs - 1 < length (xs @ ys @ drop n buf)" using assms by (cases xs) auto
  then show ?thesis using assms by (subst reverse_prefix) auto
qed

lemma end_string: "put_byte (xs @ drop (length xs) buf) (length xs) 0
    = (if length xs < length buf then Some (xs @ 0 # drop (Suc (length xs)) buf) else None)"
  by (auto simp: put_byte_def list_update_append Cons_nth_drop_Suc [symmetric])

text \<open>Storing \<open>xs\<close> and \<open>ys\<close>, turning \<open>xs\<close> round and ending the string.\<close>

lemma store_reverse_end:
  assumes "xs \<noteq> []"
  shows "do { b \<leftarrow> put_bytes buf 0 (xs @ ys); put_byte (reverse_between b 0 (length xs - 1)) (length (xs @ ys)) 0 }
    = (if length (xs @ ys) < length buf then Some (rev xs @ ys @ 0 # drop (Suc (length (xs @ ys))) buf) else None)"
proof (cases "length (xs @ ys) \<le> length buf")
  case True
  then have "put_bytes buf 0 (xs @ ys) = Some (xs @ ys @ drop (length (xs @ ys)) buf)"
    by (simp add: put_bytes_eq)
  moreover have "reverse_between (xs @ ys @ drop (length (xs @ ys)) buf) 0 (length xs - 1) = rev xs @ ys @ drop (length (xs @ ys)) buf"
    using assms True by (intro reverse_stored) auto
  ultimately show ?thesis
    using end_string [of "rev xs @ ys" buf] by simp
qed (use assms in \<open>simp add: put_bytes_eq\<close>)

lemma put_bytes_twice: "do { b \<leftarrow> put_bytes buf 0 xs; b \<leftarrow> put_bytes b (length xs) ys; F b } = do { b \<leftarrow> put_bytes buf 0 (xs @ ys); F b }"
  by (simp add: put_bytes_append Option.bind_assoc)

lemma put_sign_then: "do { b \<leftarrow> put_bytes buf 0 (ds @ [c]);
      b \<leftarrow> do { b \<leftarrow> put_bytes b (length ds) zs; put_byte b (length ds + length zs) c }; F b }
    = do { b \<leftarrow> put_bytes buf 0 (ds @ zs @ [c]); F b }"
  by (simp only: put_sign_last [symmetric] Option.bind_assoc)

lemma printNum_stores:
  fixes u base :: u64 and upcase negFlag :: bool
  defines "cs \<equiv> num_chars upcase base u @ (if negFlag then [minus_sign] else [])"
  shows "printNum buf u base negFlag len ladjust padc upcase =
    (case (if ladjust then (cs, replicate (len - length cs) blank)
       else if negFlag \<and> padc = zero_digit then (num_chars upcase base u @ replicate (len - length cs) padc @ [minus_sign], [])
       else (cs @ replicate (len - length cs) padc, []))
     of (xs, ys) \<Rightarrow> do { b \<leftarrow> put_bytes buf 0 (xs @ ys); put_byte (reverse_between b 0 (length xs - 1)) (length (xs @ ys)) 0 })"
proof -
  let ?ds = "num_chars upcase base u" and ?k = "len - length cs"
  have L: "max len (length cs) = length cs + ?k" "max len (length cs) - length cs = ?k" by auto
  show ?thesis
  proof (cases "negFlag \<and> \<not> ladjust \<and> padc = zero_digit")
    case True
    then have cs: "cs = ?ds @ [minus_sign]" by (simp add: cs_def)
    then have n: "length cs - 1 = length ?ds" "length cs + ?k - 1 = length ?ds + length (replicate ?k padc)" by auto
    have "printNum buf u base negFlag len ladjust padc upcase = do { b \<leftarrow> put_bytes buf 0 cs;
        b \<leftarrow> do { b \<leftarrow> put_bytes b (length cs - 1) (replicate ?k padc); put_byte b (length cs + ?k - 1) minus_sign };
        put_byte (reverse_between b 0 (length cs + ?k - 1)) (length cs + ?k) 0 }"
      unfolding printNum_def Let_def cs_def [symmetric] L using True by simp
    also have "\<dots> = do { b \<leftarrow> put_bytes buf 0 (?ds @ replicate ?k padc @ [minus_sign]);
        put_byte (reverse_between b 0 (length cs + ?k - 1)) (length cs + ?k) 0 }"
      unfolding n unfolding cs by (rule put_sign_then)
    also have "length cs + ?k = length (?ds @ replicate ?k padc @ [minus_sign])"
      by (simp add: cs)
    finally show ?thesis using True by simp
  next
    case False
    then show ?thesis
      unfolding printNum_def Let_def cs_def [symmetric] L
      by (auto simp: put_bytes_twice)
  qed
qed

lemma printNum_eq: "printNum buf u base negFlag len ladjust padc upcase =
    (let f = num_field u base negFlag len ladjust padc upcase
     in if length f < length buf then Some (f @ 0 # drop (Suc (length f)) buf) else None)"
proof -
  let ?cs = "num_chars upcase base u @ (if negFlag then [minus_sign] else [])"
  obtain xs ys where xy: "(if ladjust then (?cs, replicate (len - length ?cs) blank)
       else if negFlag \<and> padc = zero_digit then (num_chars upcase base u @ replicate (len - length ?cs) padc @ [minus_sign], [])
       else (?cs @ replicate (len - length ?cs) padc, [])) = (xs, ys)"
    by (rule prod.exhaust)
  then have "xs \<noteq> []" by (auto split: if_splits)
  moreover have "num_field u base negFlag len ladjust padc upcase = rev xs @ ys"
    using xy by (auto simp: num_field_def Let_def split: if_splits)
  ultimately show ?thesis
    unfolding printNum_stores xy prod.case by (subst store_reverse_end) (simp_all add: Let_def)
qed

section \<open>Reading the digits back\<close>

definition char_value :: "u8 \<Rightarrow> nat" where
  "char_value c = (if c \<le> 57 then unat c - 48 else if c \<le> 70 then unat c - 55 else unat c - 87)"

definition chars_value :: "nat \<Rightarrow> u8 list \<Rightarrow> nat" where
  "chars_value base cs = foldl (\<lambda>v c. v * base + char_value c) 0 cs"

lemma char_value_digit: "d < 16 \<Longrightarrow> char_value (digit_char upcase d) = unat d"
proof -
  assume "d < 16"
  then have "unat d < 16" by (simp add: word_less_nat_alt)
  moreover have "d = of_nat (unat d)" by simp
  ultimately obtain k where k: "k < 16" "d = of_nat k" by blast
  have "list_all (\<lambda>k. char_value (digit_char True (of_nat k)) = k \<and> char_value (digit_char False (of_nat k)) = k) [0..<16]"
    by code_simp
  then have "char_value (digit_char upcase (of_nat k)) = k"
    using k by (cases upcase) (auto simp: list_all_iff)
  then show ?thesis
    using k by (simp add: unat_of_nat)
qed

lemma num_chars_value: "2 \<le> base \<Longrightarrow> base \<le> 16 \<Longrightarrow> chars_value (unat base) (rev (num_chars upcase base u)) = unat u"
proof (induction upcase base u rule: num_chars.induct)
  case (1 upcase base u)
  have b: "2 \<le> unat base" "unat base \<le> 16" using "1.prems" by (simp_all add: word_le_nat_alt)
  have "unat (u mod base) < unat base" using b by (simp add: unat_mod)
  then have "u mod base < 16" using b by (simp add: word_less_nat_alt)
  then have d: "char_value (digit_char upcase (u mod base)) = unat u mod unat base"
    by (simp add: char_value_digit unat_mod)
  show ?case
  proof (cases "u div base = 0")
    case True
    then have "unat u div unat base = 0" by (metis unat_0 unat_div)
    then have "unat u mod unat base = unat u" using b by (simp add: div_eq_0_iff)
    then show ?thesis using True d by (subst num_chars.simps) (simp add: chars_value_def)
  next
    case False
    then have "chars_value (unat base) (rev (num_chars upcase base (u div base))) = unat u div unat base"
      using 1 by (simp add: unat_div)
    then show ?thesis using False d "1.prems" by (subst num_chars.simps) (simp add: chars_value_def)
  qed
qed

text \<open>The characters that stand for a digit of the base, and the numerals without leading zeros.\<close>

definition is_digit :: "bool \<Rightarrow> nat \<Rightarrow> u8 \<Rightarrow> bool" where
  "is_digit upcase base c \<longleftrightarrow> (48 \<le> c \<and> c \<le> 57 \<or> (if upcase then 65 \<le> c \<and> c \<le> 70 else 97 \<le> c \<and> c \<le> 102))
     \<and> char_value c < base"

definition is_numeral :: "bool \<Rightarrow> nat \<Rightarrow> u8 list \<Rightarrow> bool" where
  "is_numeral upcase base ds \<longleftrightarrow> ds \<noteq> [] \<and> (\<forall>c \<in> set ds. is_digit upcase base c) \<and> (hd ds = zero_digit \<longrightarrow> ds = [zero_digit])"

lemma is_digit_char:
  assumes "d < base" and "base \<le> 16"
  shows "is_digit upcase (unat base) (digit_char upcase d)"
proof -
  have lt: "unat d < unat base" "unat d < 16" using assms by (simp_all add: word_less_nat_alt word_le_nat_alt)
  have "list_all (\<lambda>k. is_digit True 16 (digit_char True (of_nat k)) \<and> is_digit False 16 (digit_char False (of_nat k))) [0..<16]"
    by code_simp
  then have "is_digit upcase 16 (digit_char upcase (of_nat (unat d)))"
    using lt by (cases upcase) (auto simp only: list_all_iff set_upt atLeastLessThan_iff)
  moreover have "char_value (digit_char upcase d) = unat d" using lt by (intro char_value_digit) (simp add: word_less_nat_alt)
  ultimately show ?thesis using lt by (simp add: is_digit_def)
qed

lemma num_chars_digits:
  "2 \<le> base \<Longrightarrow> base \<le> 16 \<Longrightarrow> c \<in> set (num_chars upcase base u) \<Longrightarrow> is_digit upcase (unat base) c"
proof (induction upcase base u rule: num_chars.induct)
  case (1 upcase base u)
  have "u mod base < base" using "1.prems"(1) by (auto simp: word_less_nat_alt word_le_nat_alt unat_mod)
  then have "is_digit upcase (unat base) (digit_char upcase (u mod base))" using "1.prems"(2) by (rule is_digit_char)
  moreover have "c = digit_char upcase (u mod base) \<or> (u div base \<noteq> 0 \<and> c \<in> set (num_chars upcase base (u div base)))"
    using "1.prems"(3) by (subst (asm) num_chars.simps) (auto split: if_splits)
  ultimately show ?case using 1 by auto
qed

lemma num_chars_leading: "2 \<le> base \<Longrightarrow> base \<le> 16 \<Longrightarrow> last (num_chars upcase base u) = zero_digit \<Longrightarrow> u = 0"
proof (induction upcase base u rule: num_chars.induct)
  case (1 upcase base u)
  show ?case
  proof (cases "u div base = 0")
    case True
    then have "num_chars upcase base u = [zero_digit]" using "1.prems"(3) by (subst (asm) num_chars.simps, subst num_chars.simps) simp
    then have "unat u = 0" using num_chars_value [OF "1.prems"(1,2), of upcase u] by (simp add: chars_value_def char_value_def)
    then show ?thesis by (simp add: unat_eq_zero)
  next
    case False
    have "num_chars upcase base (u div base) \<noteq> []" by (subst num_chars.simps) simp
    then have "last (num_chars upcase base (u div base)) = zero_digit"
      using "1.prems" False by (subst (asm) (2) num_chars.simps) simp
    then show ?thesis using 1 False by blast
  qed
qed

lemma num_chars_numeral:
  assumes "2 \<le> base" and "base \<le> 16"
  shows "is_numeral upcase (unat base) (rev (num_chars upcase base u))"
proof -
  have "num_chars upcase base u \<noteq> []" by (subst num_chars.simps) simp
  moreover have "num_chars upcase base 0 = [zero_digit]" by (subst num_chars.simps) (simp add: digit_char_def)
  ultimately show ?thesis
    using num_chars_digits [OF assms] num_chars_leading [OF assms, of upcase u] by (auto simp: is_numeral_def hd_rev)
qed

lemma num_chars_length: "8 \<le> base \<Longrightarrow> unat u < 8 ^ n \<Longrightarrow> 0 < n \<Longrightarrow> length (num_chars upcase base u) \<le> n"
proof (induction n arbitrary: u)
  case (Suc n)
  have b: "8 \<le> unat base" using Suc.prems by (simp add: word_le_nat_alt)
  show ?case
  proof (cases "u div base = 0")
    case True
    then show ?thesis by (subst num_chars.simps) simp
  next
    case False
    have "unat (u div base) \<le> unat u div 8" using b by (simp add: unat_div div_le_mono2)
    also have "\<dots> < 8 ^ n" using Suc.prems by (simp add: div_less_iff_less_mult)
    finally have lt: "unat (u div base) < 8 ^ n" .
    moreover have "0 < unat (u div base)" using False by (simp add: unat_gt_0)
    ultimately have "0 < n" by (cases n) auto
    with lt have "length (num_chars upcase base (u div base)) \<le> n" using Suc by blast
    then show ?thesis by (subst num_chars.simps) simp
  qed
qed simp

lemma num_chars_22: "8 \<le> base \<Longrightarrow> length (num_chars upcase base u) \<le> 22"
  using unsigned_less [of u, where ?'a = nat] by (intro num_chars_length) auto

text \<open>
  C20: The buffer of \<^verbatim>\<open>printNum\<close> has 128 bytes, and no field of up to 127 characters leaves it: in the bases
  8, 10 and 16 the digits and the sign of every 64-bit number fit, so that only a width of 128 or more
  in the format overruns it. A buffer that is not overrun ends with a NUL at the end of the field.
\<close>

theorem printNum_bounds:
  assumes "length buf = 128" and "base \<in> {8, 10, 16}"
  shows "(printNum buf u base negFlag width ladjust padc upcase \<noteq> None \<longleftrightarrow> width < 128)
    \<and> (\<forall>buf'. printNum buf u base negFlag width ladjust padc upcase = Some buf' \<longrightarrow> length buf' = 128
      \<and> buf' ! (max width (length (num_chars upcase base u) + (if negFlag then 1 else 0))) = 0)"
proof -
  have "8 \<le> base" using assms(2) by auto
  then have "length (num_chars upcase base u) \<le> 22" by (rule num_chars_22)
  then show ?thesis
    using assms(1) by (auto simp: printNum_eq Let_def num_field_length nth_append split: if_splits)
qed

theorem printNum_bounds_witness:
  "printNum (replicate 128 0) 255 16 False 127 False blank False \<noteq> None
    \<and> printNum (replicate 128 0) 255 16 False 128 False blank False = None"
  using printNum_bounds [of "replicate 128 0" 16 255 False 127 False blank False]
    printNum_bounds [of "replicate 128 0" 16 255 False 128 False blank False] by simp

text \<open>
  C21: What \<^verbatim>\<open>printNum\<close> leaves in the buffer up to the NUL is the field: the sign and the numeral, the highest
  digit first, padded to the width on the right with blanks when the field is adjusted to the left,
  between the sign and the numeral with zeros, or on the left with blanks. The numeral consists of
  digits of the base alone, in the case asked for and without leading zeros, and read in the base it
  gives the number back.
\<close>

theorem printNum_roundtrip:
  assumes "length buf = 128" and "base \<in> {8, 10, 16}" and "width < 128" and "padc \<in> {blank, zero_digit}"
  shows "\<exists>buf' ds. printNum buf u base negFlag width ladjust padc upcase = Some buf'
    \<and> is_numeral upcase (unat base) ds \<and> chars_value (unat base) ds = unat u
    \<and> (let sgn = (if negFlag then [minus_sign] else []); pad = width - (length ds + length sgn);
          field = (if ladjust then sgn @ ds @ replicate pad blank
            else if padc = zero_digit then sgn @ replicate pad zero_digit @ ds
            else replicate pad blank @ sgn @ ds)
       in take (length field + 1) buf' = field @ [0])"
proof -
  let ?ds = "rev (num_chars upcase base u)" and ?f = "num_field u base negFlag width ladjust padc upcase"
  have b: "8 \<le> base" "2 \<le> base" "base \<le> 16" using assms(2) by auto
  have "length ?f < 128"
    using num_chars_22 [OF b(1), of upcase u] assms(3) by (simp add: num_field_length)
  then have "printNum buf u base negFlag width ladjust padc upcase = Some (?f @ 0 # drop (Suc (length ?f)) buf)"
    using assms(1) by (simp add: printNum_eq Let_def)
  moreover have "is_numeral upcase (unat base) ?ds" "chars_value (unat base) ?ds = unat u"
    using b by (simp_all add: num_chars_numeral num_chars_value)
  moreover have "take (length ?f + 1) (?f @ 0 # drop (Suc (length ?f)) buf) = ?f @ [0]"
    by simp
  ultimately show ?thesis
    using assms(4) by (intro exI [of _ "?f @ 0 # drop (Suc (length ?f)) buf"] exI [of _ ?ds]) (auto simp: num_field_def Let_def)
qed

theorem printNum_roundtrip_witness:
  "\<exists>buf' ds. printNum (replicate 128 0) 42 10 True 5 False zero_digit False = Some buf'
    \<and> is_numeral False 10 ds \<and> chars_value 10 ds = 42
    \<and> take (length (minus_sign # replicate (5 - Suc (length ds)) zero_digit @ ds) + 1) buf'
      = minus_sign # replicate (5 - Suc (length ds)) zero_digit @ ds @ [0]"
  using printNum_roundtrip [of "replicate 128 0" 10 5 zero_digit 42 True False False] by (simp add: Let_def)

end
