(* ===== verification/Spinlock.thy ===== *)
theory Spinlock
  imports Prelude
begin

text \<open>
  The spin locks, \<^verbatim>\<open>src/kernel/lock/Spinlock.c\<close>. \<^verbatim>\<open>acquireLock\<close> and \<^verbatim>\<open>releaseLock\<close> return before their first
  statement, so a lock keeps its initial value; the other theories leave the calls out.
\<close>

record Spinlock =
  locked :: u8
  times :: int
  name :: u64
  hart :: "nat option"

definition initLock :: "u64 \<Rightarrow> Spinlock \<Rightarrow> Spinlock" where
  "initLock n lock = lock\<lparr>name := n, locked := 0, hart := None, times := 0\<rparr>"

definition acquireLock :: "Spinlock \<Rightarrow> Spinlock" where
  "acquireLock lock = lock"

definition releaseLock :: "Spinlock \<Rightarrow> Spinlock" where
  "releaseLock lock = lock"

definition holding :: "nat \<Rightarrow> Spinlock \<Rightarrow> bool" where
  "holding h lock \<longleftrightarrow> locked lock \<noteq> 0 \<and> hart lock = Some h"

text \<open>After any number of calls no hart holds a lock.\<close>

lemma never_held: "\<forall>f \<in> set fs. f = acquireLock \<or> f = releaseLock \<Longrightarrow> \<not> holding h (fold (\<lambda>f. f) fs (initLock n lock))"
proof -
  assume "\<forall>f \<in> set fs. f = acquireLock \<or> f = releaseLock"
  then have "fold (\<lambda>f. f) fs l = l" for l
    by (induction fs) (auto simp: acquireLock_def releaseLock_def fun_eq_iff)
  then show ?thesis by (simp add: holding_def initLock_def)
qed

end
