(* ===== verification/Spec2Isabelle.thy ===== *)
theory Spec2Isabelle
  imports CString Futex Fat_Index Console_Queue Descriptors Round_Robin Segment_Maps Copy_On_Write
    User_Return Print Spinlock
begin

text \<open>
  A verification library for the kernel of OS-RISCV, a Unix-like kernel in C for 64-bit RISC-V with
  Sv39 paging, a FAT32 file system and a subset of the Linux system calls (\<^verbatim>\<open>src/kernel\<close>,
  \<^verbatim>\<open>src/include\<close>).

  \<^bold>\<open>The program.\<close> A user program traps into the kernel through the trampoline, which saves its registers
  in the trap frame of the hart and calls \<^verbatim>\<open>userTrap\<close>. A system call is looked up in \<^verbatim>\<open>syscallVector\<close> and runs a
  handler of \<^verbatim>\<open>Syscall.c\<close> or \<^verbatim>\<open>Sysfile.c\<close>; a page fault loads a page from a file or copies a shared one; an
  interrupt makes the thread give up the hart. The handlers work on processes and threads, pages and
  page tables, open files, pipes, sockets, the console, and the file system, which reads and writes
  clusters through the allocation table and the buffer cache. A handler may put its thread to sleep;
  \<^verbatim>\<open>yield\<close> then chooses another one. On the way back to user mode \<^verbatim>\<open>userTrapReturn\<close> delivers signals.

  \<^bold>\<open>How it is modelled.\<close> A kernel function is a function from a state to an optional result and state;
  \<open>None\<close> is a call that never comes back: a \<^verbatim>\<open>panic\<close>, a failed \<^verbatim>\<open>assert\<close>, an access through NULL or outside an
  array, whose effect C leaves undefined, or a thread that waits for a sleep lock it holds itself.
  Error codes are values. The state is a chain of records, each component adding its global variables:
  \<open>kproc\<close> (threads, processes, signals, futexes; Kernel_Types), \<open>kmem\<close> (memory by bytes, pages; Page),
  \<open>kpipe\<close> (Pipe), \<open>kbio\<close> (buffers and the card; Bio), \<open>kfat\<close> (file systems, entries, open files; Fat_Types),
  \<open>kio\<close> (sockets, console; Socket), \<open>klife\<close> (Scheduler), \<open>ktimer\<close> (Syscall), \<open>ktrap\<close> (the suspended calls on
  the kernel stacks; Trap). Unsigned integers are words of their width, \<^verbatim>\<open>int\<close> is \<open>int\<close> with the conversions
  written out, a pointer into a static array is its index, NULL is \<open>None\<close>. One hart runs the kernel and
  is not interrupted in it, as the code has it: the spin locks do nothing (Spinlock) and interrupts are
  off. A call that sleeps ends with a value of \<open>suspended\<close>, the locals it needs, and is continued by
  \<open>resume_call\<close>.

  \<^bold>\<open>Definitions, by source.\<close>
  \<^item> Prelude, Bitmap (\<^verbatim>\<open>Type.h\<close>, the bitmap loops), CList (\<^verbatim>\<open>Queue.h\<close>), CMem and CString (\<^verbatim>\<open>String.c\<close>,
    \<^verbatim>\<open>bcopy\<close>, \<^verbatim>\<open>bzero\<close>), Print (\<^verbatim>\<open>Print.c\<close>), Spinlock (\<^verbatim>\<open>Spinlock.c\<close>).
  \<^item> Page and Uaccess (\<^verbatim>\<open>Page.c\<close>, \<^verbatim>\<open>Sysarg.c\<close>), Memory_Init (\<^verbatim>\<open>MemoryInit.c\<close>).
  \<^item> Kernel_Types (the structures), Sched (ids, \<^verbatim>\<open>sleep\<close>, \<^verbatim>\<open>wakeup\<close>, sleep locks, \<^verbatim>\<open>Interrput.c\<close>), Futex
    (\<^verbatim>\<open>Futex.c\<close>), Signal (\<^verbatim>\<open>Signal.c\<close>), Process_Table (\<^verbatim>\<open>Process.c\<close>, \<^verbatim>\<open>Thread.c\<close>), Scheduler (\<^verbatim>\<open>Yield.c\<close>, \<^verbatim>\<open>Clone.c\<close>,
    \<^verbatim>\<open>threadRun\<close>), Exec (\<^verbatim>\<open>Exec.c\<close>).
  \<^item> Pipe (\<^verbatim>\<open>Pipe.c\<close>), Bio (\<^verbatim>\<open>Bio.c\<close>), Fat_Types (\<^verbatim>\<open>Inode.c\<close>, \<^verbatim>\<open>Dirent.c\<close>), Fat and Fat_File (\<^verbatim>\<open>Fat.c\<close>), File_System
    (\<^verbatim>\<open>FileSystem.c\<close>), Socket (\<^verbatim>\<open>Socket.c\<close>, \<^verbatim>\<open>Console.c\<close>), File (\<^verbatim>\<open>File.c\<close>), Sysfile (\<^verbatim>\<open>Sysfile.c\<close>).
  \<^item> Syscall (\<^verbatim>\<open>Syscall.c\<close>, \<^verbatim>\<open>Timer.c\<close>), Trap (\<^verbatim>\<open>Trap.c\<close>, \<^verbatim>\<open>Init.c\<close>), Trampoline (\<^verbatim>\<open>Trampoline.S\<close>, \<^verbatim>\<open>Sleep.S\<close>,
    \<^verbatim>\<open>KernelVector.S\<close>).

  \<^bold>\<open>What is shown.\<close>
  \<^item> Page_Words, Page_Table and Page_Map read the words of a table tree as a map; \<^verbatim>\<open>pageInsert\<close> and \<^verbatim>\<open>pageRemove\<close>
    change one entry of it and keep the reference counts right. User_Memory shows that \<^verbatim>\<open>copyin\<close> reads back
    what \<^verbatim>\<open>copyout\<close> wrote, Copy_On_Write that \<^verbatim>\<open>cowHandler\<close> makes a private copy, Page_Frame what the page
    functions leave alone.
  \<^item> CList shows that the list macros are operations on sequences; Bitmap states the contract of a pool of
    slots (locale \<open>slot_pool\<close>), which pipes, index blocks and segment maps instantiate; Pipe_Queue states
    that of a bounded queue (locale \<open>fifo\<close>), which pipes and the console (Console_Queue) instantiate.
  \<^item> Bio_Cache gives the buffer cache its meaning, the block a reader sees; Fat_Table shows on top of it that
    the allocation table returns what was stored, Fat_Index that the three-level index of a file does.
  \<^item> Descriptors counts references to open files; Segment_Maps shows that releasing the maps of a process
    ends; Round_Robin reads the two schedule lists as one queue from which \<^verbatim>\<open>yield\<close> takes the first thread
    that may run; Futex, Sched and Signal show waking, ids, and the round trip through a signal handler.
  \<^item> Trampoline shows that traps restore all registers of the user program, and that sleeping and interrupts
    in the kernel restore the integer registers, the only ones they save; Print that a number is printed
    within its buffer and can be read back; Memory_Init what is free after the start.
  \<^item> User_Return follows a trap to its end; with it this theory composes the parts: from the registers of
    a user program that makes a system call to its registers behind the call, and from a store to a
    shared page to the same store on a page of the process's own.
  \<^item> Several properties hold under conditions their texts name. Buffers in user memory are mapped and have
    no copy-on-write pages; \<^verbatim>\<open>pipeWrite\<close> goes wrong on those (\<open>pipe_src_cow_stops\<close> of Pipe_Queue).
  \<^item> Where the code does not do what it means to, a theorem says so: the overlapping \<^verbatim>\<open>memmove\<close>, the write that
    \<^verbatim>\<open>bwrite\<close> leaves out, the register that \<^verbatim>\<open>yield\<close> clears in the wrong thread, \<^verbatim>\<open>dup3\<close> of a descriptor onto itself.

  \<^bold>\<open>Parameters and bounds.\<close> What comes from outside the program is an argument: the clock readings of
  each turn of \<^verbatim>\<open>yield\<close>, the cycle counter, what uninitialised stack variables hold, the address of
  \<^verbatim>\<open>userTrap\<close> and of the stack array of \<^verbatim>\<open>syscallSendFile\<close> (fields of \<open>surroundings\<close>), the characters that reach the UART.
  Loops that may not end, or end only on well-formed data (waiting in \<^verbatim>\<open>yield\<close>, lists and cluster chains,
  loops over chunks and pages), are partial functions, where not returning is \<open>None\<close>; the properties about
  them show that they return. All others are total. Two recursions
  carry a bound: a mounted file system reads its blocks through the file with its image, at most
  through 32 levels, since there are 32 file systems (\<open>fs_read\<close>); symbolic links are followed through at
  most 24, beyond which the kernel stack of three pages is exceeded (\<open>ename\<close>).

  \<^bold>\<open>Not modelled.\<close> The SPI transfers of the SD card driver (\<^verbatim>\<open>Sd.c\<close>), whose blocks are part of the state; the
  registers of the UART, of the interrupt controller and of the processor (\<^verbatim>\<open>Riscv.h\<close>), which \<^verbatim>\<open>trapInit\<close> and
  \<^verbatim>\<open>startPage\<close> set; the firmware, \<^verbatim>\<open>Entry.S\<close> and the linker scripts; the interleaving of several harts, of
  which all but the one that boots and the one that reads the console only wait; the text of the kernel's
  own messages, which no theorem depends on; debugging code; the user programs under \<^verbatim>\<open>src/user\<close>, the
  build tools and the prebuilt images.
\<close>

section \<open>A small kernel state\<close>

definition small_ktrap :: ktrap where
  "small_ktrap = ktimer.extend (klife.extend small_klife (ktimer.fields \<lparr>it_interval = \<lparr>second = 0, nanoSecond = 0\<rparr>,
     it_expiration = \<lparr>second = 0, nanoSecond = 0\<rparr>\<rparr> 0)) (ktrap.fields (\<lambda>_. None))"

definition small_surroundings :: surroundings where
  "small_surroundings = \<lparr>junk_bytes = replicate 64 0, junk_script = (\<lambda>_. []), cycle = 0, userTrap_address = 0x80200000,
     stack_buffer = 0x80300000, clock = (\<lambda>_ _. 0)\<rparr>"

lemma small_ktrap_sel [simp]: "threads small_ktrap = (\<lambda>_. zero_thread)" "currentThread small_ktrap = Some 0"
  "signal_links small_ktrap = zero_lists"
proof -
  have "klife.truncate small_ktrap = small_klife" "kio.truncate small_klife = small_kio"
    by (simp_all add: small_ktrap_def small_klife_def kio.defs klife.defs ktimer.defs ktrap.defs)
  moreover have "threads s = threads (klife.truncate s)" "currentThread s = currentThread (klife.truncate s)" for s :: ktrap
    by (simp_all add: klife.defs)
  moreover have "currentThread s = currentThread (kio.truncate s)" for s :: klife
    by (simp add: kio.defs)
  ultimately show "threads small_ktrap = (\<lambda>_. zero_thread)" "currentThread small_ktrap = Some 0" by simp_all
  show "signal_links small_ktrap = zero_lists"
    by (simp add: small_ktrap_def small_klife_def small_kio_def small_kfat_def fresh_cache_def binit_eq zero_kbio_def zero_kpipe_def
        zero_kmem_def zero_kproc_def kproc.defs kmem.defs kpipe.defs kbio.defs kfat.defs kio.defs klife.defs ktimer.defs ktrap.defs)
qed

lemma small_ktrap_undisturbed:
  "threads s = threads small_ktrap \<Longrightarrow> currentThread s = currentThread small_ktrap \<Longrightarrow> signal_links s = signal_links small_ktrap
     \<Longrightarrow> undisturbed 0 s"
  by (simp add: undisturbed_def myThread_def getFirstSignalContext_def zero_thread_def zero_lists_def LIST_FIRST_def LIST_FOREACH.simps)

section \<open>A system call from the user program and back\<close>

text \<open>
  C7: A user program that makes the system call \<^verbatim>\<open>dup\<close> on an open descriptor gets its answer: \<^verbatim>\<open>userTrap\<close>, on
  the frame the trampoline has saved, comes to the return to user mode, the process has the lowest
  free descriptor open on the same file and every file counts its descriptors; and when the
  trampoline has loaded the frame again, the program goes on behind the call with that descriptor, or
  with the error when it has none left, in \<^verbatim>\<open>a0\<close>, and with every other integer and floating-point
  register as it was. This is for a thread that is not killed and has no signal to handle.
\<close>

theorem dup_call_answered:
  fixes s :: "'z ktrap_scheme"
  assumes "entered m s" and "undisturbed th s" and "xr m a7 = 23"
    and "refs_ok H s" and "\<forall>f. 0 \<le> H f" and "myProcess s = Some p" and "p < 1024" and "unat (fd_hard (processes s p)) \<le> NOFILE"
    and "to_int (xr m a0) = int fd" and "fd < NOFILE" and "ofile (processes s p) fd = Some f"
  shows "\<exists>u. userTrap J EnvironmentCall s = Some u \<and> refs_ok H u \<and> currentThread u = currentThread s
    \<and> ofile (processes u p) = (case free_fd (processes s p) of None \<Rightarrow> ofile (processes s p)
        | Some n \<Rightarrow> (ofile (processes s p))(n := Some f))
    \<and> (\<forall>m2. leaving m u m2 \<longrightarrow> pc (exec_asm userReturn m2) = csrs m Sepc + 4 \<and> fr (exec_asm userReturn m2) = fr m
        \<and> xr (exec_asm userReturn m2) = (xr m)(a0 := case free_fd (processes s p) of None \<Rightarrow> word_of_int (- EMFILE) | Some n \<Rightarrow> of_nat n))"
proof -
  let ?s = "s\<lparr>hartTrapframe := (hartTrapframe s)(tf_epc := csrs m Sepc + 4)\<rparr>"
  have a: "hartTrapframe s tf_a7 = 23" "iarg tf_a0 ?s = int fd" using entered_args [OF assms(1)] assms(3,9) by simp_all
  have "refs_ok H ?s" "myProcess ?s = Some p" using assms(4,6) by (simp_all add: refs_ok_def myProcess_def myThread_def split: option.splits)
  then obtain t where t: "syscallDup ?s = Some t" "refs_ok H t"
    and r: "case free_fd (processes s p) of None \<Rightarrow> t = ret (- EMFILE) ?s
       | Some n \<Rightarrow> hartTrapframe t tf_a0 = of_nat n
           \<and> processes t = (processes s)(p := (processes s p)\<lparr>ofile := (ofile (processes s p))(n := Some f)\<rparr>)"
    using dup_run [of H ?s p f] assms(5,7,8,10,11) a(2) by (auto simp: fd_file_def split: option.splits)
  obtain P G v where tf: "t = ?s\<lparr>processes := P, ftable := G, hartTrapframe := (hartTrapframe ?s)(tf_a0 := v)\<rparr>"
    using dup_frame [OF t(1)] by blast
  have u: "undisturbed th t" using assms(2) by (subst undisturbed_cong [of _ s]) (simp_all add: tf)
  let ?u = "t\<lparr>hartTrapframe := next_frame J th t\<rparr>"
  have "map_of (rev (syscallVector J)) 23 = Some (simple syscallDup :: 'z ktrap_scheme \<Rightarrow> _)" by (simp add: syscallVector_def)
  then have run: "userTrap J EnvironmentCall s = Some ?u"
    using a(1) t(1) entered_args(3) [OF assms(1)] by (simp add: userTrap_def syscall_def Let_def run_done [OF u])
  have v: "v = (case free_fd (processes s p) of None \<Rightarrow> word_of_int (- EMFILE) | Some n \<Rightarrow> of_nat n)"
    using r arg_cong [OF tf, of "\<lambda>t. hartTrapframe t tf_a0"] by (auto simp: ret64_def split: option.splits)
  have "leaving m ?u m2 \<Longrightarrow> pc (exec_asm userReturn m2) = csrs m Sepc + 4 \<and> fr (exec_asm userReturn m2) = fr m
      \<and> xr (exec_asm userReturn m2) = (xr m)(a0 := v)" for m2
    using back_in_user [OF assms(1), of ?u m2] by (simp add: next_frame_def tf)
  moreover have "refs_ok H ?u" "currentThread ?u = currentThread s" using t(2) tf by (simp_all add: refs_ok_def)
  moreover have "ofile (processes ?u p) = (case free_fd (processes s p) of None \<Rightarrow> ofile (processes s p)
        | Some n \<Rightarrow> (ofile (processes s p))(n := Some f))"
    using r by (auto simp: ret64_def split: option.splits)
  ultimately show ?thesis unfolding run v [symmetric] by blast
qed

text \<open>A program about to duplicate its descriptor 3, and the kernel it enters.\<close>

definition dup_program :: machine where
  "dup_program = trap_demo\<lparr>xr := (\<lambda>r. 7)(a7 := 23, a0 := 3)\<rparr>"

definition dup_kernel :: ktrap where
  "dup_kernel = small_ktrap\<lparr>hartTrapframe := frame_of (ram (exec_asm userVector dup_program)) 4096,
     processes := processes (one_open (\<lambda>_. 0)), ftable := ftable (one_open (\<lambda>_. 0))\<rparr>"

theorem dup_call_answered_witness:
  "\<exists>u m2. userTrap small_surroundings EnvironmentCall dup_kernel = Some u \<and> ofile (processes u 0) 0 = Some 5
    \<and> xr (exec_asm userReturn m2) a0 = 0 \<and> xr (exec_asm userReturn m2) a7 = 23 \<and> pc (exec_asm userReturn m2) = 104"
proof -
  have e: "entered dup_program dup_kernel" by (simp add: entered_def dup_kernel_def dup_program_def trap_demo_def)
  have d: "undisturbed 0 dup_kernel" by (rule small_ktrap_undisturbed) (simp_all add: dup_kernel_def)
  have r: "refs_ok (\<lambda>_. 0) dup_kernel" using one_open_refs [of "\<lambda>_. 0"] by (simp add: refs_ok_def dup_kernel_def)
  have p: "myProcess dup_kernel = Some 0" by (simp add: dup_kernel_def myProcess_def myThread_def zero_thread_def)
  have n: "free_fd (processes dup_kernel 0) = Some 0"
    unfolding free_fd_def by (subst upt_conv_Cons) (simp_all add: dup_kernel_def)
  have "xr dup_program a7 = 23" "to_int (xr dup_program a0) = int 3" "csrs dup_program Sepc = 100"
    by (simp_all add: dup_program_def trap_demo_def to_int_def)
  moreover have "unat (fd_hard (processes dup_kernel 0)) \<le> NOFILE" "ofile (processes dup_kernel 0) 3 = Some 5"
    by (simp_all add: dup_kernel_def)
  ultimately obtain u where u: "userTrap small_surroundings EnvironmentCall dup_kernel = Some u" "ofile (processes u 0) 0 = Some 5"
    "\<forall>m2. leaving dup_program u m2 \<longrightarrow> pc (exec_asm userReturn m2) = 104 \<and> xr (exec_asm userReturn m2) = (xr dup_program)(a0 := 0)"
    using dup_call_answered [OF e d _ r _ p, where fd = 3 and f = 5 and J = small_surroundings] n by auto
  then show ?thesis using leaving_exists [of dup_program u] by (intro exI [of _ u] exI conjI) (auto simp: dup_program_def)
qed

section \<open>From a store to a shared page to a page of one's own\<close>

text \<open>
  C5: A store of a user program to a page that is mapped copy-on-write is served: \<^verbatim>\<open>userTrap\<close> comes to the
  return to user mode in a state in which the address is mapped to a writable page of the process's
  own with the contents of the shared one, every other address is mapped as before, and the shared
  page keeps its contents while another mapping of it is counted. The same thread runs on, and the
  trampoline gives it back all its registers and the program counter of the store, which is tried
  again. This is for a thread that is not killed and has no signal to handle.
\<close>

theorem store_fault_served:
  assumes "entered m s" and "undisturbed th s"
    and "my_pgdir s = Some (page2pa r)" and "pt_inv s r (q # F)" and "2 \<le> length F"
    and "uentry s r va AND PTE_VALID \<noteq> 0" and "uentry s r va AND PTE_COW \<noteq> 0"
    and "PTE2PA (uentry s r va) = page2pa p" and "p < PHYSICAL_PAGE_NUM"
  shows "\<exists>u. userTrap J (StorePageFault va) s = Some u \<and> currentThread u = currentThread s
    \<and> PTE2PA (uentry u r va) = page2pa q \<and> uentry u r va AND PTE_WRITE \<noteq> 0 \<and> uentry u r va AND PTE_COW = 0
    \<and> (\<forall>i < 4096. mem u (page2pa q + of_nat i) = mem s (page2pa p + of_nat i))
    \<and> (\<forall>va'. (ix va' 2, ix va' 1, ix va' 0) \<noteq> (ix va 2, ix va 1, ix va 0) \<longrightarrow> uentry u r va' = uentry s r va')
    \<and> (page_ref s p \<noteq> 1 \<longrightarrow> (\<forall>i < 4096. mem u (page2pa p + of_nat i) = mem s (page2pa p + of_nat i)))
    \<and> (\<forall>m2. leaving m u m2 \<longrightarrow> xr (exec_asm userReturn m2) = xr m \<and> fr (exec_asm userReturn m2) = fr m
        \<and> pc (exec_asm userReturn m2) = csrs m Sepc)"
proof -
  obtain t F' where t: "cowHandler (page2pa r) va s = Some (upa t r va, t)"
    "PTE2PA (uentry t r va) = page2pa q" "uentry t r va AND PTE_WRITE \<noteq> 0" "uentry t r va AND PTE_COW = 0"
    "\<forall>i < 4096. mem t (page2pa q + of_nat i) = mem s (page2pa p + of_nat i)"
    "\<forall>va'. (ix va' 2, ix va' 1, ix va' 0) \<noteq> (ix va 2, ix va 1, ix va 0) \<longrightarrow> uentry t r va' = uentry s r va'"
    "page_ref s p \<noteq> 1 \<longrightarrow> (\<forall>i < 4096. mem t (page2pa p + of_nat i) = mem s (page2pa p + of_nat i))"
    using cowHandler_spec [OF assms(4,5) refl assms(6-9)] by (elim exE conjE) (rule that)
  obtain lf where lf: "pageLookup (page2pa r) va s = (page2pa p, Some (page2pa lf + 8 * of_nat (ix va 0)))"
    "pcells s lf (ix va 0) = uentry s r va"
    using lookup_word [OF pt_invD(2) [OF assms(4)] refl assms(6)] assms(8) by auto
  have "page2pa p \<noteq> 0" using unat_page2pa [OF assms(9)] by auto
  then have pf: "page_fault True va s = Some t"
    using lf assms(3,7) t(1) by (simp add: page_fault_def cells_def Let_def)
  note om = only_mem_sel [OF only_mem_cow [OF t(1)]]
  have "undisturbed th t" using assms(2) by (subst undisturbed_cong [of _ s]) (simp_all add: om)
  note rd = run_done [OF this, of J 0]
  let ?u = "t\<lparr>hartTrapframe := next_frame J th t\<rparr>"
  have "userTrap J (StorePageFault va) s = Some ?u" by (simp add: userTrap_def pf rd)
  moreover have "uentry ?u r va' = uentry t r va'" for va' by (rule map_fields(2)) simp_all
  moreover have "xr (exec_asm userReturn m2) = xr m \<and> fr (exec_asm userReturn m2) = fr m \<and> pc (exec_asm userReturn m2) = csrs m Sepc"
    if "leaving m ?u m2" for m2
    using back_in_user [OF assms(1) that] entered_args [OF assms(1)] by (simp add: next_frame_def om)
  ultimately show ?thesis using t(2-7) om by (intro exI [of _ ?u]) simp
qed

text \<open>The state of a process with a page that is copy-on-write.\<close>

definition cow_kernel :: ktrap where
  "cow_kernel = small_ktrap\<lparr>hartTrapframe := frame_of (ram (exec_asm userVector trap_demo)) 4096,
     mem := mem cow_page, page_ref := page_ref cow_page, page_links := page_links cow_page,
     processes := \<lambda>_. zero_process\<lparr>p_pgdir := page2pa 0\<rparr>\<rparr>"

theorem store_fault_served_witness:
  "\<exists>q u m2. userTrap small_surroundings (StorePageFault 0x1000) cow_kernel = Some u
    \<and> uentry u 0 0x1000 AND PTE_WRITE \<noteq> 0 \<and> (\<forall>i < 4096. mem u (page2pa q + of_nat i) = mem cow_kernel (page2pa 20 + of_nat i))
    \<and> pc (exec_asm userReturn m2) = 100"
proof -
  have f: "mem cow_kernel = mem cow_page" "page_ref cow_kernel = page_ref cow_page" "page_links cow_kernel = page_links cow_page"
    by (simp_all add: cow_kernel_def)
  obtain q F where F: "pt_inv cow_kernel 0 (q # F)" "2 \<le> length F" using cow_page_facts map_fields(1) [OF f] by blast
  have e: "uentry cow_kernel 0 0x1000 = new_entry (page2pa 20) 0x112" using cow_page_entry map_fields(2) [OF f] by simp
  have v: "uentry cow_kernel 0 0x1000 AND PTE_VALID \<noteq> 0" "uentry cow_kernel 0 0x1000 AND PTE_COW \<noteq> 0"
    unfolding e by code_simp+
  have p: "PTE2PA (uentry cow_kernel 0 0x1000) = page2pa 20"
    unfolding e using PTE2PA_new_entry [of "page2pa 20" "0x112"] unat_page2pa [of 20]
      perm_only_or [OF perm_only_numeral(2) perm_only_or [OF perm_only_numeral(5,8)]] by simp
  have pg: "my_pgdir cow_kernel = Some (page2pa 0)"
    by (simp add: cow_kernel_def my_pgdir_def myProcess_def myThread_def)
  have en: "entered trap_demo cow_kernel" by (simp add: entered_def cow_kernel_def trap_demo_def)
  have un: "undisturbed 0 cow_kernel" by (rule small_ktrap_undisturbed) (simp_all add: cow_kernel_def)
  obtain u where u: "userTrap small_surroundings (StorePageFault 0x1000) cow_kernel = Some u" "uentry u 0 0x1000 AND PTE_WRITE \<noteq> 0"
    "\<forall>i < 4096. mem u (page2pa q + of_nat i) = mem cow_kernel (page2pa 20 + of_nat i)"
    "\<forall>m2. leaving trap_demo u m2 \<longrightarrow> xr (exec_asm userReturn m2) = xr trap_demo \<and> fr (exec_asm userReturn m2) = fr trap_demo
        \<and> pc (exec_asm userReturn m2) = csrs trap_demo Sepc"
    using store_fault_served [OF en un pg F v p, of small_surroundings] by auto
  have "pc (exec_asm userReturn (trap_demo\<lparr>xr := \<lambda>_. csrs trap_demo Sscratch,
      ram := put_words (csrs trap_demo Sscratch) (frame_image (hartTrapframe u)) (ram trap_demo)\<rparr>)) = 100"
    using u(4) leaving_exists [of trap_demo u] by (simp add: trap_demo_def)
  with u show ?thesis by blast
qed

end
